(* ===== verification/Prelude.thy ===== *)
theory Prelude
  imports Main "HOL-Library.Word"
begin

text \<open>
  Shared vocabulary of the development: the machine integers of the Go code, the functions of
  the packages \<open>strings\<close>, \<open>strconv\<close> and \<open>fmt\<close> that the sources use, on strings that are lists
  of bytes as Go's are, and the generic lemmas on them that several components need.
\<close>

type_synonym int64 = "64 word"
type_synonym int32 = "32 word"
type_synonym uint16 = "16 word"
type_synonym float32 = "32 word"

named_theorems string_simps \<open>evaluation rules of the string functions\<close>

subsection \<open>Decimal numbers: \<open>strconv.Itoa\<close> and the verb \<open>%d\<close>\<close>

definition digit :: "nat \<Rightarrow> char" where
  "digit n = ''0123456789'' ! n"

fun nat_dec :: "nat \<Rightarrow> string" where
  "nat_dec n = (if n < 10 then [digit n] else nat_dec (n div 10) @ [digit (n mod 10)])"

declare nat_dec.simps [simp del]

definition int_dec :: "int \<Rightarrow> string" where
  "int_dec i = (if i < 0 then CHR ''-'' # nat_dec (nat (- i)) else nat_dec (nat i))"

definition digit_val :: "char \<Rightarrow> nat" where
  "digit_val c = of_char c - 48"

definition dec_val :: "string \<Rightarrow> nat" where
  "dec_val = foldl (\<lambda>a c. 10 * a + digit_val c) 0"

definition is_digit :: "char \<Rightarrow> bool" where
  "is_digit c \<longleftrightarrow> c \<in> set ''0123456789''"

lemma less_10_cases:
  fixes n :: nat
  assumes "n < 10"
  obtains "n = 0" | "n = 1" | "n = 2" | "n = 3" | "n = 4" | "n = 5" | "n = 6" | "n = 7" | "n = 8" | "n = 9"
  using assms by (simp add: eval_nat_numeral less_Suc_eq) blast

lemma digit_val_digit [simp]: "n < 10 \<Longrightarrow> digit_val (digit n) = n"
  by (erule less_10_cases) (simp_all add: digit_def digit_val_def)

lemma is_digit_digit [simp]: "n < 10 \<Longrightarrow> is_digit (digit n)"
  unfolding is_digit_def digit_def by (rule nth_mem) simp

lemma dec_val_snoc [simp]: "dec_val (xs @ [c]) = 10 * dec_val xs + digit_val c"
  by (simp add: dec_val_def)

lemma dec_val_nat_dec [simp]: "dec_val (nat_dec n) = n"
proof (induction n rule: nat_dec.induct)
  case (1 n)
  show ?case
  proof (cases "n < 10")
    case True
    then show ?thesis by (subst nat_dec.simps) (simp add: dec_val_def)
  next
    case False
    then show ?thesis using 1 by (subst nat_dec.simps) simp
  qed
qed

lemma nat_dec_inj [simp]: "nat_dec m = nat_dec n \<longleftrightarrow> m = n"
  by (metis dec_val_nat_dec)

lemma nat_dec_digits: "c \<in> set (nat_dec n) \<Longrightarrow> is_digit c"
proof (induction n rule: nat_dec.induct)
  case (1 n)
  show ?case
  proof (cases "n < 10")
    case True
    then show ?thesis using "1.prems" by (simp add: nat_dec.simps [of n])
  next
    case False
    then show ?thesis using 1 by (auto simp add: nat_dec.simps [of n])
  qed
qed

lemma nat_dec_Nil [simp]: "nat_dec n \<noteq> []"
  by (subst nat_dec.simps) simp

lemma minus_not_digit [simp]: "\<not> is_digit (CHR ''-'')"
  by (simp add: is_digit_def)

lemma nat_dec_not_minus [simp]: "nat_dec n \<noteq> CHR ''-'' # xs"
  using nat_dec_digits [of "CHR ''-''" n] by (auto intro: ccontr)

lemma int_dec_inj [simp]: "int_dec i = int_dec j \<longleftrightarrow> i = j"
  using nat_dec_not_minus [of "nat i"] nat_dec_not_minus [of "nat j"]
  by (auto simp: int_dec_def dest: sym)

lemma int_dec_Nil [simp]: "int_dec i \<noteq> []"
  by (simp add: int_dec_def)

lemma int_dec_chars: "c \<in> set (int_dec i) \<Longrightarrow> is_digit c \<or> c = CHR ''-''"
  by (auto simp: int_dec_def dest: nat_dec_digits split: if_splits)

subsection \<open>Package \<open>strings\<close>\<close>

text \<open>\<open>strings.HasPrefix\<close>, \<open>strings.Split\<close> on a one byte separator, \<open>strings.Join\<close>,
  \<open>strings.TrimSuffix\<close>.\<close>

definition has_prefix :: "string \<Rightarrow> string \<Rightarrow> bool" where
  "has_prefix s p \<longleftrightarrow> take (length p) s = p"

fun split_on :: "char \<Rightarrow> string \<Rightarrow> string list" where
  "split_on c [] = [[]]"
| "split_on c (x # xs) =
     (if x = c then [] # split_on c xs
      else (case split_on c xs of [] \<Rightarrow> [[x]] | w # ws \<Rightarrow> (x # w) # ws))"

fun join_with :: "string \<Rightarrow> string list \<Rightarrow> string" where
  "join_with sep [] = []"
| "join_with sep [w] = w"
| "join_with sep (w # v # ws) = w @ sep @ join_with sep (v # ws)"

definition trim_suffix :: "string \<Rightarrow> string \<Rightarrow> string" where
  "trim_suffix s suf =
     (if length suf \<le> length s \<and> drop (length s - length suf) s = suf
      then take (length s - length suf) s else s)"

lemma has_prefix_append [simp]: "has_prefix (p @ s) p"
  by (simp add: has_prefix_def)

lemma has_prefix_iff: "has_prefix s p \<longleftrightarrow> (\<exists>r. s = p @ r)"
  by (metis append_eq_conv_conj append_take_drop_id has_prefix_def)

lemma trim_suffix_append [simp]: "trim_suffix (s @ suf) suf = s"
  by (simp add: trim_suffix_def)

lemma split_on_not_Nil [simp]: "split_on c s \<noteq> []"
  by (induction s) (auto split: list.splits)

lemma split_on_append:
  "c \<notin> set w \<Longrightarrow> split_on c (w @ c # s) = w # split_on c s"
  by (induction w) auto

lemma split_on_no_sep: "c \<notin> set w \<Longrightarrow> split_on c w = [w]"
  by (induction w) auto

lemma split_on_parts: "w \<in> set (split_on c s) \<Longrightarrow> c \<notin> set w"
  by (induction s arbitrary: w) (auto split: if_splits list.splits)

lemma join_split_on: "join_with [c] (split_on c s) = s"
proof (induction s)
  case Nil
  then show ?case by simp
next
  case (Cons x xs)
  obtain w ws where ws: "split_on c xs = w # ws"
    using split_on_not_Nil by (metis list.exhaust)
  with Cons show ?case by (cases ws) auto
qed

text \<open>
  \<open>strings.TrimSpace\<close> removes the Unicode white space at both ends. The encodings of the white
  space runes in UTF-8 are listed; no encoding is a prefix of another, so removing one encoding
  after the other from an end removes the runes.
\<close>

definition space_runes :: "string list" where
  "space_runes =
     [[CHR 0x09], [CHR 0x0A], [CHR 0x0B], [CHR 0x0C], [CHR 0x0D], [CHR 0x20],
      [CHR 0xC2, CHR 0x85], [CHR 0xC2, CHR 0xA0], [CHR 0xE1, CHR 0x9A, CHR 0x80],
      [CHR 0xE2, CHR 0x80, CHR 0x80], [CHR 0xE2, CHR 0x80, CHR 0x81],
      [CHR 0xE2, CHR 0x80, CHR 0x82], [CHR 0xE2, CHR 0x80, CHR 0x83],
      [CHR 0xE2, CHR 0x80, CHR 0x84], [CHR 0xE2, CHR 0x80, CHR 0x85],
      [CHR 0xE2, CHR 0x80, CHR 0x86], [CHR 0xE2, CHR 0x80, CHR 0x87],
      [CHR 0xE2, CHR 0x80, CHR 0x88], [CHR 0xE2, CHR 0x80, CHR 0x89],
      [CHR 0xE2, CHR 0x80, CHR 0x8A], [CHR 0xE2, CHR 0x80, CHR 0xA8],
      [CHR 0xE2, CHR 0x80, CHR 0xA9], [CHR 0xE2, CHR 0x80, CHR 0xAF],
      [CHR 0xE2, CHR 0x81, CHR 0x9F], [CHR 0xE3, CHR 0x80, CHR 0x80]]"

function trim_left_runes :: "string list \<Rightarrow> string \<Rightarrow> string" where
  "trim_left_runes runes s =
     (case find (\<lambda>r. r \<noteq> [] \<and> has_prefix s r) runes of
        None \<Rightarrow> s
      | Some r \<Rightarrow> trim_left_runes runes (drop (length r) s))"
  by pat_completeness auto
termination
proof (relation "measure (\<lambda>(runes, s). length s)", simp)
  fix runes s r
  assume "find (\<lambda>r. r \<noteq> [] \<and> has_prefix s r) runes = Some r"
  then have "r \<noteq> []" and "has_prefix s r" by (auto simp: find_Some_iff)
  then show "((runes, drop (length r) s), (runes, s)) \<in> measure (\<lambda>(runes, s). length s)"
    by (auto simp: has_prefix_iff)
qed

declare trim_left_runes.simps [simp del]

definition trim_space :: "string \<Rightarrow> string" where
  "trim_space s =
     rev (trim_left_runes (map rev space_runes) (rev (trim_left_runes space_runes s)))"

lemma trim_left_runes_id:
  "\<forall>r \<in> set runes. r = [] \<or> \<not> has_prefix s r \<Longrightarrow> trim_left_runes runes s = s"
  by (subst trim_left_runes.simps) (auto split: option.split simp: find_Some_iff)

text \<open>A string whose first and last byte are printable ASCII other than the space is not
  changed by \<open>trim_space\<close>.\<close>

definition graphic :: "char \<Rightarrow> bool" where
  "graphic c \<longleftrightarrow> 0x20 < (of_char c :: nat) \<and> (of_char c :: nat) < 0x7F"

lemma space_runes_ends:
  "r \<in> set space_runes \<Longrightarrow> r \<noteq> [] \<and> \<not> graphic (hd r) \<and> \<not> graphic (last r)"
  by (auto simp: space_runes_def graphic_def)

lemma has_prefix_hd: "has_prefix s r \<Longrightarrow> r \<noteq> [] \<Longrightarrow> hd s = hd r"
  by (auto simp: has_prefix_iff)

lemma trim_space_graphic:
  assumes "s \<noteq> []" "graphic (hd s)" "graphic (last s)"
  shows "trim_space s = s"
proof -
  have l: "trim_left_runes space_runes s = s"
    using assms by (intro trim_left_runes_id) (auto dest!: has_prefix_hd space_runes_ends)
  have r: "trim_left_runes (map rev space_runes) (rev s) = rev s"
  proof (intro trim_left_runes_id ballI disjI2 notI)
    fix q assume q: "q \<in> set (map rev space_runes)" and p: "has_prefix (rev s) q"
    from q obtain r where r: "r \<in> set space_runes" "q = rev r" by auto
    with space_runes_ends [of r] p assms has_prefix_hd [of "rev s" q] show False
      by (auto simp: hd_rev)
  qed
  from l r show ?thesis by (simp add: trim_space_def)
qed

subsection \<open>Package \<open>fmt\<close>: the verbs \<open>%Nd\<close>, \<open>%Ns\<close> and \<open>%q\<close>\<close>

text \<open>A width pads on the left with spaces and never truncates.\<close>

definition pad_left :: "nat \<Rightarrow> string \<Rightarrow> string" where
  "pad_left w s = replicate (w - length s) (CHR '' '') @ s"

lemma length_pad_left [simp]: "length (pad_left w s) = max w (length s)"
  by (simp add: pad_left_def)

definition hex_digit :: "nat \<Rightarrow> char" where
  "hex_digit n = ''0123456789abcdef'' ! n"

definition quote_char :: "char \<Rightarrow> string" where
  "quote_char c =
     (let n = of_char c :: nat in
      if n = 34 then [CHR 0x5C, CHR 0x22] else if n = 92 then [CHR 0x5C, CHR 0x5C]
      else if n = 7 then CHR 0x5C # ''a'' else if n = 8 then CHR 0x5C # ''b''
      else if n = 12 then CHR 0x5C # ''f'' else if n = 10 then CHR 0x5C # ''n''
      else if n = 13 then CHR 0x5C # ''r'' else if n = 9 then CHR 0x5C # ''t''
      else if n = 11 then CHR 0x5C # ''v''
      else if n < 32 \<or> n = 127
      then CHR 0x5C # CHR ''x'' # [hex_digit (n div 16), hex_digit (n mod 16)]
      else [c])"

text \<open>\<open>%q\<close> of a string; bytes from 0x80 on are copied, which is exact for printable UTF-8.\<close>

definition quote :: "string \<Rightarrow> string" where
  "quote s = [CHR 0x22] @ concat (map quote_char s) @ [CHR 0x22]"

subsection \<open>Lists\<close>

lemma takeWhile_dropWhile_nth:
  assumes "i < length xs" "\<forall>j<i. P (xs ! j)" "\<not> P (xs ! i)"
  shows "takeWhile P xs = take i xs"
  using assms by (intro takeWhile_eq_take_P_nth) auto

lemma find_append:
  "find P (xs @ ys) = (case find P xs of None \<Rightarrow> find P ys | Some x \<Rightarrow> Some x)"
  by (induction xs) auto

subsection \<open>Maps\<close>

text \<open>An order in which \<open>range\<close> can visit a map.\<close>

definition range_order :: "('k \<rightharpoonup> 'v) \<Rightarrow> 'k list \<Rightarrow> bool" where
  "range_order m order \<longleftrightarrow> distinct order \<and> set order = dom m"

end
