(* ===== verification/GoErrors.thy ===== *)
theory GoErrors
  imports Prelude
begin

text \<open>
  Go's error values, the gRPC status errors of \<open>google.golang.org/grpc/status\<close> (vendored), and the
  monad of the effectful code: a computation takes the state and returns the new state with
  a value, an error value, or a run-time panic (a nil pointer dereference), which no error
  handling of the sources intercepts.
\<close>

subsection \<open>gRPC codes\<close>

datatype code =
  OK | Canceled | Unknown | InvalidArgument | DeadlineExceeded | NotFound | AlreadyExists
| PermissionDenied | ResourceExhausted | FailedPrecondition | Aborted | OutOfRange
| Unimplemented | Internal | Unavailable | DataLoss | Unauthenticated | OtherCode nat

fun code_string :: "code \<Rightarrow> string" where
  "code_string OK = ''OK''"
| "code_string Canceled = ''Canceled''"
| "code_string Unknown = ''Unknown''"
| "code_string InvalidArgument = ''InvalidArgument''"
| "code_string DeadlineExceeded = ''DeadlineExceeded''"
| "code_string NotFound = ''NotFound''"
| "code_string AlreadyExists = ''AlreadyExists''"
| "code_string PermissionDenied = ''PermissionDenied''"
| "code_string ResourceExhausted = ''ResourceExhausted''"
| "code_string FailedPrecondition = ''FailedPrecondition''"
| "code_string Aborted = ''Aborted''"
| "code_string OutOfRange = ''OutOfRange''"
| "code_string Unimplemented = ''Unimplemented''"
| "code_string Internal = ''Internal''"
| "code_string Unavailable = ''Unavailable''"
| "code_string DataLoss = ''DataLoss''"
| "code_string Unauthenticated = ''Unauthenticated''"
| "code_string (OtherCode n) = ''Code('' @ nat_dec n @ '')''"

subsection \<open>Error values\<close>

text \<open>
  The package level error variables are \<open>sentinel\<close>s, compared by identity. \<open>Plain\<close> is
  \<open>errors.New\<close> or a \<open>fmt.Errorf\<close> without \<open>%w\<close>, \<open>StatusErr\<close> a gRPC status error, \<open>Wrapped\<close> a
  \<open>fmt.Errorf\<close> with its text and the errors of its \<open>%w\<close> verbs.
\<close>

datatype sentinel =
  IoEOF | ErrInvalidArgs | ErrCACert | ErrCancelled | ErrFailedToSeek | ErrContentsDoNotMatch

fun sentinel_text :: "sentinel \<Rightarrow> string" where
  "sentinel_text IoEOF = ''EOF''"
| "sentinel_text ErrInvalidArgs = ''invalid argument''"
| "sentinel_text ErrCACert = ''failed to add the SnapshotMetadataService CR CA certificate''"
| "sentinel_text ErrCancelled = ''enumeration cancelled''"
| "sentinel_text ErrFailedToSeek = ''failed to seek''"
| "sentinel_text ErrContentsDoNotMatch = ''source and target device contents do not match''"

datatype gerr =
  Sentinel sentinel
| Plain string
| StatusErr code string
| Wrapped string "gerr list"

fun error_text :: "gerr \<Rightarrow> string" where
  "error_text (Sentinel s) = sentinel_text s"
| "error_text (Plain m) = m"
| "error_text (StatusErr c m) = ''rpc error: code = '' @ code_string c @ '' desc = '' @ m"
| "error_text (Wrapped m es) = m"

fun errors_is :: "gerr \<Rightarrow> gerr \<Rightarrow> bool" where
  "errors_is (Wrapped m es) t \<longleftrightarrow> Wrapped m es = t \<or> list_ex (\<lambda>e. errors_is e t) es"
| "errors_is e t \<longleftrightarrow> e = t"

text \<open>\<open>fmt.Errorf\<close> with one \<open>%w\<close> verb that stands between \<open>pre\<close> and \<open>post\<close>.\<close>

definition errorf_w :: "string \<Rightarrow> gerr \<Rightarrow> string \<Rightarrow> gerr" where
  "errorf_w pre e post = Wrapped (pre @ error_text e @ post) [e]"

lemma errors_is_errorf_w [simp]:
  "errors_is (errorf_w pre e post) t \<longleftrightarrow> errorf_w pre e post = t \<or> errors_is e t"
  by (simp add: errorf_w_def)

lemma errors_is_refl [simp]: "errors_is e e"
  by (cases e) simp_all

lemma errorf_w_not_Sentinel [simp]: "errorf_w pre e post \<noteq> Sentinel s"
  by (simp add: errorf_w_def)

subsection \<open>Package \<open>status\<close>\<close>

text \<open>\<open>errors.As\<close> on the interface with \<open>GRPCStatus()\<close>: the first status error of the tree.\<close>

fun find_status :: "gerr \<Rightarrow> (code \<times> string) option"
  and find_status_list :: "gerr list \<Rightarrow> (code \<times> string) option" where
  "find_status (StatusErr c m) = Some (c, m)"
| "find_status (Wrapped m es) = find_status_list es"
| "find_status (Sentinel s) = None"
| "find_status (Plain m) = None"
| "find_status_list [] = None"
| "find_status_list (e # es) =
     (case find_status e of None \<Rightarrow> find_status_list es | Some st \<Rightarrow> Some st)"

text \<open>\<open>status.FromError\<close>: the status (\<open>None\<close> for the nil error, whose code is OK) and whether
  the error is a status error.\<close>

definition FromError :: "gerr option \<Rightarrow> (code \<times> string) option \<times> bool" where
  "FromError err =
     (case err of
        None \<Rightarrow> (None, True)
      | Some (StatusErr c m) \<Rightarrow> (Some (c, m), True)
      | Some e \<Rightarrow>
          (case find_status e of
             Some (c, m) \<Rightarrow> (Some (c, error_text e), True)
           | None \<Rightarrow> (Some (Unknown, error_text e), False)))"

definition Convert :: "gerr option \<Rightarrow> (code \<times> string) option" where
  "Convert err = fst (FromError err)"

definition status_code :: "(code \<times> string) option \<Rightarrow> code" where
  "status_code st = (case st of None \<Rightarrow> OK | Some (c, m) \<Rightarrow> c)"

text \<open>The code a gRPC server puts on the wire for the error a handler returns.\<close>

definition wire_code :: "gerr option \<Rightarrow> code" where
  "wire_code err = status_code (Convert err)"

lemma Convert_simps [simp]:
  "Convert None = None"
  "Convert (Some (StatusErr c m)) = Some (c, m)"
  "Convert (Some (Plain m)) = Some (Unknown, m)"
  "Convert (Some (Sentinel s)) = Some (Unknown, sentinel_text s)"
  by (simp_all add: Convert_def FromError_def)

lemma status_code_simps [simp]:
  "status_code None = OK"
  "status_code (Some (c, m)) = c"
  by (simp_all add: status_code_def)

lemma wire_code_simps [simp]:
  "wire_code None = OK"
  "wire_code (Some (StatusErr c m)) = c"
  "wire_code (Some (Plain m)) = Unknown"
  by (simp_all add: wire_code_def)

subsection \<open>Effects\<close>

datatype exn = Failed gerr | Panicked string

type_synonym ('s, 'a) io = "'s \<Rightarrow> (exn + 'a) \<times> 's"

definition io_ret :: "'a \<Rightarrow> ('s, 'a) io" where
  "io_ret x = (\<lambda>s. (Inr x, s))"

definition io_fail :: "gerr \<Rightarrow> ('s, 'a) io" where
  "io_fail e = (\<lambda>s. (Inl (Failed e), s))"

definition io_panic :: "string \<Rightarrow> ('s, 'a) io" where
  "io_panic m = (\<lambda>s. (Inl (Panicked m), s))"

definition io_bind :: "('s, 'a) io \<Rightarrow> ('a \<Rightarrow> ('s, 'b) io) \<Rightarrow> ('s, 'b) io" where
  "io_bind m f = (\<lambda>s. case m s of (Inl x, t) \<Rightarrow> (Inl x, t) | (Inr y, t) \<Rightarrow> f y t)"

text \<open>\<open>io_catch m h\<close> is \<open>x, err := m(); if err != nil { h(err) }\<close>: a panic passes through.\<close>

definition io_catch :: "('s, 'a) io \<Rightarrow> (gerr \<Rightarrow> ('s, 'a) io) \<Rightarrow> ('s, 'a) io" where
  "io_catch m h = (\<lambda>s. case m s of (Inl (Failed e), t) \<Rightarrow> h e t | r \<Rightarrow> r)"

abbreviation io_then :: "('s, unit) io \<Rightarrow> ('s, 'b) io \<Rightarrow> ('s, 'b) io" where
  "io_then m k \<equiv> io_bind m (\<lambda>_. k)"

text \<open>Dereference of a pointer that may be nil.\<close>

definition deref :: "'a option \<Rightarrow> ('s, 'a) io" where
  "deref p = (case p of None \<Rightarrow> io_panic ''nil pointer dereference'' | Some x \<Rightarrow> io_ret x)"

definition lift_sum :: "gerr + 'a \<Rightarrow> ('s, 'a) io" where
  "lift_sum r = (case r of Inl e \<Rightarrow> io_fail e | Inr x \<Rightarrow> io_ret x)"

named_theorems io_run \<open>how the effect combinators run from a state\<close>

lemma io_ret_run [io_run]: "io_ret x s = (Inr x, s)"
  by (simp add: io_ret_def)

lemma io_fail_run [io_run]: "io_fail e s = (Inl (Failed e), s)"
  by (simp add: io_fail_def)

lemma io_panic_run [io_run]: "io_panic m s = (Inl (Panicked m), s)"
  by (simp add: io_panic_def)

lemma io_bind_run [io_run]:
  "io_bind m f s = (case m s of (Inl x, t) \<Rightarrow> (Inl x, t) | (Inr y, t) \<Rightarrow> f y t)"
  by (simp add: io_bind_def)

lemma io_catch_run [io_run]:
  "io_catch m h s = (case m s of (Inl (Failed e), t) \<Rightarrow> h e t | r \<Rightarrow> r)"
  by (simp add: io_catch_def)

lemma deref_run [io_run]:
  "deref p s = (case p of None \<Rightarrow> (Inl (Panicked ''nil pointer dereference''), s) | Some x \<Rightarrow> (Inr x, s))"
  by (simp add: deref_def io_run split: option.split)

lemma lift_sum_run [io_run]:
  "lift_sum r s = (case r of Inl e \<Rightarrow> (Inl (Failed e), s) | Inr x \<Rightarrow> (Inr x, s))"
  by (simp add: lift_sum_def io_run split: sum.split)

lemma io_bind_Inr:
  "io_bind m f s = (Inr y, t) \<longleftrightarrow> (\<exists>x u. m s = (Inr x, u) \<and> f x u = (Inr y, t))"
  by (auto simp: io_run split: sum.splits prod.splits)

lemma io_bind_Inl:
  "io_bind m f s = (Inl e, t) \<longleftrightarrow>
     m s = (Inl e, t) \<or> (\<exists>x u. m s = (Inr x, u) \<and> f x u = (Inl e, t))"
  by (auto simp: io_run split: sum.splits prod.splits)

lemma io_bind_assoc: "io_bind (io_bind m f) g = io_bind m (\<lambda>x. io_bind (f x) g)"
  by (auto simp: fun_eq_iff io_run split: sum.splits prod.splits)

lemmas io_splits = sum.splits prod.splits exn.splits option.splits if_splits

subsection \<open>Invariants of computations\<close>

text \<open>
  \<open>io_keeps I m\<close>: the computation keeps the state predicate \<open>I\<close>, whatever it returns.
  \<open>io_hoare P m Q E\<close>: from a state in \<open>P\<close>, a value is returned in \<open>Q\<close>, an error or panic in \<open>E\<close>.
\<close>

definition io_hoare ::
  "('s \<Rightarrow> bool) \<Rightarrow> ('s, 'a) io \<Rightarrow> ('a \<Rightarrow> 's \<Rightarrow> bool) \<Rightarrow> (exn \<Rightarrow> 's \<Rightarrow> bool) \<Rightarrow> bool" where
  "io_hoare P m Q E \<longleftrightarrow>
     (\<forall>s. P s \<longrightarrow> (case m s of (Inr x, t) \<Rightarrow> Q x t | (Inl e, t) \<Rightarrow> E e t))"

lemma io_hoareI:
  assumes "\<And>s x t. P s \<Longrightarrow> m s = (Inr x, t) \<Longrightarrow> Q x t"
    and "\<And>s e t. P s \<Longrightarrow> m s = (Inl e, t) \<Longrightarrow> E e t"
  shows "io_hoare P m Q E"
  using assms unfolding io_hoare_def by (auto split: prod.split sum.split)

lemma io_hoareD:
  assumes "io_hoare P m Q E" "P s" "m s = (r, t)"
  shows "case r of Inr x \<Rightarrow> Q x t | Inl e \<Rightarrow> E e t"
  using assms unfolding io_hoare_def by (fastforce split: sum.splits)

named_theorems hoare_rules \<open>triples of the operations\<close>

lemma hoare_ret [hoare_rules]: "(\<And>s. P s \<Longrightarrow> Q x s) \<Longrightarrow> io_hoare P (io_ret x) Q E"
  by (simp add: io_hoare_def io_run)

lemma hoare_fail [hoare_rules]: "(\<And>s. P s \<Longrightarrow> E (Failed e) s) \<Longrightarrow> io_hoare P (io_fail e) Q E"
  by (simp add: io_hoare_def io_run)

lemma hoare_panic [hoare_rules]: "(\<And>s. P s \<Longrightarrow> E (Panicked m) s) \<Longrightarrow> io_hoare P (io_panic m) Q E"
  by (simp add: io_hoare_def io_run)

lemma hoare_bind [hoare_rules]:
  assumes "io_hoare P m R E" and "\<And>x. io_hoare (R x) (f x) Q E"
  shows "io_hoare P (io_bind m f) Q E"
  using assms unfolding io_hoare_def io_bind_def
  by (fastforce split: prod.splits sum.splits)

lemma hoare_catch [hoare_rules]:
  assumes "io_hoare P m Q (\<lambda>x. case x of Failed e \<Rightarrow> R e | Panicked p \<Rightarrow> E (Panicked p))"
    and "\<And>e. io_hoare (R e) (h e) Q E"
  shows "io_hoare P (io_catch m h) Q E"
  using assms unfolding io_hoare_def io_catch_def
  by (fastforce split: prod.splits sum.splits exn.splits)

lemma hoare_if [hoare_rules]:
  assumes "b \<Longrightarrow> io_hoare P m Q E" "\<not> b \<Longrightarrow> io_hoare P k Q E"
  shows "io_hoare P (if b then m else k) Q E"
  using assms by simp

lemma hoare_deref [hoare_rules]:
  assumes "\<And>x s. p = Some x \<Longrightarrow> P s \<Longrightarrow> Q x s"
    and "\<And>s. p = None \<Longrightarrow> P s \<Longrightarrow> E (Panicked ''nil pointer dereference'') s"
  shows "io_hoare P (deref p) Q E"
  using assms by (auto simp: io_hoare_def io_run split: option.split)

lemma hoare_weaken:
  assumes "io_hoare P m Q E" "\<And>s. P' s \<Longrightarrow> P s" "\<And>x s. Q x s \<Longrightarrow> Q' x s" "\<And>e s. E e s \<Longrightarrow> E' e s"
  shows "io_hoare P' m Q' E'"
  using assms unfolding io_hoare_def by (fastforce split: prod.splits sum.splits)

end
