(* ===== verification/Flags.thy ===== *)
theory Flags
  imports GoErrors
begin

text \<open>
  Go's package \<open>flag\<close>, as far as the sidecar and the command line tools use it: flags of the types
  string, bool, int, int64, duration and float64 that write to variables, and \<open>FlagSet.Parse\<close>. The
  variables are a record of the program; a flag has a setter on it, so that two names can
  share one variable. Integers are read as \<open>strconv.ParseInt\<close> does with base 0.
\<close>

subsection \<open>Package \<open>strconv\<close>\<close>

datatype num_error = ErrSyntax | ErrRange

definition lower_byte :: "char \<Rightarrow> char" where
  "lower_byte c = (if 65 \<le> (of_char c :: nat) \<and> (of_char c :: nat) \<le> 90 then char_of (of_char c + 32 :: nat) else c)"

definition digit_of :: "char \<Rightarrow> nat option" where
  "digit_of c =
     (let n = of_char (lower_byte c) :: nat in
      if is_digit c then Some (digit_val c)
      else if 97 \<le> n \<and> n \<le> 122 then Some (n - 97 + 10) else None)"

text \<open>
  The digit loop of \<open>ParseUint\<close> for 64 bits; the two overflow tests of the code together say that
  the next value does not fit. An overflow is reported before the remaining bytes are read.
\<close>

fun uint_loop :: "nat \<Rightarrow> string \<Rightarrow> nat \<Rightarrow> num_error + nat" where
  "uint_loop b [] n = Inr n"
| "uint_loop b (c # cs) n =
     (if c = CHR ''_'' then uint_loop b cs n
      else (case digit_of c of
              None \<Rightarrow> Inl ErrSyntax
            | Some d \<Rightarrow>
                if b \<le> d then Inl ErrSyntax
                else if 2 ^ 64 \<le> n * b + d then Inl ErrRange
                else uint_loop b cs (n * b + d)))"

definition split_base :: "string \<Rightarrow> nat \<times> string" where
  "split_base s =
     (case s of
        c # p # d # ds \<Rightarrow>
          if c \<noteq> CHR ''0'' then (10, s)
          else if lower_byte p = CHR ''b'' then (2, d # ds)
          else if lower_byte p = CHR ''o'' then (8, d # ds)
          else if lower_byte p = CHR ''x'' then (16, d # ds)
          else (8, tl s)
      | c # ds \<Rightarrow> if c \<noteq> CHR ''0'' then (10, s) else (8, ds)
      | [] \<Rightarrow> (10, s))"

text \<open>\<open>underscoreOK\<close>: what was read before is a digit, an underscore, something else, or nothing.\<close>

datatype seen = SeenDigit | SeenUnderscore | SeenOther | SeenNothing

fun underscore_loop :: "bool \<Rightarrow> string \<Rightarrow> seen \<Rightarrow> bool" where
  "underscore_loop hex [] i = (i \<noteq> SeenUnderscore)"
| "underscore_loop hex (c # cs) i =
     (if is_digit c \<or> hex \<and> lower_byte c \<in> set ''abcdef'' then underscore_loop hex cs SeenDigit
      else if c = CHR ''_'' then (if i \<noteq> SeenDigit then False else underscore_loop hex cs SeenUnderscore)
      else if i = SeenUnderscore then False else underscore_loop hex cs SeenOther)"

definition underscoreOK :: "string \<Rightarrow> bool" where
  "underscoreOK s0 =
     (let s = (case s0 of [] \<Rightarrow> [] | c # cs \<Rightarrow> if c = CHR ''-'' \<or> c = CHR ''+'' then cs else s0) in
      case s of
        c # p # ds \<Rightarrow>
          if c = CHR ''0'' \<and> lower_byte p \<in> set ''box''
          then underscore_loop (lower_byte p = CHR ''x'') ds SeenDigit
          else underscore_loop False s SeenNothing
      | _ \<Rightarrow> underscore_loop False s SeenNothing)"

definition ParseUint :: "string \<Rightarrow> num_error + nat" where
  "ParseUint s =
     (if s = [] then Inl ErrSyntax
      else (case split_base s of (b, ds) \<Rightarrow>
        (case uint_loop b ds 0 of
           Inl e \<Rightarrow> Inl e
         | Inr n \<Rightarrow> if CHR ''_'' \<in> set ds \<and> \<not> underscoreOK s then Inl ErrSyntax else Inr n)))"

definition int64_of :: "bool \<Rightarrow> nat \<Rightarrow> num_error + int64" where
  "int64_of neg un =
     (if \<not> neg \<and> 2 ^ 63 \<le> un then Inl ErrRange
      else if neg \<and> 2 ^ 63 < un then Inl ErrRange
      else Inr (if neg then - of_nat un else of_nat un))"

definition ParseInt :: "string \<Rightarrow> num_error + int64" where
  "ParseInt s0 =
     (case s0 of
        [] \<Rightarrow> Inl ErrSyntax
      | c # cs \<Rightarrow>
          (let neg = (c = CHR ''-''); s = (if c = CHR ''+'' \<or> c = CHR ''-'' then cs else s0) in
           case ParseUint s of Inl e \<Rightarrow> Inl e | Inr un \<Rightarrow> int64_of neg un))"

definition ParseBool :: "string \<Rightarrow> bool option" where
  "ParseBool s =
     (if s \<in> set [''1'', ''t'', ''T'', ''true'', ''TRUE'', ''True''] then Some True
      else if s \<in> set [''0'', ''f'', ''F'', ''false'', ''FALSE'', ''False''] then Some False
      else None)"

subsection \<open>Flags\<close>

text \<open>\<open>Value.Set\<close> of a flag, on the record of the variables; \<open>numError\<close> shortens its errors.\<close>

record 'v flag_def =
  fl_name :: string
  fl_is_bool :: bool
  fl_set :: "string \<Rightarrow> 'v \<Rightarrow> gerr + 'v"

fun numError :: "num_error \<Rightarrow> gerr" where
  "numError ErrSyntax = Plain ''parse error''"
| "numError ErrRange = Plain ''value out of range''"

definition flag_Var :: "string \<Rightarrow> bool \<Rightarrow> (string \<Rightarrow> gerr + 'a) \<Rightarrow> ('a \<Rightarrow> 'v \<Rightarrow> 'v) \<Rightarrow> 'v flag_def" where
  "flag_Var name isBool parse store =
     \<lparr>fl_name = name, fl_is_bool = isBool,
      fl_set = (\<lambda>s v. case parse s of Inl e \<Rightarrow> Inl e | Inr x \<Rightarrow> Inr (store x v))\<rparr>"

definition read_string :: "string \<Rightarrow> gerr + string" where
  "read_string s = Inr s"

definition read_bool :: "string \<Rightarrow> gerr + bool" where
  "read_bool s = (case ParseBool s of None \<Rightarrow> Inl (Plain ''parse error'') | Some b \<Rightarrow> Inr b)"

definition read_int64 :: "string \<Rightarrow> gerr + int64" where
  "read_int64 s = (case ParseInt s of Inl e \<Rightarrow> Inl (numError e) | Inr i \<Rightarrow> Inr i)"

definition flag_String :: "string \<Rightarrow> (string \<Rightarrow> 'v \<Rightarrow> 'v) \<Rightarrow> 'v flag_def" where
  "flag_String name store = flag_Var name False read_string store"

definition flag_Bool :: "string \<Rightarrow> (bool \<Rightarrow> 'v \<Rightarrow> 'v) \<Rightarrow> 'v flag_def" where
  "flag_Bool name store = flag_Var name True read_bool store"

text \<open>\<open>Int\<close> and \<open>Int64\<close> agree on a platform whose \<open>int\<close> has 64 bits.\<close>

definition flag_Int :: "string \<Rightarrow> (int64 \<Rightarrow> 'v \<Rightarrow> 'v) \<Rightarrow> 'v flag_def" where
  "flag_Int name store = flag_Var name False read_int64 store"

subsection \<open>Parsing the command line\<close>

text \<open>
  \<open>parseOne\<close> has seen a flag, stops at the first argument that is none, or fails; \<open>OneHelp\<close> is
  \<open>ErrHelp\<close>, for a flag \<open>h\<close> or \<open>help\<close> that the program does not define.
\<close>

datatype 'v one_flag = OneSeen 'v "string list" | OneStop "string list" | OneHelp | OneFail gerr

definition cut_value :: "string \<Rightarrow> string \<times> string option" where
  "cut_value name =
     (case name of
        [] \<Rightarrow> (name, None)
      | c # cs \<Rightarrow>
          if CHR ''='' \<in> set cs
          then (c # takeWhile (\<lambda>x. x \<noteq> CHR ''='') cs, Some (tl (dropWhile (\<lambda>x. x \<noteq> CHR ''='') cs)))
          else (name, None))"

definition set_bool :: "'v flag_def \<Rightarrow> string option \<Rightarrow> string list \<Rightarrow> 'v \<Rightarrow> 'v one_flag" where
  "set_bool fl value args v =
     (case value of
        Some s \<Rightarrow> (case fl_set fl s v of
            Inl e \<Rightarrow> OneFail (Plain (''invalid boolean value '' @ quote s @ '' for -'' @ fl_name fl @ '': '' @ error_text e))
          | Inr v' \<Rightarrow> OneSeen v' args)
      | None \<Rightarrow> (case fl_set fl ''true'' v of
            Inl e \<Rightarrow> OneFail (Plain (''invalid boolean flag '' @ fl_name fl @ '': '' @ error_text e))
          | Inr v' \<Rightarrow> OneSeen v' args))"

definition set_value :: "'v flag_def \<Rightarrow> string \<Rightarrow> string list \<Rightarrow> 'v \<Rightarrow> 'v one_flag" where
  "set_value fl s args v =
     (case fl_set fl s v of
        Inl e \<Rightarrow> OneFail (Plain (''invalid value '' @ quote s @ '' for flag -'' @ fl_name fl @ '': '' @ error_text e))
      | Inr v' \<Rightarrow> OneSeen v' args)"

definition parse_named :: "'v flag_def list \<Rightarrow> string \<Rightarrow> string list \<Rightarrow> 'v \<Rightarrow> 'v one_flag" where
  "parse_named formal name0 args v =
     (case cut_value name0 of (name, value) \<Rightarrow>
      (case find (\<lambda>fl. fl_name fl = name) formal of
         None \<Rightarrow> if name = ''help'' \<or> name = ''h'' then OneHelp
                 else OneFail (Plain (''flag provided but not defined: -'' @ name))
       | Some fl \<Rightarrow>
           if fl_is_bool fl then set_bool fl value args v
           else (case value of
                   Some s \<Rightarrow> set_value fl s args v
                 | None \<Rightarrow> (case args of
                      [] \<Rightarrow> OneFail (Plain (''flag needs an argument: -'' @ name))
                    | s # rest \<Rightarrow> set_value fl s rest v))))"

definition parseOne :: "'v flag_def list \<Rightarrow> string list \<Rightarrow> 'v \<Rightarrow> 'v one_flag" where
  "parseOne formal args v =
     (case args of
        [] \<Rightarrow> OneStop []
      | s # rest \<Rightarrow>
          if length s < 2 \<or> hd s \<noteq> CHR ''-'' then OneStop args
          else if s = ''--'' then OneStop rest
          else (let name = (if s ! 1 = CHR ''-'' then drop 2 s else drop 1 s) in
            if name = [] \<or> hd name = CHR ''-'' \<or> hd name = CHR ''=''
            then OneFail (Plain (''bad flag syntax: '' @ s))
            else parse_named formal name rest v))"

text \<open>\<open>Parse\<close> ends with the variables and the arguments that are left, with \<open>ErrHelp\<close>, or with an error.\<close>

datatype 'v parsed = Parsed 'v "string list" | HelpRequested | ParseFailed gerr

lemma parse_named_shorter:
  "parse_named formal name args v = OneSeen v' rest \<Longrightarrow> length rest \<le> length args"
  by (auto simp: parse_named_def set_bool_def set_value_def
      split: prod.splits option.splits if_splits sum.splits list.splits)

lemma parseOne_shorter:
  "parseOne formal args v = OneSeen v' rest \<Longrightarrow> length rest < length args"
  by (auto simp: parseOne_def Let_def dest!: parse_named_shorter split: list.splits if_splits)

function flag_Parse :: "'v flag_def list \<Rightarrow> string list \<Rightarrow> 'v \<Rightarrow> 'v parsed" where
  "flag_Parse formal args v =
     (case parseOne formal args v of
        OneSeen v' rest \<Rightarrow> flag_Parse formal rest v'
      | OneStop rest \<Rightarrow> Parsed v rest
      | OneHelp \<Rightarrow> HelpRequested
      | OneFail e \<Rightarrow> ParseFailed e)"
  by pat_completeness auto
termination
  by (relation "measure (\<lambda>(formal, args, v). length args)") (auto dest: parseOne_shorter)

declare flag_Parse.simps [simp del]

text \<open>\<open>FlagSet.Parse\<close> under the error handling of the set; \<open>ErrHelp\<close> is the error of a help request.\<close>

datatype error_handling = ContinueOnError | ExitOnError | PanicOnError

datatype 'v flag_outcome = FlagsOk 'v "string list" | FlagsErr gerr | FlagsExit nat | FlagsPanic gerr

definition ErrHelp :: gerr where "ErrHelp = Plain ''flag: help requested''"

definition FlagSet_Parse ::
  "error_handling \<Rightarrow> 'v flag_def list \<Rightarrow> string list \<Rightarrow> 'v \<Rightarrow> 'v flag_outcome" where
  "FlagSet_Parse h formal arguments v =
     (case flag_Parse formal arguments v of
        Parsed v' rest \<Rightarrow> FlagsOk v' rest
      | HelpRequested \<Rightarrow>
          (case h of ContinueOnError \<Rightarrow> FlagsErr ErrHelp | ExitOnError \<Rightarrow> FlagsExit 0
           | PanicOnError \<Rightarrow> FlagsPanic ErrHelp)
      | ParseFailed e \<Rightarrow>
          (case h of ContinueOnError \<Rightarrow> FlagsErr e | ExitOnError \<Rightarrow> FlagsExit 2
           | PanicOnError \<Rightarrow> FlagsPanic e))"

text \<open>How a program ends: with the exit code of its process, by a signal, or never.\<close>

datatype run_end = Exit nat | KilledBy nat | Forever

subsection \<open>Decimal numbers are read back\<close>

lemma digit_of_digit [simp]: "n < 10 \<Longrightarrow> digit_of (digit n) = Some n"
  by (simp add: digit_of_def Let_def)

lemma digit_not_underscore [simp]: "n < 10 \<Longrightarrow> digit n \<noteq> CHR ''_''"
  using is_digit_digit [of n] by (auto simp: is_digit_def)

lemma uint_loop_append:
  "uint_loop b (xs @ ys) n = (case uint_loop b xs n of Inl e \<Rightarrow> Inl e | Inr m \<Rightarrow> uint_loop b ys m)"
  by (induction b xs n rule: uint_loop.induct) (auto split: option.split)

lemma uint_loop_nat_dec: "n < 2 ^ 64 \<Longrightarrow> uint_loop 10 (nat_dec n) 0 = Inr n"
proof (induction n rule: nat_dec.induct)
  case (1 n)
  show ?case
  proof (cases "n < 10")
    case True
    with 1 show ?thesis by (simp add: nat_dec.simps [of n])
  next
    case False
    with 1 have "uint_loop 10 (nat_dec (n div 10)) 0 = Inr (n div 10)" by simp
    moreover have "n div 10 * 10 + n mod 10 = n" by simp
    ultimately show ?thesis using False 1(2)
      by (simp add: nat_dec.simps [of n] uint_loop_append)
  qed
qed

lemma digit_0_iff: "n < 10 \<Longrightarrow> digit n = CHR ''0'' \<longleftrightarrow> n = 0"
  by (erule less_10_cases) (simp_all add: digit_def)

lemma nat_dec_hd: "0 < n \<Longrightarrow> hd (nat_dec n) \<noteq> CHR ''0''"
proof (induction n rule: nat_dec.induct)
  case (1 n)
  show ?case
  proof (cases "n < 10")
    case True
    with 1 show ?thesis by (simp add: nat_dec.simps [of n] digit_0_iff)
  next
    case False
    then have "0 < n div 10" by simp
    with 1 False show ?thesis by (simp add: nat_dec.simps [of n])
  qed
qed

lemma nat_dec_0: "nat_dec 0 = ''0''"
  by (simp add: nat_dec.simps [of 0] digit_def)

lemma split_base_nat_dec:
  assumes "0 < n"
  shows "split_base (nat_dec n) = (10, nat_dec n)"
proof -
  obtain c cs where "nat_dec n = c # cs" using nat_dec_Nil by (metis list.exhaust)
  moreover from this have "c \<noteq> CHR ''0''" using nat_dec_hd [OF assms] by simp
  ultimately show ?thesis by (auto simp: split_base_def split: list.split)
qed

lemma ParseUint_nat_dec:
  assumes "n < 2 ^ 64"
  shows "ParseUint (nat_dec n) = Inr n"
proof (cases "n = 0")
  case True
  then show ?thesis by (simp add: nat_dec_0 ParseUint_def split_base_def)
next
  case False
  have "CHR ''_'' \<notin> set (nat_dec n)"
    using nat_dec_digits [of "CHR ''_''" n] by (auto simp: is_digit_def)
  with False assms show ?thesis by (simp add: ParseUint_def split_base_nat_dec uint_loop_nat_dec)
qed

lemma ParseInt_int_dec: "ParseInt (int_dec (sint (w :: int64))) = Inr w"
proof -
  have range: "- (2 ^ 63) \<le> sint w" "sint w < 2 ^ 63"
    using sint_range_size [of w] by (simp_all add: word_size)
  show ?thesis
  proof (cases "sint w < 0")
    case True
    let ?n = "nat (- sint w)"
    have "- of_nat ?n = w" using True by simp
    moreover have "?n \<le> 2 ^ 63" using range True by simp
    ultimately show ?thesis using True
      by (simp add: ParseInt_def int_dec_def Let_def ParseUint_nat_dec int64_of_def)
  next
    case False
    let ?n = "nat (sint w)"
    obtain c cs where c: "nat_dec ?n = c # cs" using nat_dec_Nil by (metis list.exhaust)
    then have "is_digit c" using nat_dec_digits [of c ?n] by simp
    then have "c \<noteq> CHR ''-''" "c \<noteq> CHR ''+''" by (auto simp: is_digit_def)
    moreover have "ParseUint (c # cs) = Inr ?n"
      using range False ParseUint_nat_dec [of ?n] c by simp
    moreover have "of_nat ?n = w" using False by simp
    ultimately show ?thesis using False range c
      by (simp add: ParseInt_def int_dec_def Let_def int64_of_def)
  qed
qed

subsection \<open>Passing a value on the command line\<close>

text \<open>
  A type of values that a program can write as an argument and the flags read back: the argument
  after the name of a flag sets its variable, whatever the text of the value looks like.
\<close>

definition flag_name :: "string \<Rightarrow> bool" where
  "flag_name name \<longleftrightarrow> name \<noteq> [] \<and> hd name \<noteq> CHR ''-'' \<and> CHR ''='' \<notin> set name"

lemma flag_Parse_Nil: "flag_Parse formal [] v = Parsed v []"
  by (simp add: flag_Parse.simps [of formal "[]"] parseOne_def)

lemma flag_Parse_value:
  assumes "flag_name name" "find (\<lambda>fl. fl_name fl = name) formal = Some (flag_Var name False readv store)"
    and "readv s = Inr x"
  shows "flag_Parse formal ((CHR ''-'' # name) # s # rest) v = flag_Parse formal rest (store x v)"
proof -
  obtain c cs where name: "name = c # cs" "c \<noteq> CHR ''-''" "c \<noteq> CHR ''=''" "CHR ''='' \<notin> set cs"
    using assms(1) by (cases name) (auto simp: flag_name_def)
  then have "parseOne formal ((CHR ''-'' # name) # s # rest) v = OneSeen (store x v) rest"
    using assms(2,3)
    by (simp add: parseOne_def parse_named_def cut_value_def set_value_def flag_Var_def)
  then show ?thesis by (subst flag_Parse.simps) simp
qed

lemma find_flag:
  assumes "distinct (map fl_name formal)" "fl \<in> set formal"
  shows "find (\<lambda>f. fl_name f = fl_name fl) (formal @ extra) = Some fl"
  using assms by (induction formal) auto

definition opt_arg :: "bool \<Rightarrow> string \<Rightarrow> string \<Rightarrow> string list" where
  "opt_arg given name s = (if given then [CHR ''-'' # name, s] else [])"

lemma opt_arg_simps [simp]:
  "opt_arg True name s = [CHR ''-'' # name, s]" "opt_arg False name s = []"
  by (simp_all add: opt_arg_def)

locale flag_codec =
  fixes readv :: "string \<Rightarrow> gerr + 'a" and shown :: "'a \<Rightarrow> string"
  assumes readv_shown: "readv (shown x) = Inr x"
begin

lemma pass_value:
  assumes "flag_name name" "find (\<lambda>fl. fl_name fl = name) formal = Some (flag_Var name False readv store)"
  shows "flag_Parse formal (opt_arg given name (shown x) @ rest) v =
    flag_Parse formal rest (if given then store x v else v)"
  using flag_Parse_value [OF assms readv_shown] by (simp add: opt_arg_def)

lemma shown_inj: "shown x = shown y \<longleftrightarrow> x = y"
  by (metis readv_shown sum.inject(2))

end

interpretation strings: flag_codec read_string "\<lambda>s. s"
  by unfold_locales (simp add: read_string_def)

interpretation ints: flag_codec read_int64 "\<lambda>w. int_dec (sint w)"
  by unfold_locales (simp add: read_int64_def ParseInt_int_dec)


end
