(* ===== verification/TlsConfig.thy ===== *)
theory TlsConfig
  imports GoErrors "HOL-Library.List_Lexorder" "HOL-Library.Char_ord"
begin

text \<open>
  Package \<open>pkg/internal/tlsconfig\<close>: the TLS settings given as strings. The slices returned are
  \<open>None\<close> for nil. The table \<open>tls.CipherSuites()\<close> depends on the Go release that builds the
  sidecar and is an argument, a list of names with their identifiers.
\<close>

subsection \<open>Tables\<close>

definition VersionTLS12 :: uint16 where "VersionTLS12 = 0x0303"
definition VersionTLS13 :: uint16 where "VersionTLS13 = 0x0304"

definition tlsVersions :: "(string \<times> uint16) list" where
  "tlsVersions = [(''VersionTLS12'', VersionTLS12), (''VersionTLS13'', VersionTLS13)]"

definition tlsCurves :: "(string \<times> uint16) list" where
  "tlsCurves =
     [(''X25519'', 29), (''CurveP256'', 23), (''CurveP384'', 24), (''CurveP521'', 25),
      (''X25519MLKEM768'', 4588)]"

subsection \<open>Operations\<close>

definition ParseTLSVersion :: "string \<Rightarrow> gerr + uint16" where
  "ParseTLSVersion s =
     (if s = '''' then Inr 0
      else (case map_of tlsVersions s of
              None \<Rightarrow> Inl (Plain (''unsupported TLS version '' @ quote s @
                        '', must be one of: VersionTLS12, VersionTLS13''))
            | Some v \<Rightarrow> Inr v))"

text \<open>The map filled by the first loop of \<open>ParseCipherSuites\<close>: a later entry wins.\<close>

definition cipherSuiteMap :: "(string \<times> uint16) list \<Rightarrow> string \<rightharpoonup> uint16" where
  "cipherSuiteMap suites = foldl (\<lambda>m (name, cid). m(name \<mapsto> cid)) Map.empty suites"

definition cipher_error :: "string \<Rightarrow> gerr" where
  "cipher_error name = Plain (''unsupported or insecure cipher suite: '' @ quote name)"

fun cipher_loop :: "(string \<rightharpoonup> uint16) \<Rightarrow> string list \<Rightarrow> uint16 list \<Rightarrow> gerr + uint16 list" where
  "cipher_loop m [] suites = Inr suites"
| "cipher_loop m (raw # names) suites =
     (let name = trim_space raw in
      if name = '''' then cipher_loop m names suites
      else (case m name of
              None \<Rightarrow> Inl (cipher_error name)
            | Some cid \<Rightarrow> cipher_loop m names (suites @ [cid])))"

definition ParseCipherSuites ::
  "(string \<times> uint16) list \<Rightarrow> string \<Rightarrow> gerr + uint16 list option" where
  "ParseCipherSuites table csv =
     (if csv = '''' then Inr None
      else (case cipher_loop (cipherSuiteMap table) (split_on (CHR '','') csv) [] of
              Inl e \<Rightarrow> Inl e
            | Inr suites \<Rightarrow> if length suites = 0 then Inr None else Inr (Some suites)))"

definition supportedCurveNames :: string where
  "supportedCurveNames = join_with '', '' (sort (map fst tlsCurves))"

definition curve_error :: "string \<Rightarrow> gerr" where
  "curve_error name =
     Plain (''unsupported curve '' @ quote name @ '', must be one of: '' @ supportedCurveNames)"

fun curve_loop :: "string list \<Rightarrow> uint16 list \<Rightarrow> gerr + uint16 list" where
  "curve_loop [] curves = Inr curves"
| "curve_loop (raw # names) curves =
     (let name = trim_space raw in
      if name = '''' then curve_loop names curves
      else (case map_of tlsCurves name of
              None \<Rightarrow> Inl (curve_error name)
            | Some cid \<Rightarrow> curve_loop names (curves @ [cid])))"

definition ParseCurvePreferences :: "string \<Rightarrow> gerr + uint16 list option" where
  "ParseCurvePreferences csv =
     (if csv = '''' then Inr None
      else (case curve_loop (split_on (CHR '','') csv) [] of
              Inl e \<Rightarrow> Inl e
            | Inr curves \<Rightarrow> if length curves = 0 then Inr None else Inr (Some curves)))"

subsection \<open>Comma separated lists of names: the shared contract\<close>

text \<open>The entries of a list: the fields between commas, trimmed, the empty ones skipped.\<close>

definition csv_names :: "string \<Rightarrow> string list" where
  "csv_names csv = filter (\<lambda>n. n \<noteq> '''') (map trim_space (split_on (CHR '','') csv))"

lemma csv_names_Nil [simp]: "csv_names '''' = []"
proof -
  have "trim_left_runes rs [] = []" for rs
    by (rule trim_left_runes_id) (auto simp: has_prefix_def)
  then show ?thesis by (simp add: csv_names_def trim_space_def)
qed

locale csv_parser =
  fixes lookup :: "string \<Rightarrow> 'id option"
    and bad :: "string \<Rightarrow> gerr"
    and loop :: "string list \<Rightarrow> 'id list \<Rightarrow> gerr + 'id list"
    and parse :: "string \<Rightarrow> gerr + 'id list option"
  assumes loop_Nil: "loop [] acc = Inr acc"
    and loop_Cons: "loop (raw # names) acc =
          (let name = trim_space raw in
           if name = '''' then loop names acc
           else (case lookup name of None \<Rightarrow> Inl (bad name) | Some i \<Rightarrow> loop names (acc @ [i])))"
    and parse_eq: "parse csv =
          (if csv = '''' then Inr None
           else (case loop (split_on (CHR '','') csv) [] of
                   Inl e \<Rightarrow> Inl e | Inr ids \<Rightarrow> if length ids = 0 then Inr None else Inr (Some ids)))"
begin

lemma loop_spec:
  "loop names acc =
     (let ns = filter (\<lambda>n. n \<noteq> '''') (map trim_space names) in
      case find (\<lambda>n. lookup n = None) ns of
        Some n \<Rightarrow> Inl (bad n)
      | None \<Rightarrow> Inr (acc @ map (the \<circ> lookup) ns))"
  by (induction names arbitrary: acc)
    (auto simp: loop_Nil loop_Cons Let_def split: option.splits)

lemma parse_spec:
  "parse csv =
     (case find (\<lambda>n. lookup n = None) (csv_names csv) of
        Some n \<Rightarrow> Inl (bad n)
      | None \<Rightarrow> Inr (if csv_names csv = [] then None else Some (map (the \<circ> lookup) (csv_names csv))))"
proof (cases "csv = ''''")
  case True
  then show ?thesis by (simp add: parse_eq)
next
  case False
  then show ?thesis
    unfolding parse_eq loop_spec Let_def csv_names_def [symmetric]
    by (auto split: option.split)
qed

lemma parse_ok_iff:
  "parse csv = Inr r \<longleftrightarrow>
     (\<forall>n \<in> set (csv_names csv). lookup n \<noteq> None) \<and>
     r = (if csv_names csv = [] then None else Some (map (the \<circ> lookup) (csv_names csv)))"
  by (auto simp: parse_spec find_None_iff find_Some_iff split: option.split)

lemma parse_error_iff:
  "parse csv = Inl e \<longleftrightarrow>
     (\<exists>i < length (csv_names csv). lookup (csv_names csv ! i) = None \<and>
        (\<forall>j<i. lookup (csv_names csv ! j) \<noteq> None) \<and> e = bad (csv_names csv ! i))"
  (is "?l \<longleftrightarrow> ?r")
proof
  assume ?l
  then show ?r by (auto simp: parse_spec find_Some_iff split: option.splits) 
next
  assume ?r
  then obtain i where "i < length (csv_names csv)" "lookup (csv_names csv ! i) = None"
    "\<forall>j<i. lookup (csv_names csv ! j) \<noteq> None" and e: "e = bad (csv_names csv ! i)"
    by blast
  then have "find (\<lambda>n. lookup n = None) (csv_names csv) = Some (csv_names csv ! i)"
    by (auto simp: find_Some_iff)
  with e show ?l by (simp add: parse_spec)
qed

lemma parse_never_empty: "parse csv \<noteq> Inr (Some [])"
  by (auto simp: parse_ok_iff)

end

interpretation ciphers: csv_parser
  "cipherSuiteMap table" cipher_error "cipher_loop (cipherSuiteMap table)" "ParseCipherSuites table"
  for table
  by unfold_locales (simp_all add: ParseCipherSuites_def)

interpretation curves: csv_parser
  "map_of tlsCurves" curve_error curve_loop ParseCurvePreferences
  by unfold_locales (simp_all add: ParseCurvePreferences_def)

subsection \<open>Lists written by an operator\<close>

text \<open>A name that survives the parser unchanged: not empty, no comma, printable at both ends.\<close>

definition plain_name :: "string \<Rightarrow> bool" where
  "plain_name n \<longleftrightarrow> n \<noteq> [] \<and> CHR '','' \<notin> set n \<and> graphic (hd n) \<and> graphic (last n)"

lemma split_join:
  "ns \<noteq> [] \<Longrightarrow> \<forall>n \<in> set ns. c \<notin> set n \<Longrightarrow> split_on c (join_with [c] ns) = ns"
proof (induction ns)
  case Nil
  then show ?case by simp
next
  case (Cons n ns)
  then show ?case by (cases ns) (simp_all add: split_on_no_sep split_on_append)
qed

lemma csv_names_join:
  assumes "\<forall>n \<in> set ns. plain_name n"
  shows "csv_names (join_with '','' ns) = ns"
proof (cases "ns = []")
  case True
  then show ?thesis by simp
next
  case False
  have "map trim_space ns = ns"
    using assms by (induction ns) (auto simp: plain_name_def trim_space_graphic)
  moreover have "filter (\<lambda>n. n \<noteq> []) ns = ns"
    using assms by (induction ns) (auto simp: plain_name_def)
  ultimately show ?thesis
    using assms False by (simp add: csv_names_def split_join plain_name_def)
qed

lemma csv_names_single: "plain_name n \<Longrightarrow> csv_names n = [n]"
  using csv_names_join [of "[n]"] by simp

subsection \<open>Properties\<close>

text \<open>
  \<open>ParseTLSVersion\<close> returns 0 (Go's default) exactly for the empty string, the numbers of
  TLS 1.2 and TLS 1.3 exactly for their two names, and an error for every other string; the
  two versions compare as numbers, which \<open>NewServer\<close> relies on.
\<close>
theorem ParseTLSVersion_spec:
  "(ParseTLSVersion s = Inr v \<longleftrightarrow>
      (s = '''' \<and> v = 0) \<or> (s = ''VersionTLS12'' \<and> v = VersionTLS12) \<or>
      (s = ''VersionTLS13'' \<and> v = VersionTLS13)) \<and>
   ((\<exists>e. ParseTLSVersion s = Inl e) \<longleftrightarrow> s \<notin> {'''', ''VersionTLS12'', ''VersionTLS13''}) \<and>
   0 < VersionTLS12 \<and> VersionTLS12 < VersionTLS13"
  by (auto simp: ParseTLSVersion_def tlsVersions_def VersionTLS12_def VersionTLS13_def)

text \<open>
  \<open>ParseCipherSuites\<close> succeeds exactly when every entry of the list is in the table of safe
  suites; it then returns the identifiers in the order written, or nil when no entry is left,
  never an empty non-nil slice; otherwise the error names the first unknown entry.
\<close>
theorem ParseCipherSuites_spec:
  "(ParseCipherSuites table csv = Inr r \<longleftrightarrow>
      set (csv_names csv) \<subseteq> dom (cipherSuiteMap table) \<and>
      r = (if csv_names csv = [] then None
           else Some (map (the \<circ> cipherSuiteMap table) (csv_names csv)))) \<and>
   ParseCipherSuites table csv \<noteq> Inr (Some []) \<and>
   (ParseCipherSuites table csv = Inl e \<longleftrightarrow>
      (\<exists>i < length (csv_names csv). cipherSuiteMap table (csv_names csv ! i) = None \<and>
         (\<forall>j<i. cipherSuiteMap table (csv_names csv ! j) \<noteq> None) \<and>
         e = cipher_error (csv_names csv ! i)))"
  using ciphers.parse_ok_iff [of table csv r] ciphers.parse_never_empty [of table csv]
    ciphers.parse_error_iff [of table csv e]
  by (auto simp: dom_def subset_eq)

theorem ParseCipherSuites_spec_witness:
  "ParseCipherSuites [(''A'', 1)] ''A,A'' = Inr (Some [1, 1]) \<and>
   ParseCipherSuites [(''A'', 1)] ''A,B'' = Inl (cipher_error ''B'')"
proof -
  have "csv_names ''A,A'' = [''A'', ''A'']" "csv_names ''A,B'' = [''A'', ''B'']"
    using csv_names_join [of "[''A'', ''A'']"] csv_names_join [of "[''A'', ''B'']"]
    by (simp_all add: plain_name_def graphic_def)
  then show ?thesis
    using ParseCipherSuites_spec [of "[(''A'', 1)]" "''A,A''" "Some [1, 1]"]
      ParseCipherSuites_spec [of "[(''A'', 1)]" "''A,B''" None "cipher_error ''B''"]
    by (auto simp: cipherSuiteMap_def intro: exI [of _ "1::nat"])
qed

text \<open>
  Writing the names of supported curves with commas between them and parsing the result
  gives back their identifiers in the same order.
\<close>
theorem ParseCurvePreferences_join:
  assumes "set ns \<subseteq> set (map fst tlsCurves)"
  shows "ParseCurvePreferences (join_with '','' ns) =
    Inr (if ns = [] then None else Some (map (the \<circ> map_of tlsCurves) ns))"
proof -
  have "\<forall>n \<in> set (map fst tlsCurves). plain_name n \<and> map_of tlsCurves n \<noteq> None"
    by (simp add: tlsCurves_def plain_name_def graphic_def)
  with assms have "\<forall>n \<in> set ns. plain_name n" "\<forall>n \<in> set ns. map_of tlsCurves n \<noteq> None"
    by blast+
  then show ?thesis by (subst curves.parse_ok_iff) (simp add: csv_names_join)
qed

theorem ParseCurvePreferences_join_witness:
  "ParseCurvePreferences ''X25519,CurveP256'' = Inr (Some [29, 23])"
  using ParseCurvePreferences_join [of "[''X25519'', ''CurveP256'']"]
  by (simp add: tlsCurves_def)

end
