(* ===== verification/Api.thy ===== *)
theory Api
  imports GoErrors
begin

text \<open>
  The messages of \<open>pkg/api/schema.pb.go\<close>, the CSI messages the sidecar exchanges with the driver,
  the \<open>SnapshotMetadataService\<close> custom resource of \<open>client/apis\<close>, and of the Kubernetes objects the
  fields that the sources read. A Go pointer that may be nil is an \<open>option\<close>, a Go map a HOL map.
\<close>

subsection \<open>SnapshotMetadata messages\<close>

record block_metadata =
  byte_offset :: int64
  size_bytes :: int64

text \<open>The enumeration is open: any \<open>int32\<close> can arrive on the wire.\<close>

type_synonym block_metadata_type = int32

definition BlockMetadataType_UNKNOWN :: block_metadata_type where "BlockMetadataType_UNKNOWN = 0"
definition BlockMetadataType_FIXED_LENGTH :: block_metadata_type where
  "BlockMetadataType_FIXED_LENGTH = 1"
definition BlockMetadataType_VARIABLE_LENGTH :: block_metadata_type where
  "BlockMetadataType_VARIABLE_LENGTH = 2"

definition BlockMetadataType_name :: "(int32 \<times> string) list" where
  "BlockMetadataType_name =
     [(0, ''UNKNOWN''), (1, ''FIXED_LENGTH''), (2, ''VARIABLE_LENGTH'')]"

text \<open>\<open>BlockMetadataType.String\<close>: the name, or the number in decimal.\<close>

definition BlockMetadataType_String :: "block_metadata_type \<Rightarrow> string" where
  "BlockMetadataType_String x =
     (case map_of BlockMetadataType_name x of Some n \<Rightarrow> n | None \<Rightarrow> int_dec (sint x))"

record get_metadata_allocated_request =
  gma_security_token :: string
  gma_namespace :: string
  gma_snapshot_name :: string
  gma_starting_offset :: int64
  gma_max_results :: int32

record get_metadata_delta_request =
  gmd_security_token :: string
  gmd_namespace :: string
  gmd_base_snapshot_id :: string
  gmd_target_snapshot_name :: string
  gmd_starting_offset :: int64
  gmd_max_results :: int32

text \<open>
  \<open>GetMetadataAllocatedResponse\<close> and \<open>GetMetadataDeltaResponse\<close> of both services have the same
  three fields. The sidecar's messages and the driver's are kept apart.
\<close>

record metadata_response =
  block_metadata_type :: block_metadata_type
  volume_capacity_bytes :: int64
  block_metadata :: "block_metadata list"

record csi_block_metadata =
  csi_byte_offset :: int64
  csi_size_bytes :: int64

record csi_metadata_response =
  csi_block_metadata_type :: int32
  csi_volume_capacity_bytes :: int64
  csi_block_metadata :: "csi_block_metadata list"

record csi_allocated_request =
  csia_snapshot_id :: string
  csia_starting_offset :: int64
  csia_max_results :: int32
  csia_secrets :: "string \<rightharpoonup> string"

record csi_delta_request =
  csid_base_snapshot_id :: string
  csid_target_snapshot_id :: string
  csid_starting_offset :: int64
  csid_max_results :: int32
  csid_secrets :: "string \<rightharpoonup> string"

text \<open>What \<open>Recv\<close> on a stream returns: a message, \<open>io.EOF\<close>, or another error.\<close>

datatype 'm recv = RecvMsg 'm | RecvEOF | RecvErr gerr

subsection \<open>Custom resource SnapshotMetadataService\<close>

record sms_spec =
  sms_audience :: string
  sms_address :: string
  sms_caCert :: "8 word list"
  sms_requireBaseSnapshotForDelta :: "bool option"

record sms_cr =
  sms_name :: string
  sms_spec :: sms_spec

text \<open>\<open>register.go\<close>: the group and version of the resource.\<close>

record group_version_resource =
  gvr_group :: string
  gvr_version :: string
  gvr_resource :: string

definition GroupName :: string where "GroupName = ''cbt.storage.k8s.io''"

definition WithResource :: "string \<Rightarrow> group_version_resource" where
  "WithResource resource = \<lparr>gvr_group = GroupName, gvr_version = ''v1beta1'', gvr_resource = resource\<rparr>"

subsection \<open>Kubernetes objects\<close>

record user_info =
  ui_username :: string
  ui_uid :: string
  ui_groups :: "string list"
  ui_extra :: "string \<rightharpoonup> string list"

record token_review_status =
  trs_authenticated :: bool
  trs_user :: user_info
  trs_audiences :: "string list"
  trs_error :: string

record resource_attributes =
  ra_verb :: string
  ra_namespace :: string
  ra_group :: string
  ra_version :: string
  ra_resource :: string

record sar_spec =
  sar_resource :: resource_attributes
  sar_user :: string
  sar_groups :: "string list"
  sar_extra :: "string \<rightharpoonup> string list"
  sar_uid :: string

record sar_status =
  sars_allowed :: bool
  sars_denied :: bool
  sars_reason :: string

record volume_snapshot_status =
  vss_bound_content_name :: "string option"
  vss_ready_to_use :: "bool option"

record volume_snapshot =
  vs_namespace :: string
  vs_name :: string
  vs_uid :: string
  vs_source_pvc :: "string option"
  vs_class_name :: "string option"
  vs_status :: "volume_snapshot_status option"

record object_reference =
  or_namespace :: string
  or_name :: string
  or_uid :: string

record volume_snapshot_content_status =
  vscs_snapshot_handle :: "string option"
  vscs_ready_to_use :: "bool option"

record volume_snapshot_content =
  vsc_name :: string
  vsc_driver :: string
  vsc_ref :: object_reference
  vsc_status :: "volume_snapshot_content_status option"

record volume_snapshot_class =
  vsclass_name :: string
  vsclass_driver :: string
  vsclass_annotations :: "(string \<rightharpoonup> string) option"
  vsclass_parameters :: "string \<rightharpoonup> string"

record secret_reference =
  sr_namespace :: string
  sr_name :: string

subsection \<open>Facts on the enumeration\<close>

lemma BlockMetadataType_String_known [simp]:
  "BlockMetadataType_String BlockMetadataType_UNKNOWN = ''UNKNOWN''"
  "BlockMetadataType_String BlockMetadataType_FIXED_LENGTH = ''FIXED_LENGTH''"
  "BlockMetadataType_String BlockMetadataType_VARIABLE_LENGTH = ''VARIABLE_LENGTH''"
  by (simp_all add: BlockMetadataType_String_def BlockMetadataType_name_def
      BlockMetadataType_UNKNOWN_def BlockMetadataType_FIXED_LENGTH_def
      BlockMetadataType_VARIABLE_LENGTH_def)

lemma BlockMetadataType_String_inj:
  "BlockMetadataType_String x = BlockMetadataType_String y \<longleftrightarrow> x = y"
proof -
  have u: "CHR ''U'' \<notin> set (int_dec i)" "CHR ''F'' \<notin> set (int_dec i)" "CHR ''V'' \<notin> set (int_dec i)" for i
    by (auto dest!: int_dec_chars simp: is_digit_def)
  have "int_dec i \<noteq> ''UNKNOWN''" "int_dec i \<noteq> ''FIXED_LENGTH''" "int_dec i \<noteq> ''VARIABLE_LENGTH''" for i
    using u [of i] by (metis list.set_intros(1))+
  moreover have "sint x = sint y \<longleftrightarrow> x = y"
    using signed_word_eqI by blast
  ultimately show ?thesis
    by (auto simp: BlockMetadataType_String_def BlockMetadataType_name_def dest: sym split: if_splits)
qed

end
