(* ===== verification/Runtime.thy ===== *)
theory Runtime
  imports TlsConfig Api
begin

text \<open>
  Package \<open>pkg/internal/runtime\<close>: the arguments of the sidecar and their validation, the creation
  of the clients, the wait for the CSI driver, and the metric labels. The Kubernetes client
  packages and the connection to the driver are arguments (\<open>runtime_env\<close>), with what they
  return; \<open>csi-lib-utils/rpc\<close> is modelled where its own logic decides the outcome.
\<close>

subsection \<open>Arguments\<close>

text \<open>\<open>time.Duration\<close> is an \<open>int64\<close> of nanoseconds; a \<open>float32\<close> is its IEEE 754 bits.\<close>

record runtime_args =
  CSIAddress :: string
  CSITimeout :: int64
  KubeAPIBurst :: int64
  KubeAPIQPS :: float32
  Kubeconfig :: string
  GRPCPort :: int64
  TLSCertFile :: string
  TLSKeyFile :: string
  HttpEndpoint :: string
  MetricsPath :: string
  Audience :: string
  TLSMinVersion :: string
  TLSCipherSuites :: string
  TLSCurvePreferences :: string

definition runtime_args_Validate ::
  "(string \<times> uint16) list \<Rightarrow> runtime_args \<Rightarrow> gerr option" where
  "runtime_args_Validate table args =
     (if CSIAddress args = '''' then Some (Plain ''CSIAddress is required'')
      else if CSITimeout args = 0 then Some (Plain ''CSITimeout is required'')
      else if sint (GRPCPort args) \<le> 0 then Some (Plain ''invalid GRPCPort'')
      else if TLSCertFile args = '''' then Some (Plain ''missing TLSCertFile'')
      else if TLSKeyFile args = '''' then Some (Plain ''missing TLSKeyFile'')
      else (case ParseTLSVersion (TLSMinVersion args) of
              Inl err \<Rightarrow> Some err
            | Inr _ \<Rightarrow>
           (case ParseCipherSuites table (TLSCipherSuites args) of
              Inl err \<Rightarrow> Some err
            | Inr _ \<Rightarrow>
           (case ParseCurvePreferences (TLSCurvePreferences args) of
              Inl err \<Rightarrow> Some err
            | Inr _ \<Rightarrow> None))))"

subsection \<open>Environment\<close>

text \<open>
  The client configuration, the clients and the connection are values of the packages that
  create them. Each call is recorded, so that the order of the calls can be stated.
\<close>

record 'host rest_config =
  rc_host :: 'host
  rc_qps :: float32
  rc_burst :: int64

text \<open>
  The option that \<open>csiConnect\<close> passes to \<open>connection.Connect\<close>: a callback for the loss of the
  connection. The one it passes ends the process, whatever the process does at that time: it logs
  an error and exits with a code.
\<close>

datatype loss_callback = ExitOnConnectionLoss

datatype connect_option = OnConnectionLoss loss_callback

fun loss_exit :: "loss_callback \<Rightarrow> nat \<times> string" where
  "loss_exit ExitOnConnectionLoss = (1, ''Lost connection to CSI driver, exiting'')"

datatype runtime_event =
  EvBuildConfig string
| EvInClusterConfig
| EvNewKubeClient
| EvNewCBTClient
| EvNewSnapshotClient
| EvConnect string "connect_option list"
| EvGetPluginInfo
| EvProbe
| EvGetPluginCapabilities

datatype csi_capability = CapService int32 | CapOther

definition SNAPSHOT_METADATA_SERVICE :: int32 where "SNAPSHOT_METADATA_SERVICE = 4"

record ('host, 'kube, 'cbt, 'snap, 'conn) runtime_env =
  env_BuildConfigFromFlags :: "string \<Rightarrow> gerr + 'host rest_config"
  env_InClusterConfig :: "gerr + 'host rest_config"
  env_NewKube :: "'host rest_config \<Rightarrow> gerr + 'kube"
  env_NewCBT :: "'host rest_config \<Rightarrow> gerr + 'cbt"
  env_NewSnapshot :: "'host rest_config \<Rightarrow> gerr + 'snap"
  env_Connect :: "string \<Rightarrow> connect_option list \<Rightarrow> gerr + 'conn"
  env_GetPluginInfo :: "'conn \<Rightarrow> gerr + string"
  env_Probe :: "'conn \<Rightarrow> nat \<Rightarrow> gerr + bool"
  env_GetPluginCapabilities :: "'conn \<Rightarrow> gerr + csi_capability option list"

record ('host, 'kube, 'cbt, 'snap, 'conn) runtime =
  rt_args :: "runtime_args"
  rt_config :: "'host rest_config option"
  rt_kube :: "'kube option"
  rt_cbt :: "'cbt option"
  rt_snapshot :: "'snap option"
  rt_csi_conn :: "'conn option"
  rt_on_loss :: "loss_callback option"
  rt_driver_name :: string
  rt_events :: "runtime_event list"

definition rt_emit ::
  "runtime_event \<Rightarrow> (('host, 'kube, 'cbt, 'snap, 'conn) runtime, unit) io" where
  "rt_emit e = (\<lambda>rt. (Inr (), rt\<lparr>rt_events := rt_events rt @ [e]\<rparr>))"

definition rt_modify :: "('s \<Rightarrow> 's) \<Rightarrow> ('s, unit) io" where
  "rt_modify f = (\<lambda>s. (Inr (), f s))"

text \<open>A call that wraps its error with \<open>fmt.Errorf(pre + ": %w", err)\<close>.\<close>

definition rt_call :: "runtime_event \<Rightarrow> gerr + 'a \<Rightarrow> string \<Rightarrow>
    (('host, 'kube, 'cbt, 'snap, 'conn) runtime, 'a) io" where
  "rt_call ev r pre =
     io_then (rt_emit ev) (io_catch (lift_sum r) (\<lambda>err. io_fail (errorf_w pre err [])))"

subsection \<open>Initialisation\<close>

definition kubeConnect ::
  "('host, 'kube, 'cbt, 'snap, 'conn) runtime_env \<Rightarrow> string \<Rightarrow> float32 \<Rightarrow> int64 \<Rightarrow>
   (('host, 'kube, 'cbt, 'snap, 'conn) runtime, unit) io" where
  "kubeConnect env kubeconfig qps burst =
     io_bind
       (if kubeconfig \<noteq> ''''
        then rt_call (EvBuildConfig kubeconfig) (env_BuildConfigFromFlags env kubeconfig)
               ''error in kubeconfig: ''
        else rt_call EvInClusterConfig (env_InClusterConfig env)
               ''error in cluster configuration: '')
       (\<lambda>config0.
        let config = config0\<lparr>rc_qps := qps, rc_burst := burst\<rparr> in
        io_bind (rt_call EvNewKubeClient (env_NewKube env config)
                   ''error creating kubernetes client: '')
          (\<lambda>kubeClient.
        io_bind (rt_call EvNewCBTClient (env_NewCBT env config)
                   ''error creating kubernetes client for cbt resources: '')
          (\<lambda>cbtClient.
        io_bind (rt_call EvNewSnapshotClient (env_NewSnapshot env config)
                   ''error creating kubernetes client for snapshot resources: '')
          (\<lambda>snapshotClient.
        rt_modify (\<lambda>rt. rt\<lparr>rt_config := Some config, rt_kube := Some kubeClient,
                      rt_cbt := Some cbtClient, rt_snapshot := Some snapshotClient\<rparr>)))))"

text \<open>The connection keeps the callback, which the field \<open>rt_on_loss\<close> records.\<close>

definition csiConnect ::
  "('host, 'kube, 'cbt, 'snap, 'conn) runtime_env \<Rightarrow> string \<Rightarrow>
   (('host, 'kube, 'cbt, 'snap, 'conn) runtime, unit) io" where
  "csiConnect env csiAddress =
     (let callback = ExitOnConnectionLoss in
      io_bind (rt_call (EvConnect csiAddress [OnConnectionLoss callback])
                 (env_Connect env csiAddress [OnConnectionLoss callback])
                 ''error connecting to CSI driver: '')
        (\<lambda>csiConn. rt_modify (\<lambda>rt. rt\<lparr>rt_csi_conn := Some csiConn, rt_on_loss := Some callback\<rparr>)))"

text \<open>\<open>csirpc.GetDriverName\<close>: an empty name is an error.\<close>

definition GetDriverName :: "gerr + string \<Rightarrow> gerr + string" where
  "GetDriverName rsp =
     (case rsp of Inl err \<Rightarrow> Inl err
      | Inr name \<Rightarrow> if name = '''' then Inl (Plain ''driver name is empty'') else Inr name)"

definition runtime_initialize ::
  "('host, 'kube, 'cbt, 'snap, 'conn) runtime_env \<Rightarrow>
   (('host, 'kube, 'cbt, 'snap, 'conn) runtime, unit) io" where
  "runtime_initialize env = (\<lambda>rt0.
     io_then (kubeConnect env (Kubeconfig (rt_args rt0)) (KubeAPIQPS (rt_args rt0))
                (KubeAPIBurst (rt_args rt0)))
    (io_then (csiConnect env (CSIAddress (rt_args rt0)))
    (io_bind (\<lambda>rt. deref (rt_csi_conn rt) rt) (\<lambda>conn.
     io_bind (rt_call EvGetPluginInfo (GetDriverName (env_GetPluginInfo env conn))
                ''error getting CSI driver name: '')
       (\<lambda>driverName. rt_modify (\<lambda>rt. rt\<lparr>rt_driver_name := driverName\<rparr>))))) rt0)"

definition runtime_New ::
  "(string \<times> uint16) list \<Rightarrow> ('host, 'kube, 'cbt, 'snap, 'conn) runtime_env \<Rightarrow>
   runtime_args \<Rightarrow> exn + ('host, 'kube, 'cbt, 'snap, 'conn) runtime" where
  "runtime_New table env args =
     (case runtime_args_Validate table args of
        Some err \<Rightarrow> Inl (Failed err)
      | None \<Rightarrow>
          (case runtime_initialize env
                  \<lparr>rt_args = args, rt_config = None, rt_kube = None, rt_cbt = None,
                   rt_snapshot = None, rt_csi_conn = None, rt_on_loss = None, rt_driver_name = '''',
                   rt_events = []\<rparr> of
             (Inl x, _) \<Rightarrow> Inl x
           | (Inr _, rt) \<Rightarrow> Inr rt))"

subsection \<open>Waiting for the CSI driver\<close>

text \<open>
  \<open>csirpc.ProbeForever\<close> probes until the driver is ready. A probe that times out or reports not
  ready is tried again, any other error ends the wait; with the background context nothing
  else does, so the wait may not end, which is \<open>None\<close>. The counter numbers the probes.
\<close>

partial_function (option) ProbeForever ::
  "(nat \<Rightarrow> gerr + bool) \<Rightarrow> nat \<Rightarrow> (gerr option \<times> nat) option" where
  "ProbeForever probe n =
     (case probe n of
        Inl err \<Rightarrow>
          (if \<not> snd (FromError (Some err)) \<or>
              status_code (fst (FromError (Some err))) \<noteq> DeadlineExceeded
           then Some (Some (Plain (''CSI driver probe failed: '' @ error_text err)), Suc n)
           else ProbeForever probe (Suc n))
      | Inr ready \<Rightarrow> if ready then Some (None, Suc n) else ProbeForever probe (Suc n))"

text \<open>\<open>csirpc.GetPluginCapabilities\<close>: the set of the service capabilities, nil entries skipped.\<close>

fun plugin_capability_set :: "csi_capability option list \<Rightarrow> int32 set" where
  "plugin_capability_set [] = {}"
| "plugin_capability_set (None # cs) = plugin_capability_set cs"
| "plugin_capability_set (Some CapOther # cs) = plugin_capability_set cs"
| "plugin_capability_set (Some (CapService t) # cs) = insert t (plugin_capability_set cs)"

text \<open>\<open>None\<close> when the wait does not end. Without a connection the first RPC dereferences nil.\<close>

definition WaitTillCSIDriverIsValidated ::
  "('host, 'kube, 'cbt, 'snap, 'conn) runtime_env \<Rightarrow>
   ('host, 'kube, 'cbt, 'snap, 'conn) runtime \<Rightarrow> (exn + unit) option" where
  "WaitTillCSIDriverIsValidated env rt =
     (case rt_csi_conn rt of
        None \<Rightarrow> Some (Inl (Panicked ''nil pointer dereference''))
      | Some conn \<Rightarrow>
     (case ProbeForever (env_Probe env conn) 0 of
        None \<Rightarrow> None
      | Some (Some err, _) \<Rightarrow>
          Some (Inl (Failed (errorf_w ''error waiting for CSI driver to become ready: '' err [])))
      | Some (None, _) \<Rightarrow>
          (case env_GetPluginCapabilities env conn of
             Inl err \<Rightarrow>
               Some (Inl (Failed (errorf_w ''error getting CSI plugin capabilities: '' err [])))
           | Inr caps \<Rightarrow>
               if SNAPSHOT_METADATA_SERVICE \<in> plugin_capability_set caps then Some (Inr ())
               else Some (Inl (Failed (Plain (''CSI driver '' @ rt_driver_name rt @
                      '' does not support the SNAPSHOT_METADATA_SERVICE'')))))))"

subsection \<open>Metrics\<close>

definition LabelTargetSnapshotName :: string where "LabelTargetSnapshotName = ''target_snapshot''"
definition LabelBaseSnapshotID :: string where "LabelBaseSnapshotID = ''base_snapshot''"
definition SubSystem :: string where "SubSystem = ''snapshot_metadata_controller''"
definition MetadataAllocatedOperationName :: string where
  "MetadataAllocatedOperationName = ''MetadataAllocated''"
definition MetadataDeltaOperationName :: string where
  "MetadataDeltaOperationName = ''MetadataDelta''"

text \<open>
  The metrics manager knows the label names it was created with. \<open>WithLabelValues\<close> refuses an
  unknown name; the record then has the values of the labels in the order of their names.
\<close>

record metric_record =
  mr_operation :: string
  mr_error :: "gerr option"
  mr_labels :: "string \<rightharpoonup> string"

definition csiConnect_label_names :: "string list" where
  "csiConnect_label_names = [LabelTargetSnapshotName, LabelBaseSnapshotID]"

definition WithLabelValues :: "string list \<Rightarrow> (string \<rightharpoonup> string) \<Rightarrow> (string \<rightharpoonup> string) option" where
  "WithLabelValues names labels = (if dom labels \<subseteq> set names then Some labels else None)"

definition RecordMetricsWithLabels ::
  "string list \<Rightarrow> (string \<rightharpoonup> string) \<Rightarrow> string \<Rightarrow> gerr option \<Rightarrow> metric_record option" where
  "RecordMetricsWithLabels names opLabel opName opErr =
     (case WithLabelValues names opLabel of
        None \<Rightarrow> None
      | Some labels \<Rightarrow> Some \<lparr>mr_operation = opName, mr_error = opErr, mr_labels = labels\<rparr>)"

subsection \<open>Lemmas\<close>

lemma runtime_args_Validate_None_iff:
  "runtime_args_Validate table args = None \<longleftrightarrow>
     CSIAddress args \<noteq> '''' \<and> CSITimeout args \<noteq> 0 \<and> 0 < sint (GRPCPort args) \<and>
     TLSCertFile args \<noteq> '''' \<and> TLSKeyFile args \<noteq> '''' \<and>
     (\<exists>v. ParseTLSVersion (TLSMinVersion args) = Inr v) \<and>
     (\<exists>cs. ParseCipherSuites table (TLSCipherSuites args) = Inr cs) \<and>
     (\<exists>cs. ParseCurvePreferences (TLSCurvePreferences args) = Inr cs)"
  by (auto simp: runtime_args_Validate_def split: sum.splits)

lemmas rt_defs = rt_call_def rt_emit_def rt_modify_def

lemma rt_modify_run [io_run]: "rt_modify f s = (Inr (), f s)"
  by (simp add: rt_modify_def)

lemma rt_call_run [io_run]:
  "rt_call ev r pre rt =
     (case r of Inl err \<Rightarrow> Inl (Failed (errorf_w pre err [])) | Inr x \<Rightarrow> Inr x,
      rt\<lparr>rt_events := rt_events rt @ [ev]\<rparr>)"
  by (simp add: rt_defs io_run split: sum.split)

text \<open>The answer of a probe that ends the wait.\<close>

fun probe_decides :: "gerr + bool \<Rightarrow> bool" where
  "probe_decides (Inr ready) \<longleftrightarrow> ready"
| "probe_decides (Inl err) \<longleftrightarrow>
     \<not> snd (FromError (Some err)) \<or> status_code (fst (FromError (Some err))) \<noteq> DeadlineExceeded"

definition probe_result :: "gerr + bool \<Rightarrow> gerr option" where
  "probe_result r =
     (case r of Inr _ \<Rightarrow> None
      | Inl err \<Rightarrow> Some (Plain (''CSI driver probe failed: '' @ error_text err)))"

lemma ProbeForever_step:
  "ProbeForever probe n =
     (if probe_decides (probe n) then Some (probe_result (probe n), Suc n)
      else ProbeForever probe (Suc n))"
  by (subst ProbeForever.simps) (auto simp: probe_result_def split: sum.splits)

lemma ProbeForever_first:
  assumes "probe_decides (probe m)" "n \<le> m" "\<forall>k. n \<le> k \<and> k < m \<longrightarrow> \<not> probe_decides (probe k)"
  shows "ProbeForever probe n = Some (probe_result (probe m), Suc m)"
  using assms(2,3)
proof (induction "m - n" arbitrary: n)
  case 0
  then show ?case using assms(1) by (subst ProbeForever_step) simp
next
  case (Suc d)
  then have "n < m" "\<not> probe_decides (probe n)" by auto
  moreover have "ProbeForever probe (Suc n) = Some (probe_result (probe m), Suc m)"
    using Suc by (intro Suc.hyps) auto
  ultimately show ?case by (subst ProbeForever_step) simp
qed

lemma ProbeForever_returns:
  assumes "ProbeForever probe n = Some r"
  shows "\<exists>m\<ge>n. probe_decides (probe m)"
proof (rule ProbeForever.raw_induct [where P = "\<lambda>probe n r. \<exists>m\<ge>n. probe_decides (probe m)", OF _ assms])
  fix f :: "(nat \<Rightarrow> gerr + bool) \<Rightarrow> nat \<Rightarrow> (gerr option \<times> nat) option" and probe n r
  assume IH: "\<And>probe n r. f probe n = Some r \<Longrightarrow> \<exists>m\<ge>n. probe_decides (probe m)"
    and eq: "(case probe n of
        Inl err \<Rightarrow>
          (if \<not> snd (FromError (Some err)) \<or>
              status_code (fst (FromError (Some err))) \<noteq> DeadlineExceeded
           then Some (Some (Plain (''CSI driver probe failed: '' @ error_text err)), Suc n)
           else f probe (Suc n))
      | Inr ready \<Rightarrow> if ready then Some (None, Suc n) else f probe (Suc n)) = Some r"
  show "\<exists>m\<ge>n. probe_decides (probe m)"
  proof (cases "probe_decides (probe n)")
    case True
    then show ?thesis by blast
  next
    case False
    with eq have "f probe (Suc n) = Some r" by (auto split: sum.splits if_splits)
    from IH [OF this] show ?thesis using Suc_leD by blast
  qed
qed

lemma plugin_capability_set_iff:
  "t \<in> plugin_capability_set cs \<longleftrightarrow> Some (CapService t) \<in> set cs"
  by (induction cs rule: plugin_capability_set.induct) auto

lemma kubeConnect_cases:
  assumes "kubeConnect env kubeconfig qps burst rt = (r, rt')"
  obtains (error) e where "r = Inl (Failed e)"
  | (ok) cfg k c sn where "r = Inr ()"
      "rt' = rt\<lparr>rt_events := rt_events rt @
           [if kubeconfig \<noteq> '''' then EvBuildConfig kubeconfig else EvInClusterConfig,
            EvNewKubeClient, EvNewCBTClient, EvNewSnapshotClient],
         rt_config := Some (cfg\<lparr>rc_qps := qps, rc_burst := burst\<rparr>), rt_kube := Some k,
         rt_cbt := Some c, rt_snapshot := Some sn\<rparr>"
      "(if kubeconfig \<noteq> '''' then env_BuildConfigFromFlags env kubeconfig
        else env_InClusterConfig env) = Inr cfg"
  using assms by (auto simp: kubeConnect_def io_run Let_def split: sum.splits if_splits)

lemma csiConnect_cases:
  assumes "csiConnect env addr rt = (r, rt')"
  obtains (error) e where "r = Inl (Failed e)"
  | (ok) conn where "r = Inr ()" "env_Connect env addr [OnConnectionLoss ExitOnConnectionLoss] = Inr conn"
      "rt' = rt\<lparr>rt_events := rt_events rt @ [EvConnect addr [OnConnectionLoss ExitOnConnectionLoss]],
         rt_csi_conn := Some conn, rt_on_loss := Some ExitOnConnectionLoss\<rparr>"
  using assms by (auto simp: csiConnect_def io_run Let_def split: sum.splits)

lemma GetDriverName_Inr [simp]: "GetDriverName r = Inr n \<longleftrightarrow> r = Inr n \<and> n \<noteq> ''''"
  by (auto simp: GetDriverName_def split: sum.splits)

definition connect_events :: "runtime_args \<Rightarrow> runtime_event list" where
  "connect_events args =
     [if Kubeconfig args \<noteq> '''' then EvBuildConfig (Kubeconfig args) else EvInClusterConfig,
      EvNewKubeClient, EvNewCBTClient, EvNewSnapshotClient,
      EvConnect (CSIAddress args) [OnConnectionLoss ExitOnConnectionLoss], EvGetPluginInfo]"

lemma runtime_initialize_cases:
  assumes "runtime_initialize env rt = (r, rt')"
  obtains (error) e where "r = Inl (Failed e)"
  | (ok) "r = Inr ()" "rt_args rt' = rt_args rt" "rt_driver_name rt' \<noteq> ''''"
      "rt_events rt' = rt_events rt @ connect_events (rt_args rt)"
      "\<exists>cfg. rt_config rt' = Some cfg \<and> rc_qps cfg = KubeAPIQPS (rt_args rt) \<and>
         rc_burst cfg = KubeAPIBurst (rt_args rt)"
      "rt_kube rt' \<noteq> None" "rt_cbt rt' \<noteq> None" "rt_snapshot rt' \<noteq> None"
      "rt_csi_conn rt' \<noteq> None" "rt_on_loss rt' = Some ExitOnConnectionLoss"
proof -
  obtain r1 rt1 where k: "kubeConnect env (Kubeconfig (rt_args rt)) (KubeAPIQPS (rt_args rt))
      (KubeAPIBurst (rt_args rt)) rt = (r1, rt1)" by fastforce
  from k show ?thesis
  proof (cases rule: kubeConnect_cases)
    case (error e)
    with k assms have "r = Inl (Failed e)" by (simp add: runtime_initialize_def io_run)
    then show ?thesis by (rule that(1))
  next
    case (ok cfg kc cc sn)
    note k1 = ok
    obtain r2 rt2 where c: "csiConnect env (CSIAddress (rt_args rt)) rt1 = (r2, rt2)" by fastforce
    from c show ?thesis
    proof (cases rule: csiConnect_cases)
      case (error e)
      with k k1 c assms have "r = Inl (Failed e)" by (simp add: runtime_initialize_def io_run)
      then show ?thesis by (rule that(1))
    next
      case (ok conn)
      show ?thesis
      proof (cases "GetDriverName (env_GetPluginInfo env conn)")
        case (Inl e)
        with k k1 c ok assms have "r = Inl (Failed (errorf_w ''error getting CSI driver name: '' e []))"
          by (simp add: runtime_initialize_def io_run)
        then show ?thesis by (rule that(1))
      next
        case (Inr name)
        with k k1 c ok assms have "r = Inr ()" "rt' = rt\<lparr>
            rt_config := Some (cfg\<lparr>rc_qps := KubeAPIQPS (rt_args rt), rc_burst := KubeAPIBurst (rt_args rt)\<rparr>),
            rt_kube := Some kc, rt_cbt := Some cc, rt_snapshot := Some sn, rt_csi_conn := Some conn,
            rt_on_loss := Some ExitOnConnectionLoss, rt_driver_name := name, rt_events := rt_events rt @ connect_events (rt_args rt)\<rparr>"
          by (auto simp: runtime_initialize_def io_run connect_events_def)
        with Inr show ?thesis by (intro that(2)) simp_all
      qed
    qed
  qed
qed

subsection \<open>Properties\<close>

text \<open>
  \<open>Args.Validate\<close> accepts exactly the arguments with a CSI address, a non-zero CSI timeout,
  a positive port, a certificate and a key file, a known TLS version or none, and only known
  cipher suites and curves.
\<close>
theorem runtime_args_Validate_spec:
  "runtime_args_Validate table args = None \<longleftrightarrow>
     CSIAddress args \<noteq> '''' \<and> CSITimeout args \<noteq> 0 \<and> 0 < sint (GRPCPort args) \<and>
     TLSCertFile args \<noteq> '''' \<and> TLSKeyFile args \<noteq> '''' \<and>
     TLSMinVersion args \<in> {'''', ''VersionTLS12'', ''VersionTLS13''} \<and>
     set (csv_names (TLSCipherSuites args)) \<subseteq> dom (cipherSuiteMap table) \<and>
     set (csv_names (TLSCurvePreferences args)) \<subseteq> set (map fst tlsCurves)"
proof -
  have v: "(\<exists>v. ParseTLSVersion s = Inr v) \<longleftrightarrow> s \<in> {'''', ''VersionTLS12'', ''VersionTLS13''}" for s
    by (auto simp: ParseTLSVersion_def tlsVersions_def split: option.splits if_splits)
  show ?thesis
    unfolding runtime_args_Validate_None_iff v ciphers.parse_ok_iff curves.parse_ok_iff
    by (auto simp: dom_def map_of_eq_None_iff image_iff subset_eq)
qed

text \<open>
  \<open>New\<close> never panics. When it returns a runtime, the arguments were valid, all four clients
  and the driver's non-empty name are set, the client configuration has the QPS and burst of
  the arguments, and the calls were made in the fixed order: configuration, the three
  Kubernetes clients, the connection to the driver, \<open>GetPluginInfo\<close>. The loss of that connection
  will end the process.
\<close>
theorem runtime_New_spec:
  "runtime_New table env args \<noteq> Inl (Panicked m) \<and>
   (\<forall>rt. runtime_New table env args = Inr rt \<longrightarrow>
      runtime_args_Validate table args = None \<and> rt_args rt = args \<and>
      rt_driver_name rt \<noteq> '''' \<and> rt_events rt = connect_events args \<and>
      (\<exists>cfg. rt_config rt = Some cfg \<and> rc_qps cfg = KubeAPIQPS args \<and>
         rc_burst cfg = KubeAPIBurst args) \<and>
      rt_kube rt \<noteq> None \<and> rt_cbt rt \<noteq> None \<and> rt_snapshot rt \<noteq> None \<and> rt_csi_conn rt \<noteq> None \<and>
      rt_on_loss rt = Some ExitOnConnectionLoss)"
proof -
  let ?rt0 = "\<lparr>rt_args = args, rt_config = None, rt_kube = None, rt_cbt = None,
      rt_snapshot = None, rt_csi_conn = None, rt_on_loss = None, rt_driver_name = '''', rt_events = []\<rparr>"
  obtain r rt where i: "runtime_initialize env ?rt0 = (r, rt)" by fastforce
  show ?thesis
    using i by (cases rule: runtime_initialize_cases [OF i])
      (auto simp: runtime_New_def split: option.splits)
qed

definition runtime_env_example ::
  "(nat, unit, unit, unit, unit) runtime_env" where
  "runtime_env_example =
     \<lparr>env_BuildConfigFromFlags = (\<lambda>f. Inl (Plain ''no file'')),
      env_InClusterConfig = Inr \<lparr>rc_host = 1, rc_qps = 0, rc_burst = 0\<rparr>,
      env_NewKube = (\<lambda>c. Inr ()), env_NewCBT = (\<lambda>c. Inr ()), env_NewSnapshot = (\<lambda>c. Inr ()),
      env_Connect = (\<lambda>a os. Inr ()), env_GetPluginInfo = (\<lambda>c. Inr ''driver''),
      env_Probe = (\<lambda>c n. if n < 2 then Inl (StatusErr DeadlineExceeded ''slow'') else Inr True),
      env_GetPluginCapabilities = (\<lambda>c. Inr [None, Some (CapService 4)])\<rparr>"

definition runtime_args_example :: "runtime_args" where
  "runtime_args_example =
     \<lparr>CSIAddress = ''/run/csi/socket'', CSITimeout = 60000000000, KubeAPIBurst = 10,
      KubeAPIQPS = 0x40A00000, Kubeconfig = '''', GRPCPort = 50051, TLSCertFile = ''cert'',
      TLSKeyFile = ''key'', HttpEndpoint = '':8080'', MetricsPath = ''/metrics'',
      Audience = '''', TLSMinVersion = ''VersionTLS13'', TLSCipherSuites = '''',
      TLSCurvePreferences = ''X25519''\<rparr>"

lemma runtime_args_example_valid: "runtime_args_Validate [] runtime_args_example = None"
  by (simp add: runtime_args_Validate_None_iff runtime_args_example_def ParseTLSVersion_def
      tlsVersions_def ciphers.parse_ok_iff curves.parse_ok_iff csv_names_single plain_name_def
      graphic_def tlsCurves_def)

lemma runtime_New_example:
  "runtime_New [] runtime_env_example runtime_args_example = Inr
     \<lparr>rt_args = runtime_args_example,
      rt_config = Some \<lparr>rc_host = 1, rc_qps = 0x40A00000, rc_burst = 10\<rparr>,
      rt_kube = Some (), rt_cbt = Some (), rt_snapshot = Some (), rt_csi_conn = Some (),
      rt_on_loss = Some ExitOnConnectionLoss, rt_driver_name = ''driver'', rt_events = connect_events runtime_args_example\<rparr>"
  unfolding runtime_New_def runtime_args_example_valid
  by (simp add: runtime_initialize_def kubeConnect_def csiConnect_def io_run
      Let_def runtime_env_example_def runtime_args_example_def GetDriverName_def connect_events_def)

theorem runtime_New_spec_witness:
  "\<exists>rt. runtime_New [] runtime_env_example runtime_args_example = Inr rt \<and>
     rt_events rt = [EvInClusterConfig, EvNewKubeClient, EvNewCBTClient, EvNewSnapshotClient,
       EvConnect ''/run/csi/socket'' [OnConnectionLoss ExitOnConnectionLoss], EvGetPluginInfo]"
proof -
  obtain rt where rt: "runtime_New [] runtime_env_example runtime_args_example = Inr rt"
    using runtime_New_example by blast
  then have "rt_events rt = connect_events runtime_args_example"
    using runtime_New_spec [of "[]" runtime_env_example runtime_args_example] by blast
  with rt show ?thesis by (auto simp: connect_events_def runtime_args_example_def)
qed

text \<open>
  C40. The wait for the CSI driver ends exactly when some probe is decisive: the driver is ready
  or fails with an error other than a timeout. It succeeds exactly when the first decisive
  probe says ready and the driver lists the snapshot metadata capability.
\<close>
theorem WaitTillCSIDriverIsValidated_spec:
  assumes "rt_csi_conn rt = Some conn"
  shows "(WaitTillCSIDriverIsValidated env rt \<noteq> None \<longleftrightarrow>
            (\<exists>n. probe_decides (env_Probe env conn n))) \<and>
         (WaitTillCSIDriverIsValidated env rt = Some (Inr ()) \<longleftrightarrow>
            (\<exists>n. env_Probe env conn n = Inr True \<and>
               (\<forall>k<n. \<not> probe_decides (env_Probe env conn k))) \<and>
            (\<exists>caps. env_GetPluginCapabilities env conn = Inr caps \<and>
               Some (CapService SNAPSHOT_METADATA_SERVICE) \<in> set caps))"
proof (cases "\<exists>n. probe_decides (env_Probe env conn n)")
  case False
  then have "ProbeForever (env_Probe env conn) 0 = None"
    using ProbeForever_returns [of "env_Probe env conn" 0]
    by (cases "ProbeForever (env_Probe env conn) 0") auto
  with False assms show ?thesis
    by (auto simp: WaitTillCSIDriverIsValidated_def) (metis probe_decides.simps(1))
next
  case True
  define n where "n = (LEAST n. probe_decides (env_Probe env conn n))"
  have n: "probe_decides (env_Probe env conn n)" "\<forall>k<n. \<not> probe_decides (env_Probe env conn k)"
    using True by (auto simp: n_def intro: LeastI dest: not_less_Least)
  have first: "env_Probe env conn m = Inr True \<and> (\<forall>k<m. \<not> probe_decides (env_Probe env conn k))
      \<longleftrightarrow> m = n \<and> env_Probe env conn n = Inr True" for m
    using n by (metis linorder_neqE_nat probe_decides.simps(1))
  have "ProbeForever (env_Probe env conn) 0 = Some (probe_result (env_Probe env conn n), Suc n)"
    using n by (intro ProbeForever_first) auto
  with True assms first n(1) show ?thesis
    by (auto simp: WaitTillCSIDriverIsValidated_def probe_result_def plugin_capability_set_iff
        split: sum.splits)
qed

lemma wait_example:
  assumes "rt_csi_conn rt = Some ()"
  shows "WaitTillCSIDriverIsValidated runtime_env_example rt = Some (Inr ())"
proof -
  have "ProbeForever (env_Probe runtime_env_example ()) 0 =
      Some (probe_result (env_Probe runtime_env_example () 2), Suc 2)"
    by (rule ProbeForever_first) (auto simp: runtime_env_example_def FromError_def)
  with assms show ?thesis
    by (simp add: WaitTillCSIDriverIsValidated_def probe_result_def plugin_capability_set_iff
        runtime_env_example_def SNAPSHOT_METADATA_SERVICE_def)
qed

definition runtime_example :: "(nat, unit, unit, unit, unit) runtime" where
  "runtime_example =
     \<lparr>rt_args = runtime_args_example, rt_config = None, rt_kube = Some (), rt_cbt = Some (),
      rt_snapshot = Some (), rt_csi_conn = Some (),
      rt_on_loss = Some ExitOnConnectionLoss, rt_driver_name = ''driver'', rt_events = []\<rparr>"

theorem WaitTillCSIDriverIsValidated_spec_witness:
  "WaitTillCSIDriverIsValidated runtime_env_example runtime_example = Some (Inr ())"
proof -
  have c: "rt_csi_conn runtime_example = Some ()" by (simp add: runtime_example_def)
  have p: "env_Probe runtime_env_example () 2 = Inr True \<and>
      (\<forall>k<2. \<not> probe_decides (env_Probe runtime_env_example () k))"
    by (simp add: runtime_env_example_def FromError_def)
  have "\<exists>caps. env_GetPluginCapabilities runtime_env_example () = Inr caps \<and>
      Some (CapService SNAPSHOT_METADATA_SERVICE) \<in> set caps"
    by (simp add: runtime_env_example_def SNAPSHOT_METADATA_SERVICE_def)
  with p show ?thesis
    using WaitTillCSIDriverIsValidated_spec [OF c, of runtime_env_example] by blast
qed

end
