(* ===== verification/Health.thy ===== *)
theory Health
  imports GoErrors
begin

text \<open>
  The health service \<open>google.golang.org/grpc/health\<close> (vendored) that holds the serving status of
  the sidecar. Watch subscriptions are not modelled: they read the status and change nothing.
\<close>

datatype serving_status = UNKNOWN | SERVING | NOT_SERVING | SERVICE_UNKNOWN

record health_server =
  hs_shutdown :: bool
  hs_statusMap :: "string \<rightharpoonup> serving_status"

definition health_NewServer :: health_server where
  "health_NewServer = \<lparr>hs_shutdown = False, hs_statusMap = ['''' \<mapsto> SERVING]\<rparr>"

definition health_Check :: "health_server \<Rightarrow> string \<Rightarrow> gerr + serving_status" where
  "health_Check h service =
     (case hs_statusMap h service of
        Some st \<Rightarrow> Inr st
      | None \<Rightarrow> Inl (StatusErr NotFound ''unknown service''))"

definition health_SetServingStatus ::
  "string \<Rightarrow> serving_status \<Rightarrow> health_server \<Rightarrow> health_server" where
  "health_SetServingStatus service st h =
     (if hs_shutdown h then h else h\<lparr>hs_statusMap := (hs_statusMap h)(service \<mapsto> st)\<rparr>)"

definition health_Shutdown :: "health_server \<Rightarrow> health_server" where
  "health_Shutdown h =
     h\<lparr>hs_shutdown := True, hs_statusMap := map_option (\<lambda>_. NOT_SERVING) \<circ> hs_statusMap h\<rparr>"

text \<open>\<open>newHealthServer\<close> of \<open>health.go\<close>.\<close>

definition newHealthServer :: health_server where
  "newHealthServer = health_SetServingStatus '''' NOT_SERVING health_NewServer"

definition health_ready :: "health_server \<Rightarrow> bool" where
  "health_ready h = (case health_Check h '''' of Inr SERVING \<Rightarrow> True | _ \<Rightarrow> False)"

subsection \<open>The contract of a readiness flag\<close>

text \<open>
  A flag that can be raised and lowered until it is closed, and stays low from then on. The
  client's lemmas follow from the laws, over any history of operations.
\<close>

datatype flag_op = RaiseF | LowerF | CloseF

locale readiness_flag =
  fixes raise :: "'h \<Rightarrow> 'h" and lower :: "'h \<Rightarrow> 'h" and close :: "'h \<Rightarrow> 'h"
    and ready :: "'h \<Rightarrow> bool" and closed :: "'h \<Rightarrow> bool"
  assumes ready_raise: "ready (raise h) \<longleftrightarrow> \<not> closed h \<or> ready h"
    and ready_lower: "ready (lower h) \<longleftrightarrow> closed h \<and> ready h"
    and ready_close: "\<not> ready (close h)"
    and closed_raise: "closed (raise h) = closed h"
    and closed_lower: "closed (lower h) = closed h"
    and closed_close: "closed (close h)"
begin

lemmas flag_laws = ready_raise ready_lower ready_close closed_raise closed_lower closed_close

primrec apply_op :: "flag_op \<Rightarrow> 'h \<Rightarrow> 'h" where
  "apply_op RaiseF h = raise h"
| "apply_op LowerF h = lower h"
| "apply_op CloseF h = close h"

primrec run_ops :: "flag_op list \<Rightarrow> 'h \<Rightarrow> 'h" where
  "run_ops [] h = h"
| "run_ops (x # xs) h = run_ops xs (apply_op x h)"

lemma run_ops_append: "run_ops (xs @ ys) h = run_ops ys (run_ops xs h)"
  by (induction xs arbitrary: h) auto

lemma closed_run_ops: "closed (run_ops xs h) \<longleftrightarrow> closed h \<or> CloseF \<in> set xs"
proof (induction xs arbitrary: h)
  case (Cons x xs)
  then show ?case by (cases x) (auto simp: flag_laws)
qed simp

lemma ready_run_ops:
  assumes "\<not> ready h" "\<not> closed h"
  shows "ready (run_ops xs h) \<longleftrightarrow> CloseF \<notin> set xs \<and> xs \<noteq> [] \<and> last xs = RaiseF"
proof (induction xs rule: rev_induct)
  case Nil
  then show ?case using assms by simp
next
  case (snoc x xs)
  then show ?case using assms
    by (cases x) (auto simp: run_ops_append flag_laws closed_run_ops)
qed

end

lemma health_ready_iff: "health_ready h \<longleftrightarrow> hs_statusMap h '''' = Some SERVING"
  by (auto simp: health_ready_def health_Check_def split: option.splits serving_status.splits)

interpretation health: readiness_flag
  "health_SetServingStatus '''' SERVING" "health_SetServingStatus '''' NOT_SERVING"
  health_Shutdown health_ready hs_shutdown
  by unfold_locales
    (auto simp: health_ready_iff health_SetServingStatus_def health_Shutdown_def)

lemma newHealthServer_low [simp]: "\<not> health_ready newHealthServer" "\<not> hs_shutdown newHealthServer"
  by (simp_all add: newHealthServer_def health_ready_iff health_SetServingStatus_def
      health_NewServer_def)

end
