(* ===== verification/Server.thy ===== *)
theory Server
  imports Runtime Health
begin

text \<open>
  \<open>server.go\<close>, \<open>health.go\<close> and \<open>status.go\<close> of \<open>pkg/internal/server/grpc\<close>: the server's state, its
  construction, the readiness of the sidecar, operation identifiers and the mapping of errors
  to gRPC statuses. The effects of a handler (API requests with their answers, log entries, stream
  operations, metric records) are appended to \<open>events\<close>. The Kubernetes API server, the CSI driver
  and the client are arguments: a \<open>cluster\<close> answers each request as a function of everything that
  happened before it, so nothing is assumed of two answers to the same request.
\<close>

subsection \<open>Log entries and events\<close>

datatype severity = InfoLog | WarningLog | ErrorLog | FatalLog

datatype log_value = LStr string | LInt int | LUser "user_info option"

type_synonym log_values = "(string \<times> log_value) list"

datatype event =
  LogEntry severity "gerr option" string log_values
| SmsGet string "gerr + sms_cr"
| TokenReviewCreate string "string list" "gerr + token_review_status"
| SubjectAccessReviewCreate sar_spec "gerr + sar_status"
| VolumeSnapshotGet string string "gerr + volume_snapshot"
| VolumeSnapshotContentGet string "gerr + volume_snapshot_content"
| VolumeSnapshotClassGet string "gerr + volume_snapshot_class"
| VolumeSnapshotClassList "gerr + volume_snapshot_class list"
| SecretGet string string "gerr + (string \<rightharpoonup> string)"
| CsiGetMetadataAllocated csi_allocated_request "gerr option"
| CsiGetMetadataDelta csi_delta_request "gerr option"
| CsiRecv "csi_metadata_response recv"
| ClientSend metadata_response "gerr option"
| StreamDeadline int64
| RecordMetrics metric_record

record cluster =
  cl_sms_get :: "event list \<Rightarrow> string \<Rightarrow> gerr + sms_cr"
  cl_token_review :: "event list \<Rightarrow> string \<Rightarrow> string list \<Rightarrow> gerr + token_review_status"
  cl_sar :: "event list \<Rightarrow> sar_spec \<Rightarrow> gerr + sar_status"
  cl_vs_get :: "event list \<Rightarrow> string \<Rightarrow> string \<Rightarrow> gerr + volume_snapshot"
  cl_vsc_get :: "event list \<Rightarrow> string \<Rightarrow> gerr + volume_snapshot_content"
  cl_vsclass_get :: "event list \<Rightarrow> string \<Rightarrow> gerr + volume_snapshot_class"
  cl_vsclass_list :: "event list \<Rightarrow> gerr + volume_snapshot_class list"
  cl_secret_get :: "event list \<Rightarrow> string \<Rightarrow> string \<Rightarrow> gerr + (string \<rightharpoonup> string)"
  cl_csi_allocated :: "event list \<Rightarrow> csi_allocated_request \<Rightarrow>
     gerr + (nat \<Rightarrow> csi_metadata_response recv)"
  cl_csi_delta :: "event list \<Rightarrow> csi_delta_request \<Rightarrow>
     gerr + (nat \<Rightarrow> csi_metadata_response recv)"

subsection \<open>State\<close>

text \<open>
  \<open>ServerConfig\<close> holds a pointer to the runtime, of which the server reads the arguments, the driver
  name and the clients; the clients are the \<open>cluster\<close>. \<open>sc_certwatcher\<close> is the watcher, if set.
\<close>

record server_config =
  sc_args :: runtime_args
  sc_driver_name :: string
  MaxStreamDur :: int64
  sc_certwatcher :: "unit option"

record tls_config =
  tc_MinVersion :: uint16
  tc_CipherSuites :: "uint16 list option"
  tc_CurvePreferences :: "uint16 list option"

record server =
  config :: server_config
  healthServer :: health_server
  opNumber :: int64
  tlsCfg :: tls_config
  klog_v :: nat
  events :: "event list"

definition time_Minute :: int64 where "time_Minute = 60000000000"

definition HandlerTraceLogLevel :: nat where "HandlerTraceLogLevel = 4"
definition HandlerDetailedTraceLogLevel :: nat where "HandlerDetailedTraceLogLevel = 5"
definition HandlerDefaultMaxStreamDuration :: int64 where
  "HandlerDefaultMaxStreamDuration = time_Minute * 10"

definition driverName :: "server \<Rightarrow> string" where
  "driverName s = sc_driver_name (config s)"

definition server_audience :: "server \<Rightarrow> string" where
  "server_audience s = Audience (sc_args (config s))"

lemma server_fields_update [simp]:
  "driverName (s\<lparr>events := es\<rparr>) = driverName s" "driverName (s\<lparr>opNumber := n\<rparr>) = driverName s"
  "server_audience (s\<lparr>events := es\<rparr>) = server_audience s"
  "server_audience (s\<lparr>opNumber := n\<rparr>) = server_audience s"
  "driverName (s\<lparr>healthServer := h\<rparr>) = driverName s"
  "server_audience (s\<lparr>healthServer := h\<rparr>) = server_audience s"
  by (simp_all add: driverName_def server_audience_def)

subsection \<open>Effects\<close>

definition emit :: "event \<Rightarrow> (server, unit) io" where
  "emit e = (\<lambda>s. (Inr (), s\<lparr>events := events s @ [e]\<rparr>))"

definition k_call :: "(gerr + 'a \<Rightarrow> event) \<Rightarrow> (event list \<Rightarrow> gerr + 'a) \<Rightarrow> (server, 'a) io" where
  "k_call ev f = (\<lambda>s. let r = f (events s) in
     (case r of Inl e \<Rightarrow> Inl (Failed e) | Inr x \<Rightarrow> Inr x, s\<lparr>events := events s @ [ev r]\<rparr>))"

text \<open>\<open>klog.FromContext(ctx).Error(err, msg, kvs...)\<close> and \<open>V(v).WithValues(kvs...).Info(msg)\<close>: the
  values of the context come first.\<close>

definition log_error :: "log_values \<Rightarrow> gerr option \<Rightarrow> string \<Rightarrow> log_values \<Rightarrow> (server, unit) io" where
  "log_error ctx err msg kvs = emit (LogEntry ErrorLog err msg (ctx @ kvs))"

definition log_info_v :: "nat \<Rightarrow> log_values \<Rightarrow> string \<Rightarrow> log_values \<Rightarrow> (server, unit) io" where
  "log_info_v v ctx msg kvs =
     (\<lambda>s. if v \<le> klog_v s then emit (LogEntry InfoLog None msg (ctx @ kvs)) s else (Inr (), s))"

lemma events_update_eq [simp]: "s\<lparr>events := a\<rparr> = s\<lparr>events := b\<rparr> \<longleftrightarrow> a = b"
  by (auto dest: arg_cong [where f = events])

lemma emit_run [io_run]: "emit e s = (Inr (), s\<lparr>events := events s @ [e]\<rparr>)"
  by (simp add: emit_def)

lemma k_call_run [io_run]:
  "k_call ev f s = (case f (events s) of
      Inl e \<Rightarrow> (Inl (Failed e), s\<lparr>events := events s @ [ev (Inl e)]\<rparr>)
    | Inr x \<Rightarrow> (Inr x, s\<lparr>events := events s @ [ev (Inr x)]\<rparr>))"
  by (simp add: k_call_def Let_def split: sum.split)

lemma log_error_run [io_run]:
  "log_error ctx err msg kvs s = (Inr (), s\<lparr>events := events s @ [LogEntry ErrorLog err msg (ctx @ kvs)]\<rparr>)"
  by (simp add: log_error_def io_run)

lemma log_info_v_run [io_run]:
  "log_info_v v ctx msg kvs s =
     (if v \<le> klog_v s
      then (Inr (), s\<lparr>events := events s @ [LogEntry InfoLog None msg (ctx @ kvs)]\<rparr>) else (Inr (), s))"
  by (simp add: log_info_v_def io_run)

subsection \<open>Construction\<close>

definition server_NewServer ::
  "(string \<times> uint16) list \<Rightarrow> server_config \<Rightarrow> nat \<Rightarrow> gerr + server" where
  "server_NewServer table config0 v =
     (let cfg = (if sint (MaxStreamDur config0) \<le> 0
                 then config0\<lparr>MaxStreamDur := HandlerDefaultMaxStreamDuration\<rparr> else config0);
          args = sc_args cfg in
      if sc_certwatcher cfg = None
      then Inl (Plain ''the certificate watcher/provider for the gRPC server is unset.'')
      else (case ParseTLSVersion (TLSMinVersion args) of
              Inl err \<Rightarrow> Inl err
            | Inr minVersion \<Rightarrow>
           (case ParseCipherSuites table (TLSCipherSuites args) of
              Inl err \<Rightarrow> Inl err
            | Inr cipherSuites \<Rightarrow>
           (case ParseCurvePreferences (TLSCurvePreferences args) of
              Inl err \<Rightarrow> Inl err
            | Inr curvePrefs \<Rightarrow>
                let tc = \<lparr>tc_MinVersion = minVersion, tc_CipherSuites = cipherSuites,
                          tc_CurvePreferences = curvePrefs\<rparr>;
                    warning = (if VersionTLS13 \<le> tc_MinVersion tc \<and>
                                  (case tc_CipherSuites tc of None \<Rightarrow> 0 | Some l \<Rightarrow> length l) > 0
                      then [LogEntry WarningLog None
                        ''TLS 1.3+ ignores the configured cipher suites; cipher suite setting has no effect'' []]
                      else []);
                    info = (if TLSMinVersion args \<noteq> '''' \<or> TLSCipherSuites args \<noteq> '''' \<or>
                               TLSCurvePreferences args \<noteq> ''''
                      then [LogEntry InfoLog None
                        (''TLS configuration: min-version='' @ quote (TLSMinVersion args) @
                         '', cipher-suites='' @ quote (TLSCipherSuites args) @
                         '', curve-preferences='' @ quote (TLSCurvePreferences args)) []]
                      else [])
                in Inr \<lparr>config = cfg, healthServer = newHealthServer, opNumber = 0, tlsCfg = tc,
                        klog_v = v, events = warning @ info\<rparr>))))"

subsection \<open>Readiness\<close>

definition IsReady :: "server \<Rightarrow> bool" where
  "IsReady s =
     (case health_Check (healthServer s) '''' of
        Inr st \<Rightarrow> if st = SERVING then True else False
      | Inl err \<Rightarrow> False)"

lemma IsReady_update [simp]:
  "IsReady (s\<lparr>events := es\<rparr>) = IsReady s" "IsReady (s\<lparr>opNumber := n\<rparr>) = IsReady s"
  by (simp_all add: IsReady_def)

definition klog_info :: "string \<Rightarrow> server \<Rightarrow> server" where
  "klog_info msg s = s\<lparr>events := events s @ [LogEntry InfoLog None msg []]\<rparr>"

definition setReady :: "server \<Rightarrow> server" where
  "setReady s = (klog_info ''Setting status to SERVING'' s)
     \<lparr>healthServer := health_SetServingStatus '''' SERVING (healthServer s)\<rparr>"

definition setNotReady :: "server \<Rightarrow> server" where
  "setNotReady s = (klog_info ''Setting status to NOT_SERVING'' s)
     \<lparr>healthServer := health_SetServingStatus '''' NOT_SERVING (healthServer s)\<rparr>"

definition shuttingDown :: "server \<Rightarrow> server" where
  "shuttingDown s = (klog_info ''Shutting down: setting status to NOT_SERVING'' s)
     \<lparr>healthServer := health_Shutdown (healthServer s)\<rparr>"

definition msgUnavailableCSIDriverNotReady :: string where
  "msgUnavailableCSIDriverNotReady = ''the CSI driver is not yet ready''"

definition isCSIDriverReady :: "log_values \<Rightarrow> (server, unit) io" where
  "isCSIDriverReady ctx = (\<lambda>s.
     if IsReady s then io_ret () s
     else io_then (log_error ctx None msgUnavailableCSIDriverNotReady [(''driverName'', LStr (driverName s))])
            (io_fail (StatusErr Unavailable msgUnavailableCSIDriverNotReady)) s)"

text \<open>\<open>CSIDriverIsReady\<close>, and the part of \<open>Stop\<close> before the graceful stop of the gRPC server.\<close>

definition CSIDriverIsReady :: "server \<Rightarrow> server" where
  "CSIDriverIsReady s = setReady s"

definition server_Stop :: "server \<Rightarrow> server" where
  "server_Stop s = shuttingDown s"

subsection \<open>Operation identifiers\<close>

definition OperationID :: "string \<Rightarrow> (server, string) io" where
  "OperationID op = (\<lambda>s. let n = opNumber s + 1 in
     (Inr (op @ ''-'' @ int_dec (sint n)), s\<lparr>opNumber := n\<rparr>))"

subsection \<open>Error statuses\<close>

text \<open>\<open>statusPassOrWrapError\<close>, for the codes the sources pass to it, which are not OK.\<close>

definition statusPassOrWrapError :: "gerr option \<Rightarrow> code \<Rightarrow> string \<Rightarrow> gerr option" where
  "statusPassOrWrapError err c msg =
     (case err of
        None \<Rightarrow> None
      | Some e \<Rightarrow>
          (let statusError = Convert (Some e) in
           if statusError \<noteq> None \<and> status_code statusError \<noteq> Unknown then Some e
           else Some (StatusErr c msg)))"

subsection \<open>Computations that only append events\<close>

text \<open>\<open>appends P m\<close>: from every state, \<open>m\<close> changes nothing but the events, to which it adds
  events that satisfy \<open>P\<close>. The rules follow the structure of the handlers.\<close>

definition appends :: "(event \<Rightarrow> bool) \<Rightarrow> (server, 'a) io \<Rightarrow> bool" where
  "appends P m \<longleftrightarrow> (\<forall>s. \<exists>es. snd (m s) = s\<lparr>events := events s @ es\<rparr> \<and> list_all P es)"

named_theorems appends_rules \<open>which events a computation adds\<close>

lemma appendsD:
  assumes "appends P m" "m s = (r, t)"
  obtains es where "t = s\<lparr>events := events s @ es\<rparr>" "list_all P es"
  using assms unfolding appends_def by (metis snd_conv)

lemma appends_mono: "appends P m \<Longrightarrow> (\<And>e. P e \<Longrightarrow> Q e) \<Longrightarrow> appends Q m"
  unfolding appends_def by (meson list.pred_mono_strong)

lemma appends_none: "(\<And>s. snd (m s) = s) \<Longrightarrow> appends P m"
  unfolding appends_def by (auto intro: exI [of _ "[]"])

lemma appends_ret [appends_rules]: "appends P (io_ret x)"
  by (rule appends_none) (simp add: io_run)

lemma appends_fail [appends_rules]: "appends P (io_fail e)"
  by (rule appends_none) (simp add: io_run)

lemma appends_panic [appends_rules]: "appends P (io_panic m)"
  by (rule appends_none) (simp add: io_run)

lemma appends_deref [appends_rules]: "appends P (deref p)"
  by (rule appends_none) (simp add: io_run split: option.split)

lemma appends_emit [appends_rules]: "P e \<Longrightarrow> appends P (emit e)"
  unfolding appends_def by (auto simp: io_run)

lemma appends_k_call [appends_rules]:
  assumes "\<And>r. P (ev r)"
  shows "appends P (k_call ev f)"
  unfolding appends_def
proof
  fix s
  show "\<exists>es. snd (k_call ev f s) = s\<lparr>events := events s @ es\<rparr> \<and> list_all P es"
    by (cases "f (events s)") (auto simp: io_run assms)
qed

lemma appends_log_error [appends_rules]:
  "P (LogEntry ErrorLog err msg (ctx @ kvs)) \<Longrightarrow> appends P (log_error ctx err msg kvs)"
  unfolding log_error_def by (rule appends_emit)

lemma appends_log_info_v [appends_rules]:
  assumes "P (LogEntry InfoLog None msg (ctx @ kvs))"
  shows "appends P (log_info_v v ctx msg kvs)"
  unfolding appends_def
proof
  fix s
  show "\<exists>es. snd (log_info_v v ctx msg kvs s) = s\<lparr>events := events s @ es\<rparr> \<and> list_all P es"
  proof (cases "v \<le> klog_v s")
    case True
    with assms show ?thesis
      by (intro exI [of _ "[LogEntry InfoLog None msg (ctx @ kvs)]"]) (simp add: io_run)
  next
    case False
    then show ?thesis by (intro exI [of _ "[]"]) (simp add: io_run)
  qed
qed

lemma appends_bind [appends_rules]:
  assumes m: "appends P m" and f: "\<And>x. appends P (f x)"
  shows "appends P (io_bind m f)"
  unfolding appends_def
proof
  fix s
  obtain r t where r: "m s = (r, t)" by fastforce
  with m obtain es where es: "t = s\<lparr>events := events s @ es\<rparr>" "list_all P es" by (rule appendsD)
  show "\<exists>es. snd (io_bind m f s) = s\<lparr>events := events s @ es\<rparr> \<and> list_all P es"
  proof (cases r)
    case (Inl x)
    with r es show ?thesis by (auto simp: io_run)
  next
    case (Inr x)
    obtain r' u where u: "f x t = (r', u)" by fastforce
    with f obtain fs where "u = t\<lparr>events := events t @ fs\<rparr>" "list_all P fs" by (rule appendsD)
    with r es Inr u show ?thesis by (intro exI [of _ "es @ fs"]) (simp add: io_run)
  qed
qed

lemma appends_catch [appends_rules]:
  assumes m: "appends P m" and h: "\<And>e. appends P (h e)"
  shows "appends P (io_catch m h)"
  unfolding appends_def
proof
  fix s
  obtain r t where r: "m s = (r, t)" by fastforce
  with m obtain es where es: "t = s\<lparr>events := events s @ es\<rparr>" "list_all P es" by (rule appendsD)
  show "\<exists>es. snd (io_catch m h s) = s\<lparr>events := events s @ es\<rparr> \<and> list_all P es"
  proof (cases "\<exists>e. r = Inl (Failed e)")
    case False
    with r es show ?thesis by (auto simp: io_run split: sum.split exn.split)
  next
    case True
    then obtain e where e: "r = Inl (Failed e)" by blast
    obtain r' u where u: "h e t = (r', u)" by fastforce
    with h obtain fs where "u = t\<lparr>events := events t @ fs\<rparr>" "list_all P fs" by (rule appendsD)
    with r es e u show ?thesis by (intro exI [of _ "es @ fs"]) (simp add: io_run)
  qed
qed

lemma appends_if [appends_rules]:
  "(b \<Longrightarrow> appends P m) \<Longrightarrow> (\<not> b \<Longrightarrow> appends P k) \<Longrightarrow> appends P (if b then m else k)"
  by simp

lemma appends_reader: "(\<And>x. appends P (m x)) \<Longrightarrow> appends P (\<lambda>s. m s s)"
  unfolding appends_def by blast

lemma appends_Let [appends_rules]: "(\<And>x. appends P (f x)) \<Longrightarrow> appends P (let x = v in f x)"
  by (simp add: Let_def)

lemma appends_case_option [appends_rules]:
  "appends P m \<Longrightarrow> (\<And>x. appends P (f x)) \<Longrightarrow> appends P (case p of None \<Rightarrow> m | Some x \<Rightarrow> f x)"
  by (simp split: option.split)

lemma appends_case_prod [appends_rules]:
  "(\<And>x y. appends P (f x y)) \<Longrightarrow> appends P (case p of (x, y) \<Rightarrow> f x y)"
  by (simp split: prod.split)

lemma appends_case_sum [appends_rules]:
  "(\<And>x. appends P (f x)) \<Longrightarrow> (\<And>x. appends P (g x)) \<Longrightarrow>
   appends P (case p of Inl x \<Rightarrow> f x | Inr x \<Rightarrow> g x)"
  by (simp split: sum.split)

end
