(* ===== verification/Auth.thy ===== *)
theory Auth
  imports Server
begin

text \<open>
  Authentication and authorization: \<open>pkg/internal/authn\<close>, \<open>pkg/internal/authz\<close> and \<open>auth.go\<close> of the
  gRPC server.
\<close>

subsection \<open>TokenAuthenticator\<close>

fun audience_match :: "string list \<Rightarrow> string \<Rightarrow> bool" where
  "audience_match [] audience = False"
| "audience_match (aud # auds) audience =
     (if aud = audience then True else audience_match auds audience)"

definition Authenticate ::
  "cluster \<Rightarrow> log_values \<Rightarrow> string \<Rightarrow> string \<Rightarrow> (server, bool \<times> user_info option) io" where
  "Authenticate cl ctx token audience =
     io_bind
       (io_catch (k_call (TokenReviewCreate token [audience]) (\<lambda>h. cl_token_review cl h token [audience]))
          (\<lambda>err. io_then (log_error ctx (Some err) ''TokenReviews.Create'' [(''audiences'', LStr audience)])
                   (io_fail err)))
       (\<lambda>auth.
        if \<not> trs_authenticated auth then io_ret (False, None)
        else if length (trs_audiences auth) = 0 then io_ret (False, None)
        else if audience_match (trs_audiences auth) audience then io_ret (True, Some (trs_user auth))
        else io_ret (False, None))"

subsection \<open>SARAuthorizer\<close>

datatype decision = DecisionDeny | DecisionAllow | DecisionNoOpinion

definition volumeSnapshotResourceAttrib :: "string \<Rightarrow> resource_attributes" where
  "volumeSnapshotResourceAttrib namespace =
     \<lparr>ra_verb = ''get'', ra_namespace = namespace, ra_group = ''snapshot.storage.k8s.io'',
      ra_version = ''v1'', ra_resource = ''volumesnapshots''\<rparr>"

definition sar_request :: "user_info \<Rightarrow> string \<Rightarrow> sar_spec" where
  "sar_request userInfo namespace =
     \<lparr>sar_resource = volumeSnapshotResourceAttrib namespace, sar_user = ui_username userInfo,
      sar_groups = ui_groups userInfo, sar_extra = ui_extra userInfo, sar_uid = ui_uid userInfo\<rparr>"

text \<open>The pointer \<open>userInfo\<close> is dereferenced, so it must not be nil.\<close>

definition Authorize ::
  "cluster \<Rightarrow> log_values \<Rightarrow> user_info option \<Rightarrow> string \<Rightarrow> (server, decision \<times> string) io" where
  "Authorize cl ctx userInfo namespace =
     io_bind (deref userInfo) (\<lambda>ui.
     let sar = sar_request ui namespace in
     io_bind
       (io_catch (k_call (SubjectAccessReviewCreate sar) (\<lambda>h. cl_sar cl h sar))
          (\<lambda>err. io_then (log_error ctx (Some err) ''SubjectAccessReviews.Create'' [(''userInfo'', LUser userInfo)])
                   (io_fail err)))
       (\<lambda>st.
        if \<not> sars_allowed st \<or> sars_denied st then io_ret (DecisionDeny, sars_reason st)
        else io_ret (DecisionAllow, sars_reason st)))"

subsection \<open>\<open>auth.go\<close>\<close>

definition msgInternalFailedToFindCR :: string where
  "msgInternalFailedToFindCR = ''failed to find the SnapshotMetadataService CR for driver''"
definition msgInternalFailedToFindCRFmt :: "string \<Rightarrow> gerr \<Rightarrow> string" where
  "msgInternalFailedToFindCRFmt driver err =
     msgInternalFailedToFindCR @ '' '' @ [CHR 0x27] @ driver @ [CHR 0x27] @ '': '' @ error_text err"
definition msgInternalFailedToAuthenticatePrefix :: string where
  "msgInternalFailedToAuthenticatePrefix = ''failed to authenticate user''"
definition mgsInternalFailedToAuthorizePrefix :: string where
  "mgsInternalFailedToAuthorizePrefix = ''failed to authorize the user''"
definition msgUnauthenticatedUser :: string where
  "msgUnauthenticatedUser = ''unauthenticated user''"
definition msgPermissionDeniedPrefix :: string where
  "msgPermissionDeniedPrefix = ''user does not have permissions to perform the operation''"

definition getAudienceForDriver :: "cluster \<Rightarrow> log_values \<Rightarrow> (server, string) io" where
  "getAudienceForDriver cl ctx = (\<lambda>s.
     if server_audience s \<noteq> '''' then io_ret (server_audience s) s
     else io_bind
       (io_catch (k_call (SmsGet (driverName s)) (\<lambda>h. cl_sms_get cl h (driverName s)))
          (\<lambda>err. io_then (log_error ctx (Some err) msgInternalFailedToFindCR [(''driver'', LStr (driverName s))])
             (io_fail (Plain (msgInternalFailedToFindCRFmt (driverName s) err)))))
       (\<lambda>sms. io_ret (sms_audience (sms_spec sms))) s)"

definition authenticateRequest ::
  "cluster \<Rightarrow> log_values \<Rightarrow> string \<Rightarrow> (server, bool \<times> user_info option) io" where
  "authenticateRequest cl ctx securityToken =
     io_bind (getAudienceForDriver cl ctx) (\<lambda>audience. Authenticate cl ctx securityToken audience)"

definition authenticateAndAuthorize ::
  "cluster \<Rightarrow> log_values \<Rightarrow> string \<Rightarrow> string \<Rightarrow> (server, unit) io" where
  "authenticateAndAuthorize cl ctx token namespace =
     io_bind
       (io_catch (authenticateRequest cl ctx token)
          (\<lambda>err. io_fail (StatusErr Internal (msgInternalFailedToAuthenticatePrefix @ '': '' @ error_text err))))
       (\<lambda>(authenticated, userInfo).
        if \<not> authenticated
        then io_then (log_error ctx None msgUnauthenticatedUser [(''userInfo'', LUser userInfo)])
               (io_fail (StatusErr Unauthenticated msgUnauthenticatedUser))
        else io_bind
          (io_catch (Authorize cl ctx userInfo namespace)
             (\<lambda>err. io_fail (StatusErr Internal (mgsInternalFailedToAuthorizePrefix @ '': '' @ error_text err))))
          (\<lambda>(dec, reason).
           if dec \<noteq> DecisionAllow
           then io_then (log_error ctx None msgPermissionDeniedPrefix [(''userInfo'', LUser userInfo)])
                  (io_fail (StatusErr PermissionDenied (msgPermissionDeniedPrefix @ '': '' @ reason)))
           else io_ret ()))"

subsection \<open>Lemmas\<close>

lemma audience_match_iff [simp]: "audience_match auds a \<longleftrightarrow> a \<in> set auds"
  by (induction auds) auto

text \<open>
  A trace authorizes a token for a namespace: the token was reviewed for one audience, found
  authentic with that audience, and the user of that review was allowed, and not denied, to
  get the volume snapshots of the namespace.
\<close>

definition authenticated_in :: "event list \<Rightarrow> string \<Rightarrow> string \<Rightarrow> user_info \<Rightarrow> bool" where
  "authenticated_in es token aud ui \<longleftrightarrow>
     (\<exists>st. TokenReviewCreate token [aud] (Inr st) \<in> set es \<and> trs_authenticated st \<and>
        aud \<in> set (trs_audiences st) \<and> trs_user st = ui)"

definition allowed_in :: "event list \<Rightarrow> user_info \<Rightarrow> string \<Rightarrow> bool" where
  "allowed_in es ui namespace \<longleftrightarrow>
     (\<exists>st. SubjectAccessReviewCreate (sar_request ui namespace) (Inr st) \<in> set es \<and>
        sars_allowed st \<and> \<not> sars_denied st)"

definition authorized_in :: "event list \<Rightarrow> string \<Rightarrow> string \<Rightarrow> bool" where
  "authorized_in es token namespace \<longleftrightarrow>
     (\<exists>aud ui. authenticated_in es token aud ui \<and> allowed_in es ui namespace)"

lemma authorized_in_mono: "authorized_in es t n \<Longrightarrow> set es \<subseteq> set es' \<Longrightarrow> authorized_in es' t n"
  unfolding authorized_in_def authenticated_in_def allowed_in_def by blast

text \<open>The events that authentication and authorization may add.\<close>

fun auth_event :: "event \<Rightarrow> bool" where
  "auth_event (LogEntry sev err msg kvs) \<longleftrightarrow> True"
| "auth_event (SmsGet d r) \<longleftrightarrow> True"
| "auth_event (TokenReviewCreate t auds r) \<longleftrightarrow> True"
| "auth_event (SubjectAccessReviewCreate sar r) \<longleftrightarrow> True"
| "auth_event e \<longleftrightarrow> False"

definition same_server :: "server \<Rightarrow> server \<Rightarrow> bool" where
  "same_server s t \<longleftrightarrow> t = s\<lparr>events := events t\<rparr>"

lemma same_server_refl [simp]: "same_server s s"
  by (simp add: same_server_def)

lemma same_server_events [simp]: "same_server s (s\<lparr>events := es\<rparr>)"
  by (simp add: same_server_def)

lemma same_server_trans: "same_server s t \<Longrightarrow> same_server t u \<Longrightarrow> same_server s u"
  unfolding same_server_def by (metis (no_types, lifting) server.surjective server.update_convs(6))

lemma same_server_fields:
  assumes "same_server s t"
  shows "config t = config s" "healthServer t = healthServer s" "opNumber t = opNumber s"
    "klog_v t = klog_v s" "driverName t = driverName s" "IsReady t = IsReady s"
proof -
  obtain es where "t = s\<lparr>events := es\<rparr>" using assms by (auto simp: same_server_def)
  then show "config t = config s" "healthServer t = healthServer s" "opNumber t = opNumber s"
    "klog_v t = klog_v s" "driverName t = driverName s" "IsReady t = IsReady s"
    by (simp_all add: driverName_def IsReady_def)
qed

lemma getAudienceForDriver_cases:
  assumes "getAudienceForDriver cl ctx s = (r, t)"
  obtains (set_in_config) "server_audience s \<noteq> ''''" "r = Inr (server_audience s)" "t = s"
  | (from_cr) sms where "server_audience s = ''''" "cl_sms_get cl (events s) (driverName s) = Inr sms"
      "r = Inr (sms_audience (sms_spec sms))"
      "t = s\<lparr>events := events s @ [SmsGet (driverName s) (Inr sms)]\<rparr>"
  | (error) err where "server_audience s = ''''" "cl_sms_get cl (events s) (driverName s) = Inl err"
      "r = Inl (Failed (Plain (msgInternalFailedToFindCRFmt (driverName s) err)))"
      "t = s\<lparr>events := events s @ [SmsGet (driverName s) (Inl err),
         LogEntry ErrorLog (Some err) msgInternalFailedToFindCR (ctx @ [(''driver'', LStr (driverName s))])]\<rparr>"
proof (cases "server_audience s = ''''")
  case False
  with assms show ?thesis by (intro that(1)) (auto simp: getAudienceForDriver_def io_run)
next
  case True
  show ?thesis
  proof (cases "cl_sms_get cl (events s) (driverName s)")
    case (Inl err)
    with True assms show ?thesis by (intro that(3)) (auto simp: getAudienceForDriver_def io_run)
  next
    case (Inr sms)
    with True assms show ?thesis by (intro that(2)) (auto simp: getAudienceForDriver_def io_run)
  qed
qed

lemma Authenticate_cases:
  assumes "Authenticate cl ctx token aud s = (r, t)"
  obtains (error) err where "cl_token_review cl (events s) token [aud] = Inl err"
      "r = Inl (Failed err)"
      "t = s\<lparr>events := events s @ [TokenReviewCreate token [aud] (Inl err),
         LogEntry ErrorLog (Some err) ''TokenReviews.Create'' (ctx @ [(''audiences'', LStr aud)])]\<rparr>"
  | (reviewed) st where "cl_token_review cl (events s) token [aud] = Inr st"
      "r = Inr (if trs_authenticated st \<and> aud \<in> set (trs_audiences st)
                then (True, Some (trs_user st)) else (False, None))"
      "t = s\<lparr>events := events s @ [TokenReviewCreate token [aud] (Inr st)]\<rparr>"
  using assms by (auto simp: Authenticate_def io_run split: if_splits sum.splits)

lemma Authorize_cases:
  assumes "Authorize cl ctx (Some ui) ns s = (r, t)"
  obtains (error) err where "cl_sar cl (events s) (sar_request ui ns) = Inl err" "r = Inl (Failed err)"
      "t = s\<lparr>events := events s @ [SubjectAccessReviewCreate (sar_request ui ns) (Inl err),
         LogEntry ErrorLog (Some err) ''SubjectAccessReviews.Create'' (ctx @ [(''userInfo'', LUser (Some ui))])]\<rparr>"
  | (reviewed) st where "cl_sar cl (events s) (sar_request ui ns) = Inr st"
      "r = Inr (if sars_allowed st \<and> \<not> sars_denied st then DecisionAllow else DecisionDeny, sars_reason st)"
      "t = s\<lparr>events := events s @ [SubjectAccessReviewCreate (sar_request ui ns) (Inr st)]\<rparr>"
  using assms by (auto simp: Authorize_def io_run Let_def split: if_splits sum.splits)


text \<open>The audience the token must have been issued for, from the configuration or the custom
  resource that the trace shows.\<close>

definition expected_audience :: "server \<Rightarrow> event list \<Rightarrow> string \<Rightarrow> bool" where
  "expected_audience s es aud \<longleftrightarrow>
     (server_audience s \<noteq> [] \<and> aud = server_audience s) \<or>
     (server_audience s = [] \<and>
        (\<exists>sms. SmsGet (driverName s) (Inr sms) \<in> set es \<and> aud = sms_audience (sms_spec sms)))"

definition auth_outcome ::
  "server \<Rightarrow> string \<Rightarrow> string \<Rightarrow> event list \<Rightarrow> exn + unit \<Rightarrow> bool" where
  "auth_outcome s token ns es r \<longleftrightarrow>
     (case r of
        Inr _ \<Rightarrow> (\<exists>aud ui. expected_audience s es aud \<and> authenticated_in es token aud ui \<and>
                    allowed_in es ui ns)
      | Inl (Failed (StatusErr Internal msg)) \<Rightarrow>
          (\<exists>err. SmsGet (driverName s) (Inl err) \<in> set es) \<or>
          (\<exists>aud err. TokenReviewCreate token [aud] (Inl err) \<in> set es) \<or>
          (\<exists>sar err. SubjectAccessReviewCreate sar (Inl err) \<in> set es)
      | Inl (Failed (StatusErr Unauthenticated msg)) \<Rightarrow>
          (\<exists>aud st. expected_audience s es aud \<and> TokenReviewCreate token [aud] (Inr st) \<in> set es \<and>
             \<not> (trs_authenticated st \<and> aud \<in> set (trs_audiences st))) \<and>
          (\<forall>sar x. SubjectAccessReviewCreate sar x \<notin> set es)
      | Inl (Failed (StatusErr PermissionDenied msg)) \<Rightarrow>
          (\<exists>aud ui st. expected_audience s es aud \<and> authenticated_in es token aud ui \<and>
             SubjectAccessReviewCreate (sar_request ui ns) (Inr st) \<in> set es \<and>
             \<not> (sars_allowed st \<and> \<not> sars_denied st))
      | _ \<Rightarrow> False)"

lemma authenticateRequest_cases:
  assumes "authenticateRequest cl ctx token s = (r, t)"
  obtains (error) err es where "r = Inl (Failed err)" "t = s\<lparr>events := events s @ es\<rparr>"
      "list_all auth_event es"
      "(\<exists>err. SmsGet (driverName s) (Inl err) \<in> set es) \<or>
       (\<exists>aud err. TokenReviewCreate token [aud] (Inl err) \<in> set es)"
  | (reviewed) aud st es where "expected_audience s es aud" "TokenReviewCreate token [aud] (Inr st) \<in> set es"
      "r = Inr (if trs_authenticated st \<and> aud \<in> set (trs_audiences st)
                then (True, Some (trs_user st)) else (False, None))"
      "t = s\<lparr>events := events s @ es\<rparr>" "list_all auth_event es"
      "\<forall>sar x. SubjectAccessReviewCreate sar x \<notin> set es"
proof -
  obtain r1 s1 where a: "getAudienceForDriver cl ctx s = (r1, s1)" by fastforce
  from a show ?thesis
  proof (cases rule: getAudienceForDriver_cases)
    case (error err)
    with a assms show ?thesis by (intro that(1)) (auto simp: authenticateRequest_def io_run)
  next
    case set_in_config
    have b: "Authenticate cl ctx token (server_audience s) s = (r, t)"
      using assms a set_in_config by (simp add: authenticateRequest_def io_run)
    then show ?thesis
    proof (cases rule: Authenticate_cases)
      case (error err)
      then show ?thesis by (intro that(1)) auto
    next
      case (reviewed st)
      with set_in_config show ?thesis
        by (intro that(2) [of _ "server_audience s"]) (auto simp: expected_audience_def)
    qed
  next
    case (from_cr sms)
    have b: "Authenticate cl ctx token (sms_audience (sms_spec sms)) s1 = (r, t)"
      using assms a from_cr by (simp add: authenticateRequest_def io_run)
    then show ?thesis
    proof (cases rule: Authenticate_cases)
      case (error err)
      with from_cr show ?thesis by (intro that(1)) auto
    next
      case (reviewed st)
      with from_cr show ?thesis
        by (intro that(2) [of "[SmsGet (driverName s) (Inr sms),
              TokenReviewCreate token [sms_audience (sms_spec sms)] (Inr st)]"
              "sms_audience (sms_spec sms)"])
          (auto simp: expected_audience_def)
    qed
  qed
qed

lemma auth_outcome_simps:
  "auth_outcome s token ns es (Inr ()) \<longleftrightarrow>
     (\<exists>aud ui. expected_audience s es aud \<and> authenticated_in es token aud ui \<and> allowed_in es ui ns)"
  "auth_outcome s token ns es (Inl (Failed (StatusErr Internal msg))) \<longleftrightarrow>
     (\<exists>err. SmsGet (driverName s) (Inl err) \<in> set es) \<or>
     (\<exists>aud err. TokenReviewCreate token [aud] (Inl err) \<in> set es) \<or>
     (\<exists>sar err. SubjectAccessReviewCreate sar (Inl err) \<in> set es)"
  "auth_outcome s token ns es (Inl (Failed (StatusErr Unauthenticated msg))) \<longleftrightarrow>
     (\<exists>aud st. expected_audience s es aud \<and> TokenReviewCreate token [aud] (Inr st) \<in> set es \<and>
        \<not> (trs_authenticated st \<and> aud \<in> set (trs_audiences st))) \<and>
     (\<forall>sar x. SubjectAccessReviewCreate sar x \<notin> set es)"
  "auth_outcome s token ns es (Inl (Failed (StatusErr PermissionDenied msg))) \<longleftrightarrow>
     (\<exists>aud ui st. expected_audience s es aud \<and> authenticated_in es token aud ui \<and>
        SubjectAccessReviewCreate (sar_request ui ns) (Inr st) \<in> set es \<and>
        \<not> (sars_allowed st \<and> \<not> sars_denied st))"
  by (simp_all add: auth_outcome_def)

lemma expected_audience_append: "expected_audience s es aud \<Longrightarrow> expected_audience s (es @ fs) aud"
  by (auto simp: expected_audience_def)

lemma authenticateAndAuthorize_error:
  assumes "authenticateRequest cl ctx token s = (Inl (Failed err), t)"
  shows "authenticateAndAuthorize cl ctx token ns s =
     (Inl (Failed (StatusErr Internal (msgInternalFailedToAuthenticatePrefix @ '': '' @ error_text err))), t)"
  using assms by (simp add: authenticateAndAuthorize_def io_run)

lemma authenticateAndAuthorize_unauthenticated:
  assumes "authenticateRequest cl ctx token s = (Inr (False, ui), t)"
  shows "authenticateAndAuthorize cl ctx token ns s =
     (Inl (Failed (StatusErr Unauthenticated msgUnauthenticatedUser)), t\<lparr>events := events t @
        [LogEntry ErrorLog None msgUnauthenticatedUser (ctx @ [(''userInfo'', LUser ui)])]\<rparr>)"
  using assms by (simp add: authenticateAndAuthorize_def io_run)

lemma authenticateAndAuthorize_authorize:
  assumes "authenticateRequest cl ctx token s = (Inr (True, Some ui), t)"
  shows "authenticateAndAuthorize cl ctx token ns s =
     (case Authorize cl ctx (Some ui) ns t of
        (Inl (Failed err), u) \<Rightarrow>
          (Inl (Failed (StatusErr Internal (mgsInternalFailedToAuthorizePrefix @ '': '' @ error_text err))), u)
      | (Inl x, u) \<Rightarrow> (Inl x, u)
      | (Inr (dec, reason), u) \<Rightarrow>
          if dec \<noteq> DecisionAllow
          then (Inl (Failed (StatusErr PermissionDenied (msgPermissionDeniedPrefix @ '': '' @ reason))),
                u\<lparr>events := events u @
                  [LogEntry ErrorLog None msgPermissionDeniedPrefix (ctx @ [(''userInfo'', LUser (Some ui))])]\<rparr>)
          else (Inr (), u))"
  using assms by (simp add: authenticateAndAuthorize_def io_run split: sum.split prod.split exn.split)

lemma authorize_after_review:
  assumes ex: "expected_audience s es aud" and au: "authenticated_in es token aud ui"
    and ev: "list_all auth_event es"
    and req: "authenticateRequest cl ctx token s = (Inr (True, Some ui), s\<lparr>events := events s @ es\<rparr>)"
    and run: "authenticateAndAuthorize cl ctx token ns s = (r, t)"
  shows "\<exists>fs. t = s\<lparr>events := events s @ es @ fs\<rparr> \<and> list_all auth_event fs \<and>
    auth_outcome s token ns (es @ fs) r"
proof -
  let ?s1 = "s\<lparr>events := events s @ es\<rparr>"
  obtain r2 s2 where b: "Authorize cl ctx (Some ui) ns ?s1 = (r2, s2)" by fastforce
  note run' = run [unfolded authenticateAndAuthorize_authorize [OF req], unfolded b]
  have au': "authenticated_in (es @ x) token aud ui" for x
    using au by (auto simp: authenticated_in_def)
  note ex' = expected_audience_append [OF ex]
  from b show ?thesis
  proof (cases rule: Authorize_cases)
    case (error err)
    let ?sar = "SubjectAccessReviewCreate (sar_request ui ns) (Inl err)"
    let ?fs = "[?sar, LogEntry ErrorLog (Some err) ''SubjectAccessReviews.Create''
      (ctx @ [(''userInfo'', LUser (Some ui))])]"
    have "?sar \<in> set (es @ ?fs)" by simp
    then have "\<exists>sar err. SubjectAccessReviewCreate sar (Inl err) \<in> set (es @ ?fs)" by blast
    then have "auth_outcome s token ns (es @ ?fs) (Inl (Failed (StatusErr Internal m)))" for m
      unfolding auth_outcome_simps by blast
    with error run' show ?thesis by (intro exI [of _ ?fs]) auto
  next
    case (reviewed st)
    let ?sar = "SubjectAccessReviewCreate (sar_request ui ns) (Inr st)"
    show ?thesis
    proof (cases "sars_allowed st \<and> \<not> sars_denied st")
      case True
      then have "allowed_in (es @ [?sar]) ui ns" by (auto simp: allowed_in_def)
      with ex' au' have "auth_outcome s token ns (es @ [?sar]) (Inr ())"
        unfolding auth_outcome_simps by blast
      with True reviewed run' show ?thesis by (intro exI [of _ "[?sar]"]) auto
    next
      case False
      let ?fs = "[?sar, LogEntry ErrorLog None msgPermissionDeniedPrefix (ctx @ [(''userInfo'', LUser (Some ui))])]"
      have "?sar \<in> set (es @ ?fs)" by simp
      with False ex' au' have "auth_outcome s token ns (es @ ?fs) (Inl (Failed (StatusErr PermissionDenied m)))" for m
        unfolding auth_outcome_simps by blast
      with False reviewed run' show ?thesis by (intro exI [of _ ?fs]) auto
    qed
  qed
qed

lemma authenticateAndAuthorize_run:
  assumes run: "authenticateAndAuthorize cl ctx token ns s = (r, t)"
  obtains es where "t = s\<lparr>events := events s @ es\<rparr>" "list_all auth_event es"
    "auth_outcome s token ns es r"
proof -
  obtain r1 s1 where a: "authenticateRequest cl ctx token s = (r1, s1)" by fastforce
  from a show ?thesis
  proof (cases rule: authenticateRequest_cases)
    case (error err es)
    note run' = run [unfolded authenticateAndAuthorize_error [OF a [unfolded error(1)]]]
    from error(4) have "auth_outcome s token ns es (Inl (Failed (StatusErr Internal m)))" for m
      unfolding auth_outcome_simps by blast
    with error run' show ?thesis by (intro that [of es]) auto
  next
    case (reviewed aud st es)
    show ?thesis
    proof (cases "trs_authenticated st \<and> aud \<in> set (trs_audiences st)")
      case False
      let ?fs = "[LogEntry ErrorLog None msgUnauthenticatedUser (ctx @ [(''userInfo'', LUser None)])]"
      have "authenticateRequest cl ctx token s = (Inr (False, None), s1)"
        using False reviewed a by simp
      note run' = run [unfolded authenticateAndAuthorize_unauthenticated [OF this]]
      have "expected_audience s (es @ ?fs) aud" "TokenReviewCreate token [aud] (Inr st) \<in> set (es @ ?fs)"
        "\<forall>sar x. SubjectAccessReviewCreate sar x \<notin> set (es @ ?fs)"
        using reviewed expected_audience_append by auto
      with False have "auth_outcome s token ns (es @ ?fs) (Inl (Failed (StatusErr Unauthenticated m)))" for m
        unfolding auth_outcome_simps by blast
      with reviewed run' show ?thesis by (intro that [of "es @ ?fs"]) auto
    next
      case True
      with reviewed a have "authenticateRequest cl ctx token s =
          (Inr (True, Some (trs_user st)), s\<lparr>events := events s @ es\<rparr>)" by simp
      moreover have "authenticated_in es token aud (trs_user st)"
        using True reviewed by (auto simp: authenticated_in_def)
      ultimately obtain fs where "t = s\<lparr>events := events s @ es @ fs\<rparr>" "list_all auth_event fs"
          "auth_outcome s token ns (es @ fs) r"
        using authorize_after_review reviewed run by blast
      with reviewed show ?thesis by (intro that [of "es @ fs"]) auto
    qed
  qed
qed

subsection \<open>Properties\<close>

text \<open>
  C7. \<open>authenticateAndAuthorize\<close> never panics and changes the server only by adding requests and
  log entries. It succeeds only after the token was reviewed for the audience of the
  configuration or of the custom resource and found authentic with that audience, and the
  reviewed user was allowed, and not denied, to get volume snapshots of the namespace. Its
  errors are: Internal exactly after a failed API request, Unauthenticated before any
  authorization request, PermissionDenied after a refusal; nothing else.
\<close>
theorem authenticateAndAuthorize_spec:
  assumes "authenticateAndAuthorize cl ctx token ns s = (r, t)"
  shows "\<exists>es. t = s\<lparr>events := events s @ es\<rparr> \<and> list_all auth_event es \<and>
    auth_outcome s token ns es r"
  using authenticateAndAuthorize_run [OF assms] by metis

definition user_example :: user_info where
  "user_example = \<lparr>ui_username = ''system:serviceaccount:backup:sa'', ui_uid = ''u1'',
     ui_groups = [], ui_extra = Map.empty\<rparr>"

definition cluster_example :: cluster where
  "cluster_example =
     \<lparr>cl_sms_get = (\<lambda>h d. Inr \<lparr>sms_name = d, sms_spec = \<lparr>sms_audience = ''aud'',
        sms_address = ''host:50051'', sms_caCert = [], sms_requireBaseSnapshotForDelta = None\<rparr>\<rparr>),
      cl_token_review = (\<lambda>h tok auds. Inr \<lparr>trs_authenticated = tok = ''good'',
        trs_user = user_example, trs_audiences = auds, trs_error = ''''\<rparr>),
      cl_sar = (\<lambda>h sar. Inr \<lparr>sars_allowed = ra_namespace (sar_resource sar) = ''ns'',
        sars_denied = False, sars_reason = ''''\<rparr>),
      cl_vs_get = (\<lambda>h ns n. Inr \<lparr>vs_namespace = ns, vs_name = n, vs_uid = ''uid'',
        vs_source_pvc = Some ''pvc'', vs_class_name = Some ''class'',
        vs_status = Some \<lparr>vss_bound_content_name = Some ''content'',
                          vss_ready_to_use = Some True\<rparr>\<rparr>),
      cl_vsc_get = (\<lambda>h n. Inr \<lparr>vsc_name = n, vsc_driver = ''driver'',
        vsc_ref = \<lparr>or_namespace = ''ns'', or_name = ''snap'', or_uid = ''uid''\<rparr>,
        vsc_status = Some \<lparr>vscs_snapshot_handle = Some ''handle'',
                           vscs_ready_to_use = Some True\<rparr>\<rparr>),
      cl_vsclass_get = (\<lambda>h n. Inr \<lparr>vsclass_name = n, vsclass_driver = ''driver'',
        vsclass_annotations = None, vsclass_parameters = Map.empty\<rparr>),
      cl_vsclass_list = (\<lambda>h. Inr []),
      cl_secret_get = (\<lambda>h ns n. Inl (StatusErr NotFound ''no secret'')),
      cl_csi_allocated = (\<lambda>h req. Inr (\<lambda>n. if n < 2
        then RecvMsg \<lparr>csi_block_metadata_type = 1, csi_volume_capacity_bytes = 100,
               csi_block_metadata = [\<lparr>csi_byte_offset = of_nat n * 10, csi_size_bytes = 10\<rparr>]\<rparr>
        else RecvEOF)),
      cl_csi_delta = (\<lambda>h req. Inr (\<lambda>n. RecvErr (StatusErr NotFound ''no base'')))\<rparr>"

definition server_config_example :: server_config where
  "server_config_example =
     \<lparr>sc_args = runtime_args_example, sc_driver_name = ''driver'', MaxStreamDur = 0,
      sc_certwatcher = Some ()\<rparr>"

definition server_example :: server where
  "server_example =
     \<lparr>config = server_config_example,
      healthServer = \<lparr>hs_shutdown = False, hs_statusMap = ['''' \<mapsto> SERVING]\<rparr>,
      opNumber = 0,
      tlsCfg = \<lparr>tc_MinVersion = 0, tc_CipherSuites = None, tc_CurvePreferences = None\<rparr>,
      klog_v = 0, events = []\<rparr>"

lemma server_example_audience [simp]: "server_audience server_example = []"
  by (simp add: server_audience_def server_example_def server_config_example_def
      runtime_args_example_def)

lemma server_example_driver [simp]: "driverName server_example = ''driver''"
  by (simp add: driverName_def server_example_def server_config_example_def)

theorem authenticateAndAuthorize_spec_witness:
  "\<exists>es. authorized_in es ''good'' ''ns'' \<and>
     fst (authenticateAndAuthorize cluster_example [] ''good'' ''ns'' server_example) = Inr ()"
proof -
  obtain r t where run: "authenticateAndAuthorize cluster_example [] ''good'' ''ns'' server_example = (r, t)"
    by fastforce
  then have r: "r = Inr ()"
    by (auto simp: authenticateAndAuthorize_def authenticateRequest_def getAudienceForDriver_def
        Authenticate_def Authorize_def io_run Let_def cluster_example_def
        sar_request_def volumeSnapshotResourceAttrib_def)
  from authenticateAndAuthorize_spec [OF run] r run show ?thesis
    by (auto simp: auth_outcome_simps authorized_in_def)
qed

end
