(* ===== verification/SecretRef.thy ===== *)
theory SecretRef
  imports Api "HOL-Library.List_Lexorder" "HOL-Library.Char_ord"
begin

text \<open>
  \<open>GetSecretReference\<close> of the vendored \<open>external-snapshotter/v8/pkg/utils\<close> with the parts of the
  standard library and of the API machinery it rests on: \<open>os.Expand\<close> and the checks of DNS labels
  and subdomains. It resolves the templates of a \<open>VolumeSnapshotClass\<close> to the secret whose
  content the sidecar sends to the CSI driver.
\<close>

subsection \<open>\<open>os.Expand\<close>\<close>

datatype piece = Lit char | Var string

definition isShellSpecialVar :: "char \<Rightarrow> bool" where
  "isShellSpecialVar c \<longleftrightarrow> c \<in> set ''*#$@!?-0123456789''"

definition isAlphaNum :: "char \<Rightarrow> bool" where
  "isAlphaNum c \<longleftrightarrow>
     c \<in> set ''_0123456789abcdefghijklmnopqrstuvwxyzABCDEFGHIJKLMNOPQRSTUVWXYZ''"

text \<open>The name after a dollar sign and the number of bytes it takes; never called on \<open>''''\<close>.\<close>

definition getShellName :: "string \<Rightarrow> string \<times> nat" where
  "getShellName s =
     (case s of
        [] \<Rightarrow> ([], 0)
      | c # cs \<Rightarrow>
          if c = CHR ''{'' then
            (if 2 < length s \<and> isShellSpecialVar (s ! 1) \<and> s ! 2 = CHR ''}'' then ([s ! 1], 3)
             else (let name = takeWhile (\<lambda>x. x \<noteq> CHR ''}'') cs in
                   if length name = length cs then ([], 1)
                   else if name = [] then ([], 2)
                   else (name, length name + 2)))
          else if isShellSpecialVar c then ([c], 1)
          else (takeWhile isAlphaNum s, length (takeWhile isAlphaNum s)))"

function expand_pieces :: "string \<Rightarrow> piece list" where
  "expand_pieces [] = []"
| "expand_pieces (c # cs) =
     (if c = CHR ''$'' \<and> cs \<noteq> []
      then (case getShellName cs of
              (name, w) \<Rightarrow>
                (if name = [] \<and> 0 < w then [] else if name = [] then [Lit c] else [Var name]) @
                expand_pieces (drop w cs))
      else Lit c # expand_pieces cs)"
  by pat_completeness auto
termination
  by (relation "measure length") auto

declare expand_pieces.simps [simp del]

fun piece_text :: "(string \<Rightarrow> string) \<Rightarrow> piece \<Rightarrow> string" where
  "piece_text mapping (Lit c) = [c]"
| "piece_text mapping (Var n) = mapping n"

definition os_Expand :: "string \<Rightarrow> (string \<Rightarrow> string) \<Rightarrow> string" where
  "os_Expand s mapping = concat (map (piece_text mapping) (expand_pieces s))"

fun piece_vars :: "piece list \<Rightarrow> string list" where
  "piece_vars [] = []"
| "piece_vars (Lit c # ps) = piece_vars ps"
| "piece_vars (Var n # ps) = n # piece_vars ps"

subsection \<open>Names of Kubernetes objects\<close>

definition lower_alnum :: "char \<Rightarrow> bool" where
  "lower_alnum c \<longleftrightarrow> c \<in> set ''abcdefghijklmnopqrstuvwxyz0123456789''"

text \<open>\<open>[a-z0-9]([-a-z0-9]*[a-z0-9])?\<close>, matched against the whole string.\<close>

definition dns1123_label_fmt :: "string \<Rightarrow> bool" where
  "dns1123_label_fmt s \<longleftrightarrow>
     s \<noteq> [] \<and> lower_alnum (hd s) \<and> lower_alnum (last s) \<and>
     list_all (\<lambda>c. lower_alnum c \<or> c = CHR ''-'') s"

definition IsDNS1123Label :: "string \<Rightarrow> bool" where
  "IsDNS1123Label s \<longleftrightarrow> length s \<le> 63 \<and> dns1123_label_fmt s"

definition IsDNS1123Subdomain :: "string \<Rightarrow> bool" where
  "IsDNS1123Subdomain s \<longleftrightarrow>
     length s \<le> 253 \<and> list_all dns1123_label_fmt (split_on (CHR ''.'') s)"

subsection \<open>Templates\<close>

record secret_params_map =
  sp_name :: string
  sp_secretNameKey :: string
  sp_secretNamespaceKey :: string

definition SnapshotterSecretParams :: secret_params_map where
  "SnapshotterSecretParams =
     \<lparr>sp_name = ''Snapshotter'',
      sp_secretNameKey = ''csi.storage.k8s.io/snapshotter-secret-name'',
      sp_secretNamespaceKey = ''csi.storage.k8s.io/snapshotter-secret-namespace''\<rparr>"

definition verifyAndGetSecretNameAndNamespaceTemplate ::
  "secret_params_map \<Rightarrow> (string \<rightharpoonup> string) \<Rightarrow> gerr + string \<times> string" where
  "verifyAndGetSecretNameAndNamespaceTemplate secret params =
     (case (params (sp_secretNameKey secret), params (sp_secretNamespaceKey secret)) of
        (None, None) \<Rightarrow> Inr ([], [])
      | (Some nameTemplate, Some namespaceTemplate) \<Rightarrow>
          if nameTemplate = [] \<or> namespaceTemplate = []
          then Inl (Plain (sp_name secret @
                 '' secrets specified in parameters but value of either namespace or name is empty''))
          else Inr (nameTemplate, namespaceTemplate)
      | _ \<Rightarrow> Inl (Plain (''either name and namespace for '' @ sp_name secret @
                 '' secrets specified, Both must be specified'')))"

definition resolveTemplate :: "string \<Rightarrow> (string \<rightharpoonup> string) \<Rightarrow> gerr + string" where
  "resolveTemplate template params =
     (let missing = filter (\<lambda>k. params k = None) (piece_vars (expand_pieces template));
          resolved = os_Expand template (\<lambda>k. case params k of None \<Rightarrow> [] | Some v \<Rightarrow> v) in
      if 0 < length missing
      then Inl (Plain (''invalid tokens: ['' @ join_with '' '' (map quote (sort (remdups missing))) @ '']''))
      else Inr resolved)"

definition invalid_name :: "string \<Rightarrow> string \<Rightarrow> string \<Rightarrow> gerr" where
  "invalid_name template resolved what =
     (if template \<noteq> resolved
      then Plain (quote template @ '' resolved to '' @ quote resolved @ '' which is not a valid '' @ what @ '' name'')
      else Plain (quote template @ '' is not a valid '' @ what @ '' name''))"

definition namespace_params :: "string \<Rightarrow> volume_snapshot \<Rightarrow> string \<rightharpoonup> string" where
  "namespace_params contentName vs =
     [''volumesnapshotcontent.name'' \<mapsto> contentName,
      ''volumesnapshot.namespace'' \<mapsto> vs_namespace vs]"

definition name_params :: "string \<Rightarrow> volume_snapshot \<Rightarrow> string \<rightharpoonup> string" where
  "name_params contentName vs =
     [''volumesnapshotcontent.name'' \<mapsto> contentName,
      ''volumesnapshot.name'' \<mapsto> vs_name vs,
      ''volumesnapshot.namespace'' \<mapsto> vs_namespace vs]"

text \<open>The snapshot is never nil in the calls of the sidecar.\<close>

definition GetSecretReference ::
  "secret_params_map \<Rightarrow> (string \<rightharpoonup> string) \<Rightarrow> string \<Rightarrow> volume_snapshot \<Rightarrow>
   gerr + secret_reference option" where
  "GetSecretReference secretParams classParams contentName vs =
     (case verifyAndGetSecretNameAndNamespaceTemplate secretParams classParams of
        Inl err \<Rightarrow> Inl (Plain (''failed to get name and namespace template from params: '' @ error_text err))
      | Inr (nameTemplate, namespaceTemplate) \<Rightarrow>
     (if nameTemplate = [] \<and> namespaceTemplate = [] then Inr None
      else (case resolveTemplate namespaceTemplate (namespace_params contentName vs) of
        Inl err \<Rightarrow> Inl (Plain (''error resolving value '' @ quote namespaceTemplate @ '': '' @ error_text err))
      | Inr resolvedNamespace \<Rightarrow>
     (if \<not> IsDNS1123Label resolvedNamespace
      then Inl (invalid_name namespaceTemplate resolvedNamespace ''namespace'')
      else (case resolveTemplate nameTemplate (name_params contentName vs) of
        Inl err \<Rightarrow> Inl (Plain (''error resolving value '' @ quote nameTemplate @ '': '' @ error_text err))
      | Inr resolvedName \<Rightarrow>
     (if \<not> IsDNS1123Subdomain resolvedName
      then Inl (invalid_name nameTemplate resolvedName ''secret'')
      else Inr (Some \<lparr>sr_namespace = resolvedNamespace, sr_name = resolvedName\<rparr>)))))))"

subsection \<open>Lemmas\<close>

lemma resolveTemplate_ok_iff:
  "resolveTemplate template params = Inr r \<longleftrightarrow>
     set (piece_vars (expand_pieces template)) \<subseteq> dom params \<and>
     r = os_Expand template (\<lambda>k. case params k of None \<Rightarrow> [] | Some v \<Rightarrow> v)"
  by (auto simp: resolveTemplate_def Let_def filter_empty_conv dom_def subset_eq)

lemma verify_templates_ok_iff:
  "verifyAndGetSecretNameAndNamespaceTemplate sp params = Inr (n, m) \<longleftrightarrow>
     (params (sp_secretNameKey sp) = None \<and> params (sp_secretNamespaceKey sp) = None \<and> n = [] \<and> m = []) \<or>
     (params (sp_secretNameKey sp) = Some n \<and> params (sp_secretNamespaceKey sp) = Some m \<and> n \<noteq> [] \<and> m \<noteq> [])"
  by (auto simp: verifyAndGetSecretNameAndNamespaceTemplate_def split: option.splits)

lemma GetSecretReference_Some_iff:
  "GetSecretReference sp params cn vs = Inr (Some ref) \<longleftrightarrow>
     (\<exists>n m. params (sp_secretNameKey sp) = Some n \<and> params (sp_secretNamespaceKey sp) = Some m \<and>
        n \<noteq> [] \<and> m \<noteq> [] \<and>
        resolveTemplate m (namespace_params cn vs) = Inr (sr_namespace ref) \<and>
        IsDNS1123Label (sr_namespace ref) \<and>
        resolveTemplate n (name_params cn vs) = Inr (sr_name ref) \<and>
        IsDNS1123Subdomain (sr_name ref))"
  by (cases "params (sp_secretNameKey sp)"; cases "params (sp_secretNamespaceKey sp)")
    (auto simp: GetSecretReference_def verifyAndGetSecretNameAndNamespaceTemplate_def
      split: sum.splits if_splits)

lemma GetSecretReference_None_iff:
  "GetSecretReference sp params cn vs = Inr None \<longleftrightarrow>
     params (sp_secretNameKey sp) = None \<and> params (sp_secretNamespaceKey sp) = None"
  by (cases "params (sp_secretNameKey sp)"; cases "params (sp_secretNamespaceKey sp)")
    (auto simp: GetSecretReference_def verifyAndGetSecretNameAndNamespaceTemplate_def
      split: sum.splits if_splits)

lemma namespace_params_cong:
  "vs_namespace vs = vs_namespace vs' \<Longrightarrow> namespace_params cn vs = namespace_params cn vs'"
  by (simp add: namespace_params_def)

text \<open>A template without a dollar sign stands for itself.\<close>

lemma expand_pieces_plain: "CHR ''$'' \<notin> set s \<Longrightarrow> expand_pieces s = map Lit s"
  by (induction s) (auto simp: expand_pieces.simps)

lemma resolveTemplate_plain: "CHR ''$'' \<notin> set s \<Longrightarrow> resolveTemplate s params = Inr s"
proof -
  have "concat (map (piece_text f \<circ> Lit) xs) = xs" "piece_vars (map Lit xs) = []" for f xs
    by (induction xs) auto
  then show "CHR ''$'' \<notin> set s \<Longrightarrow> resolveTemplate s params = Inr s"
    by (simp add: resolveTemplate_ok_iff expand_pieces_plain os_Expand_def)
qed

text \<open>A reference \<open>${name}\<close> to a parameter is replaced by its value.\<close>

lemma expand_pieces_braces:
  assumes "CHR ''}'' \<notin> set n" "n \<noteq> []" "1 < length n \<or> \<not> isShellSpecialVar (hd n)"
  shows "expand_pieces (''${'' @ n @ ''}'' @ rest) = Var n # expand_pieces rest"
proof -
  have t: "takeWhile (\<lambda>x. x \<noteq> CHR ''}'') (n @ CHR ''}'' # rest) = n"
    using assms(1) by (subst takeWhile_append2) auto
  have "\<not> (isShellSpecialVar ((n @ CHR ''}'' # rest) ! 0) \<and> (n @ CHR ''}'' # rest) ! 1 = CHR ''}'')"
    using assms by (cases n; cases "tl n") (auto simp: nth_append)
  then have "getShellName (CHR ''{'' # n @ CHR ''}'' # rest) = (n, length n + 2)"
    using assms(2) by (auto simp: getShellName_def t numeral_2_eq_2)
  then show ?thesis using assms(2) by (simp add: expand_pieces.simps)
qed

subsection \<open>Properties\<close>

text \<open>
  C36. A secret reference is returned exactly when both parameters of the class are present and
  not empty and their templates resolve to a valid namespace and secret name; no reference is
  returned, without an error, exactly when both parameters are absent.
\<close>
theorem GetSecretReference_spec:
  "(GetSecretReference sp params cn vs = Inr (Some ref) \<longleftrightarrow>
      (\<exists>n m. params (sp_secretNameKey sp) = Some n \<and> params (sp_secretNamespaceKey sp) = Some m \<and>
         n \<noteq> [] \<and> m \<noteq> [] \<and>
         resolveTemplate m (namespace_params cn vs) = Inr (sr_namespace ref) \<and>
         IsDNS1123Label (sr_namespace ref) \<and>
         resolveTemplate n (name_params cn vs) = Inr (sr_name ref) \<and>
         IsDNS1123Subdomain (sr_name ref))) \<and>
   (GetSecretReference sp params cn vs = Inr None \<longleftrightarrow>
      params (sp_secretNameKey sp) = None \<and> params (sp_secretNamespaceKey sp) = None)"
  by (intro conjI GetSecretReference_Some_iff GetSecretReference_None_iff)

text \<open>
  The namespace from which the secret is read does not depend on anything the owner of a
  snapshot chooses within a namespace: for two snapshots of the same namespace, bound to
  contents of the same name, the references have the same namespace. A template with a
  dollar sign cannot make it depend on the name of the snapshot.
\<close>
theorem GetSecretReference_namespace_independent:
  assumes "GetSecretReference sp params cn vs = Inr (Some ref)"
    and "GetSecretReference sp params cn vs' = Inr (Some ref')"
    and "vs_namespace vs = vs_namespace vs'"
  shows "sr_namespace ref = sr_namespace ref'"
proof -
  obtain m where "params (sp_secretNamespaceKey sp) = Some m"
      "resolveTemplate m (namespace_params cn vs) = Inr (sr_namespace ref)"
    using assms(1) by (auto simp: GetSecretReference_Some_iff)
  moreover obtain m' where "params (sp_secretNamespaceKey sp) = Some m'"
      "resolveTemplate m' (namespace_params cn vs') = Inr (sr_namespace ref')"
    using assms(2) by (auto simp: GetSecretReference_Some_iff)
  ultimately show ?thesis using namespace_params_cong [OF assms(3), of cn] by simp
qed

definition snapshot_named :: "string \<Rightarrow> volume_snapshot" where
  "snapshot_named n =
     \<lparr>vs_namespace = ''ns'', vs_name = n, vs_uid = ''uid'', vs_source_pvc = None,
      vs_class_name = None, vs_status = None\<rparr>"

definition class_params_example :: "string \<rightharpoonup> string" where
  "class_params_example =
     [sp_secretNameKey SnapshotterSecretParams \<mapsto> ''${volumesnapshot.name}'',
      sp_secretNamespaceKey SnapshotterSecretParams \<mapsto> ''secrets'']"

lemma class_params_example_resolves:
  assumes "dns1123_label_fmt n" "length n \<le> 63"
  shows "GetSecretReference SnapshotterSecretParams class_params_example ''content'' (snapshot_named n) =
    Inr (Some \<lparr>sr_namespace = ''secrets'', sr_name = n\<rparr>)"
proof -
  have e: "expand_pieces ''${volumesnapshot.name}'' = [Var ''volumesnapshot.name'']"
    using expand_pieces_braces [of "''volumesnapshot.name''" "[]"] by (simp add: expand_pieces.simps)
  have "\<not> lower_alnum (CHR ''.'')" by (simp add: lower_alnum_def)
  then have "CHR ''.'' \<notin> set n"
    using assms(1) by (auto simp: dns1123_label_fmt_def list_all_iff)
  then have "IsDNS1123Subdomain n"
    using assms by (simp add: IsDNS1123Subdomain_def split_on_no_sep)
  moreover have "resolveTemplate ''${volumesnapshot.name}'' (name_params ''content'' (snapshot_named n)) = Inr n"
    by (simp add: resolveTemplate_ok_iff e os_Expand_def name_params_def snapshot_named_def)
  moreover have "IsDNS1123Label ''secrets''"
    by (simp add: IsDNS1123Label_def dns1123_label_fmt_def lower_alnum_def)
  ultimately show ?thesis
    by (simp add: GetSecretReference_Some_iff class_params_example_def SnapshotterSecretParams_def
        resolveTemplate_plain)
qed

theorem GetSecretReference_namespace_independent_witness:
  "sr_namespace \<lparr>sr_namespace = ''secrets'', sr_name = ''a''\<rparr> =
   sr_namespace \<lparr>sr_namespace = ''secrets'', sr_name = ''b''\<rparr>"
  by (rule GetSecretReference_namespace_independent
      [OF class_params_example_resolves class_params_example_resolves])
    (simp_all add: dns1123_label_fmt_def lower_alnum_def snapshot_named_def)

end
