(* ===== verification/Snapshot.thy ===== *)
theory Snapshot
  imports Auth SecretRef
begin

text \<open>
  \<open>snapshot.go\<close> and \<open>snapshotter_secret.go\<close> of the gRPC server: from a namespace and the name of a
  \<open>VolumeSnapshot\<close> to the CSI handle, the driver and the secrets of the snapshot. The server
  dereferences the \<open>Status\<close> of the snapshot and of its content without a nil check.
\<close>

subsection \<open>Messages\<close>

definition quoted :: "string \<Rightarrow> string" where
  "quoted s = [CHR 0x27] @ s @ [CHR 0x27]"

definition msgUnavailableFailedToGetVolumeSnapshot :: string where
  "msgUnavailableFailedToGetVolumeSnapshot = ''failed to get VolumeSnapshot''"
definition msgUnavailableVolumeSnapshotNotReady :: string where
  "msgUnavailableVolumeSnapshotNotReady = ''the VolumeSnapshot is not yet ready''"
definition msgUnavailableInvalidVolumeSnapshotStatus :: string where
  "msgUnavailableInvalidVolumeSnapshotStatus =
     ''boundVolumeSnapshotContentName is not set in VolumeSnapshot status''"
definition msgUnavailableFailedToGetVolumeSnapshotContent :: string where
  "msgUnavailableFailedToGetVolumeSnapshotContent = ''failed to get VolumeSnapshotContent''"
definition msgUnavailableVolumeSnapshotContentNotReady :: string where
  "msgUnavailableVolumeSnapshotContentNotReady = ''the VolumeSnapshotContent is not yet ready''"
definition msgUnavailableInvalidVolumeSnapshotContentStatus :: string where
  "msgUnavailableInvalidVolumeSnapshotContentStatus =
     ''snapshotHandle is not set in VolumeSnapshotContent status''"
definition msgUnavailableFailedToGetVolumeSnapshotClass :: string where
  "msgUnavailableFailedToGetVolumeSnapshotClass = ''failed to get VolumeSnapshotClass''"
definition msgUnavailableFailedToListVolumeSnapshotClasses :: string where
  "msgUnavailableFailedToListVolumeSnapshotClasses = ''failed to list VolumeSnapshotClasses''"
definition msgUnavailableMultipleDefaultVolumeSnapshotClassesForDriver :: string where
  "msgUnavailableMultipleDefaultVolumeSnapshotClassesForDriver =
     ''multiple default VolumeSnapshotClasses are set for the CSI driver''"
definition msgUnavailableNoDefaultVolumeSnapshotClassForDriver :: string where
  "msgUnavailableNoDefaultVolumeSnapshotClassForDriver =
     ''no default VolumeSnapshotClass is set for the CSI driver''"
definition msgUnavailableInvalidSecretInVolumeSnapshotClass :: string where
  "msgUnavailableInvalidSecretInVolumeSnapshotClass =
     ''invalid snapshotter secret parameters in VolumeSnapshotClass''"
definition msgUnavailableFailedToGetCredentials :: string where
  "msgUnavailableFailedToGetCredentials = ''failed to get credentials''"

subsection \<open>\<open>snapshot.go\<close>\<close>

record vol_snapshot_info =
  vsi_driver_name :: string
  vsi_snapshot_handle :: string
  vsi_source_volume :: string
  vsi_volume_snapshot :: volume_snapshot
  vsi_content_name :: string

text \<open>\<open>p == nil || !*p\<close> of a pointer to a boolean.\<close>

definition unset_or_false :: "bool option \<Rightarrow> bool" where
  "unset_or_false p \<longleftrightarrow> (case p of None \<Rightarrow> True | Some b \<Rightarrow> \<not> b)"

definition getVolumeSnapshot ::
  "cluster \<Rightarrow> log_values \<Rightarrow> string \<Rightarrow> string \<Rightarrow> (server, volume_snapshot) io" where
  "getVolumeSnapshot cl ctx namespace vsName =
     io_bind
       (io_catch (k_call (VolumeSnapshotGet namespace vsName) (\<lambda>h. cl_vs_get cl h namespace vsName))
          (\<lambda>err. io_then (log_error ctx (Some err) msgUnavailableFailedToGetVolumeSnapshot [(''vsName'', LStr vsName)])
             (io_fail (StatusErr Unavailable (msgUnavailableFailedToGetVolumeSnapshot @ '' '' @
                quoted (namespace @ ''/'' @ vsName) @ '': '' @ error_text err)))))
       (\<lambda>vs.
        io_bind (deref (vs_status vs)) (\<lambda>st.
        if unset_or_false (vss_ready_to_use st)
        then io_then (log_error ctx None msgUnavailableVolumeSnapshotNotReady [(''vsName'', LStr vsName)])
               (io_fail (StatusErr Unavailable (msgUnavailableVolumeSnapshotNotReady @ '', name: '' @ vsName)))
        else if vss_bound_content_name st = None
        then io_then (log_error ctx None msgUnavailableInvalidVolumeSnapshotStatus [(''vsName'', LStr vsName)])
               (io_fail (StatusErr Unavailable (msgUnavailableInvalidVolumeSnapshotStatus @ '', name: '' @ vsName)))
        else io_ret vs))"

definition getVolumeSnapshotContent ::
  "cluster \<Rightarrow> log_values \<Rightarrow> string \<Rightarrow> string \<Rightarrow> (server, volume_snapshot_content) io" where
  "getVolumeSnapshotContent cl ctx vscName vsName =
     (let names = [(''vscName'', LStr vscName), (''vsName'', LStr vsName)] in
     io_bind
       (io_catch (k_call (VolumeSnapshotContentGet vscName) (\<lambda>h. cl_vsc_get cl h vscName))
          (\<lambda>err. io_then (log_error ctx (Some err) msgUnavailableFailedToGetVolumeSnapshotContent names)
             (io_fail (StatusErr Unavailable (msgUnavailableFailedToGetVolumeSnapshotContent @ '' '' @
                quoted vscName @ '': '' @ error_text err)))))
       (\<lambda>vsc.
        io_bind (deref (vsc_status vsc)) (\<lambda>st.
        if unset_or_false (vscs_ready_to_use st)
        then io_then (log_error ctx None msgUnavailableVolumeSnapshotContentNotReady names)
               (io_fail (StatusErr Unavailable (msgUnavailableVolumeSnapshotContentNotReady @ '', name: '' @ vscName)))
        else if vscs_snapshot_handle st = None
        then io_then (log_error ctx None msgUnavailableInvalidVolumeSnapshotContentStatus names)
               (io_fail (StatusErr Unavailable (msgUnavailableInvalidVolumeSnapshotContentStatus @ '', name: '' @ vscName)))
        else io_ret vsc)))"

definition getVolSnapshotInfo ::
  "cluster \<Rightarrow> log_values \<Rightarrow> string \<Rightarrow> string \<Rightarrow> (server, vol_snapshot_info) io" where
  "getVolSnapshotInfo cl ctx namespace vsName =
     io_bind (getVolumeSnapshot cl ctx namespace vsName) (\<lambda>vs.
     let sourceVolume = (case vs_source_pvc vs of None \<Rightarrow> [] | Some n \<Rightarrow> n) in
     io_bind (deref (vs_status vs)) (\<lambda>st.
     io_bind (deref (vss_bound_content_name st)) (\<lambda>vscName.
     io_bind (getVolumeSnapshotContent cl ctx vscName vsName) (\<lambda>vsc.
     io_bind (deref (vsc_status vsc)) (\<lambda>cst.
     io_bind (deref (vscs_snapshot_handle cst)) (\<lambda>handle.
     io_ret \<lparr>vsi_driver_name = vsc_driver vsc, vsi_snapshot_handle = handle,
             vsi_source_volume = sourceVolume, vsi_volume_snapshot = vs,
             vsi_content_name = vsc_name vsc\<rparr>))))))"

subsection \<open>\<open>snapshotter_secret.go\<close>\<close>

definition IsDefaultSnapshotClassAnnotation :: string where
  "IsDefaultSnapshotClassAnnotation = ''snapshot.storage.kubernetes.io/is-default-class''"

definition getVolumeSnapshotClass ::
  "cluster \<Rightarrow> log_values \<Rightarrow> string \<Rightarrow> (server, volume_snapshot_class) io" where
  "getVolumeSnapshotClass cl ctx name =
     io_catch (k_call (VolumeSnapshotClassGet name) (\<lambda>h. cl_vsclass_get cl h name))
       (\<lambda>err. io_then (log_error ctx (Some err) msgUnavailableFailedToGetVolumeSnapshotClass
                         [(''volumeSnapshotClassName'', LStr name)])
          (io_fail (StatusErr Unavailable (msgUnavailableFailedToGetVolumeSnapshotClass @ '' '' @
             quoted name @ '': '' @ error_text err))))"

text \<open>The loop over the classes, from index \<open>idx\<close>: \<open>Inl ()\<close> for a second default.\<close>

fun default_class_loop :: "string \<Rightarrow> volume_snapshot_class list \<Rightarrow> int \<Rightarrow> int \<Rightarrow> unit + int" where
  "default_class_loop driver [] idx idxFound = Inr idxFound"
| "default_class_loop driver (vsc # items) idx idxFound =
     (if vsclass_driver vsc \<noteq> driver \<or> vsclass_annotations vsc = None
      then default_class_loop driver items (idx + 1) idxFound
      else (case the (vsclass_annotations vsc) IsDefaultSnapshotClassAnnotation of
              None \<Rightarrow> default_class_loop driver items (idx + 1) idxFound
            | Some annValue \<Rightarrow>
                if annValue = ''true''
                then (if idxFound \<noteq> -1 then Inl ()
                      else default_class_loop driver items (idx + 1) idx)
                else default_class_loop driver items (idx + 1) idxFound))"

definition getDefaultVolumeSnapshotClassForDriver ::
  "cluster \<Rightarrow> log_values \<Rightarrow> string \<Rightarrow> (server, volume_snapshot_class) io" where
  "getDefaultVolumeSnapshotClassForDriver cl ctx driver =
     io_bind
       (io_catch (k_call VolumeSnapshotClassList (cl_vsclass_list cl))
          (\<lambda>err. io_then (log_error ctx (Some err) msgUnavailableFailedToListVolumeSnapshotClasses [])
             (io_fail (StatusErr Unavailable
                (msgUnavailableFailedToListVolumeSnapshotClasses @ '': '' @ error_text err)))))
       (\<lambda>items.
        case default_class_loop driver items 0 (-1) of
          Inl _ \<Rightarrow>
            io_then (log_error ctx None msgUnavailableMultipleDefaultVolumeSnapshotClassesForDriver
                       [(''driver'', LStr driver)])
              (io_fail (StatusErr Unavailable
                 (msgUnavailableMultipleDefaultVolumeSnapshotClassesForDriver @ '' '' @ quoted driver)))
        | Inr idxFound \<Rightarrow>
            if idxFound \<noteq> -1 then io_ret (items ! nat idxFound)
            else io_then (log_error ctx None msgUnavailableNoDefaultVolumeSnapshotClassForDriver
                       [(''driver'', LStr driver)])
              (io_fail (StatusErr Unavailable
                 (msgUnavailableNoDefaultVolumeSnapshotClassForDriver @ '' '' @ quoted driver))))"

definition getSnapshotterSecretRef ::
  "cluster \<Rightarrow> log_values \<Rightarrow> vol_snapshot_info \<Rightarrow> (server, secret_reference option) io" where
  "getSnapshotterSecretRef cl ctx vsi =
     io_bind
       (case vs_class_name (vsi_volume_snapshot vsi) of
          Some name \<Rightarrow> getVolumeSnapshotClass cl ctx name
        | None \<Rightarrow> getDefaultVolumeSnapshotClassForDriver cl ctx (vsi_driver_name vsi))
       (\<lambda>vsClass.
        case GetSecretReference SnapshotterSecretParams (vsclass_parameters vsClass)
               (vsi_content_name vsi) (vsi_volume_snapshot vsi) of
          Inl err \<Rightarrow>
            io_then (log_error ctx (Some err) msgUnavailableInvalidSecretInVolumeSnapshotClass
                       [(''volumeSnapshotClassName'', LStr (vsclass_name vsClass))])
              (io_fail (StatusErr Unavailable
                 (msgUnavailableInvalidSecretInVolumeSnapshotClass @ '': '' @ error_text err)))
        | Inr ref \<Rightarrow> io_ret ref)"

text \<open>\<open>GetCredentials\<close> of the vendored \<open>utils\<close>; the reference is not nil here.\<close>

definition GetCredentials :: "cluster \<Rightarrow> secret_reference \<Rightarrow> (server, string \<rightharpoonup> string) io" where
  "GetCredentials cl ref =
     io_catch (k_call (SecretGet (sr_namespace ref) (sr_name ref))
                 (\<lambda>h. cl_secret_get cl h (sr_namespace ref) (sr_name ref)))
       (\<lambda>err. io_fail (Plain (''error getting secret '' @ sr_name ref @ '' in namespace '' @
          sr_namespace ref @ '': '' @ error_text err)))"

definition getSnapshotterCredentials ::
  "cluster \<Rightarrow> log_values \<Rightarrow> vol_snapshot_info \<Rightarrow> (server, string \<rightharpoonup> string) io" where
  "getSnapshotterCredentials cl ctx vsi =
     io_bind (getSnapshotterSecretRef cl ctx vsi) (\<lambda>secretRef.
     case secretRef of
       None \<Rightarrow> io_ret Map.empty
     | Some ref \<Rightarrow>
         io_catch (GetCredentials cl ref)
           (\<lambda>err. io_then (log_error ctx (Some err) msgUnavailableFailedToGetCredentials [])
              (io_fail (StatusErr Unavailable
                 (msgUnavailableFailedToGetCredentials @ '': '' @ error_text err)))))"

subsection \<open>Lemmas\<close>

fun lookup_event :: "event \<Rightarrow> bool" where
  "lookup_event (LogEntry sev err msg kvs) \<longleftrightarrow> True"
| "lookup_event (VolumeSnapshotGet ns n r) \<longleftrightarrow> True"
| "lookup_event (VolumeSnapshotContentGet n r) \<longleftrightarrow> True"
| "lookup_event (VolumeSnapshotClassGet n r) \<longleftrightarrow> True"
| "lookup_event (VolumeSnapshotClassList r) \<longleftrightarrow> True"
| "lookup_event (SecretGet ns n r) \<longleftrightarrow> True"
| "lookup_event e \<longleftrightarrow> False"

lemma appends_getVolumeSnapshot [appends_rules]:
  "appends lookup_event (getVolumeSnapshot cl ctx ns n)"
  unfolding getVolumeSnapshot_def by (intro appends_rules; simp)

lemma appends_getVolumeSnapshotContent [appends_rules]:
  "appends lookup_event (getVolumeSnapshotContent cl ctx ns n)"
  unfolding getVolumeSnapshotContent_def Let_def by (intro appends_rules; simp)

lemma appends_getVolSnapshotInfo [appends_rules]:
  "appends lookup_event (getVolSnapshotInfo cl ctx ns n)"
  unfolding getVolSnapshotInfo_def Let_def by (intro appends_rules)

lemma appends_getVolumeSnapshotClass [appends_rules]:
  "appends lookup_event (getVolumeSnapshotClass cl ctx n)"
  unfolding getVolumeSnapshotClass_def by (intro appends_rules; simp)

lemma appends_getDefaultVolumeSnapshotClassForDriver [appends_rules]:
  "appends lookup_event (getDefaultVolumeSnapshotClassForDriver cl ctx d)"
  unfolding getDefaultVolumeSnapshotClassForDriver_def by (intro appends_rules; simp)

lemma appends_getSnapshotterSecretRef [appends_rules]:
  "appends lookup_event (getSnapshotterSecretRef cl ctx vsi)"
  unfolding getSnapshotterSecretRef_def by (intro appends_rules; simp)

lemma appends_getSnapshotterCredentials [appends_rules]:
  "appends lookup_event (getSnapshotterCredentials cl ctx vsi)"
  unfolding getSnapshotterCredentials_def GetCredentials_def by (intro appends_rules; simp)

lemma unset_or_false_iff [simp]: "\<not> unset_or_false p \<longleftrightarrow> p = Some True"
  by (auto simp: unset_or_false_def split: option.splits)

lemma unset_or_false_simps [simp]:
  "unset_or_false None" "unset_or_false (Some b) \<longleftrightarrow> \<not> b"
  by (simp_all add: unset_or_false_def)

text \<open>What a successful resolution read, in the order it was read.\<close>

definition snapshot_resolved :: "event list \<Rightarrow> string \<Rightarrow> string \<Rightarrow> vol_snapshot_info \<Rightarrow> bool" where
  "snapshot_resolved es namespace vsName vsi \<longleftrightarrow>
     (\<exists>vs st c vsc cst h.
        es = [VolumeSnapshotGet namespace vsName (Inr vs), VolumeSnapshotContentGet c (Inr vsc)] \<and>
        vs_status vs = Some st \<and> vss_ready_to_use st = Some True \<and> vss_bound_content_name st = Some c \<and>
        vsc_status vsc = Some cst \<and> vscs_ready_to_use cst = Some True \<and> vscs_snapshot_handle cst = Some h \<and>
        vsi_driver_name vsi = vsc_driver vsc \<and> vsi_snapshot_handle vsi = h \<and>
        vsi_volume_snapshot vsi = vs \<and> vsi_content_name vsi = vsc_name vsc \<and>
        vsi_source_volume vsi = (case vs_source_pvc vs of None \<Rightarrow> [] | Some n \<Rightarrow> n))"

text \<open>The two reads of a status that is not there.\<close>

definition nil_status_read :: "event list \<Rightarrow> string \<Rightarrow> string \<Rightarrow> bool" where
  "nil_status_read es namespace vsName \<longleftrightarrow>
     (\<exists>vs. VolumeSnapshotGet namespace vsName (Inr vs) \<in> set es \<and> vs_status vs = None) \<or>
     (\<exists>c vsc. VolumeSnapshotContentGet c (Inr vsc) \<in> set es \<and> vsc_status vsc = None)"

lemma getVolumeSnapshot_cases:
  assumes "getVolumeSnapshot cl ctx ns n s = (r, t)"
  obtains (error) msg es where "r = Inl (Failed (StatusErr Unavailable msg))"
      "t = s\<lparr>events := events s @ es\<rparr>" "\<not> nil_status_read es ns n"
  | (panic) m vs where "r = Inl (Panicked m)" "vs_status vs = None"
      "t = s\<lparr>events := events s @ [VolumeSnapshotGet ns n (Inr vs)]\<rparr>"
  | (ok) vs st c where "r = Inr vs" "vs_status vs = Some st" "vss_ready_to_use st = Some True"
      "vss_bound_content_name st = Some c"
      "t = s\<lparr>events := events s @ [VolumeSnapshotGet ns n (Inr vs)]\<rparr>"
proof (cases "cl_vs_get cl (events s) ns n")
  case (Inl err)
  with assms show ?thesis
    by (intro that(1)) (auto simp: getVolumeSnapshot_def io_run nil_status_read_def)
next
  case (Inr vs)
  note get = Inr
  show ?thesis
  proof (cases "vs_status vs")
    case None
    with get assms show ?thesis by (intro that(2)) (auto simp: getVolumeSnapshot_def io_run)
  next
    case (Some st)
    show ?thesis
    proof (cases "unset_or_false (vss_ready_to_use st)"; cases "vss_bound_content_name st = None")
      assume u: "\<not> unset_or_false (vss_ready_to_use st)" "vss_bound_content_name st \<noteq> None"
      then obtain c where "vss_bound_content_name st = Some c" by blast
      with u get Some assms show ?thesis
        by (intro that(3) [of vs st c]) (auto simp: getVolumeSnapshot_def io_run)
    qed ((insert get Some assms, rule that(1), auto simp: getVolumeSnapshot_def io_run nil_status_read_def)[1])+
  qed
qed

lemma getVolumeSnapshotContent_cases:
  assumes "getVolumeSnapshotContent cl ctx c n s = (r, t)"
  obtains (error) msg es where "r = Inl (Failed (StatusErr Unavailable msg))"
      "t = s\<lparr>events := events s @ es\<rparr>" "\<not> nil_status_read es ns m"
  | (panic) m vsc where "r = Inl (Panicked m)" "vsc_status vsc = None"
      "t = s\<lparr>events := events s @ [VolumeSnapshotContentGet c (Inr vsc)]\<rparr>"
  | (ok) vsc st h where "r = Inr vsc" "vsc_status vsc = Some st" "vscs_ready_to_use st = Some True"
      "vscs_snapshot_handle st = Some h"
      "t = s\<lparr>events := events s @ [VolumeSnapshotContentGet c (Inr vsc)]\<rparr>"
proof (cases "cl_vsc_get cl (events s) c")
  case (Inl err)
  with assms show ?thesis
    by (intro that(1)) (auto simp: getVolumeSnapshotContent_def io_run nil_status_read_def Let_def)
next
  case (Inr vsc)
  note get = Inr
  show ?thesis
  proof (cases "vsc_status vsc")
    case None
    with get assms show ?thesis
      by (intro that(2)) (auto simp: getVolumeSnapshotContent_def io_run Let_def)
  next
    case (Some st)
    show ?thesis
    proof (cases "unset_or_false (vscs_ready_to_use st)"; cases "vscs_snapshot_handle st = None")
      assume u: "\<not> unset_or_false (vscs_ready_to_use st)" "vscs_snapshot_handle st \<noteq> None"
      then obtain h where "vscs_snapshot_handle st = Some h" by blast
      with u get Some assms show ?thesis
        by (intro that(3) [of vsc st h]) (auto simp: getVolumeSnapshotContent_def io_run Let_def)
    qed ((insert get Some assms, rule that(1),
      auto simp: getVolumeSnapshotContent_def io_run Let_def nil_status_read_def)[1])+
  qed
qed

lemma nil_status_read_append:
  "nil_status_read (es @ fs) ns n \<longleftrightarrow> nil_status_read es ns n \<or> nil_status_read fs ns n"
  unfolding nil_status_read_def by auto

lemma getVolSnapshotInfo_cases:
  assumes run: "getVolSnapshotInfo cl ctx ns n s = (r, t)"
  obtains (error) msg es where "r = Inl (Failed (StatusErr Unavailable msg))"
      "t = s\<lparr>events := events s @ es\<rparr>" "\<not> nil_status_read es ns n"
  | (panic) m es where "r = Inl (Panicked m)" "t = s\<lparr>events := events s @ es\<rparr>"
      "nil_status_read es ns n"
  | (ok) vsi es where "r = Inr vsi" "t = s\<lparr>events := events s @ es\<rparr>"
      "snapshot_resolved es ns n vsi" "\<not> nil_status_read es ns n"
proof -
  obtain r1 s1 where a: "getVolumeSnapshot cl ctx ns n s = (r1, s1)" by fastforce
  from a show ?thesis
  proof (cases rule: getVolumeSnapshot_cases)
    case (error msg es)
    with a run show ?thesis by (intro that(1)) (auto simp: getVolSnapshotInfo_def io_run)
  next
    case (panic m vs)
    with a run show ?thesis
      by (intro that(2)) (auto simp: getVolSnapshotInfo_def io_run nil_status_read_def)
  next
    case (ok vs st c)
    note vs = ok
    obtain r2 s2 where b: "getVolumeSnapshotContent cl ctx c n s1 = (r2, s2)" by fastforce
    have run': "(case (r2, s2) of (Inl x, t) \<Rightarrow> (Inl x, t)
        | (Inr vsc, t) \<Rightarrow> io_bind (deref (vsc_status vsc)) (\<lambda>cst.
            io_bind (deref (vscs_snapshot_handle cst)) (\<lambda>handle.
            io_ret \<lparr>vsi_driver_name = vsc_driver vsc, vsi_snapshot_handle = handle,
              vsi_source_volume = (case vs_source_pvc vs of None \<Rightarrow> [] | Some n \<Rightarrow> n),
              vsi_volume_snapshot = vs, vsi_content_name = vsc_name vsc\<rparr>)) t) = (r, t)"
      using run a b vs by (simp add: getVolSnapshotInfo_def io_run Let_def)
    let ?e = "VolumeSnapshotGet ns n (Inr vs)"
    from b show ?thesis
    proof (cases rule: getVolumeSnapshotContent_cases [where ns = ns and m = n])
      case (error msg es)
      with vs run' show ?thesis
        by (intro that(1) [of msg "?e # es"]) (auto simp: nil_status_read_def)
    next
      case (panic m vsc)
      with vs run' show ?thesis
        by (intro that(2) [of m "[?e, VolumeSnapshotContentGet c (Inr vsc)]"])
          (auto simp: nil_status_read_def)
    next
      case (ok vsc cst h)
      with vs run' show ?thesis
        by (intro that(3) [of _ "[?e, VolumeSnapshotContentGet c (Inr vsc)]"])
          (auto simp: io_run snapshot_resolved_def nil_status_read_def)
    qed
  qed
qed

subsection \<open>Default classes\<close>

definition is_default_class :: "string \<Rightarrow> volume_snapshot_class \<Rightarrow> bool" where
  "is_default_class driver vsc \<longleftrightarrow> vsclass_driver vsc = driver \<and>
     (\<exists>m. vsclass_annotations vsc = Some m \<and> m IsDefaultSnapshotClassAnnotation = Some ''true'')"

lemma default_class_loop_Cons:
  "default_class_loop driver (vsc # items) idx idxFound =
     (if is_default_class driver vsc
      then (if idxFound \<noteq> -1 then Inl () else default_class_loop driver items (idx + 1) idx)
      else default_class_loop driver items (idx + 1) idxFound)"
  by (auto simp: is_default_class_def split: option.splits)

declare default_class_loop.simps(2) [simp del]

lemma default_class_loop_found:
  "found \<noteq> -1 \<Longrightarrow> 0 \<le> idx \<Longrightarrow> default_class_loop driver items idx found =
     (if filter (is_default_class driver) items = [] then Inr found else Inl ())"
  by (induction items arbitrary: idx) (auto simp: default_class_loop_Cons)

lemma default_class_loop_spec:
  "0 \<le> idx \<Longrightarrow> case filter (is_default_class driver) items of
     [] \<Rightarrow> default_class_loop driver items idx (-1) = Inr (-1)
   | [c] \<Rightarrow> (\<exists>i < length items. items ! i = c \<and>
              default_class_loop driver items idx (-1) = Inr (idx + int i))
   | _ \<Rightarrow> default_class_loop driver items idx (-1) = Inl ()"
proof (induction items arbitrary: idx)
  case Nil
  then show ?case by simp
next
  case (Cons x items)
  show ?case
  proof (cases "is_default_class driver x")
    case True
    have "default_class_loop driver (x # items) idx (-1) =
        (if filter (is_default_class driver) items = [] then Inr idx else Inl ())"
      using True Cons.prems by (simp add: default_class_loop_Cons default_class_loop_found)
    with True show ?thesis by (auto split: list.splits intro: exI [of _ 0])
  next
    case False
    with Cons.IH [of "idx + 1"] Cons.prems show ?thesis
      by (auto simp: default_class_loop_Cons split: list.splits intro: exI [of _ "Suc _"])
  qed
qed

lemma getDefaultVolumeSnapshotClassForDriver_cases:
  assumes run: "getDefaultVolumeSnapshotClassForDriver cl ctx driver s = (r, t)"
  obtains (list_error) err where "cl_vsclass_list cl (events s) = Inl err"
      "r = Inl (Failed (StatusErr Unavailable
         (msgUnavailableFailedToListVolumeSnapshotClasses @ '': '' @ error_text err)))"
  | (none) items where "cl_vsclass_list cl (events s) = Inr items"
      "filter (is_default_class driver) items = []"
      "r = Inl (Failed (StatusErr Unavailable
         (msgUnavailableNoDefaultVolumeSnapshotClassForDriver @ '' '' @ quoted driver)))"
  | (unique) items c where "cl_vsclass_list cl (events s) = Inr items"
      "filter (is_default_class driver) items = [c]" "r = Inr c"
      "t = s\<lparr>events := events s @ [VolumeSnapshotClassList (Inr items)]\<rparr>"
  | (multiple) items where "cl_vsclass_list cl (events s) = Inr items"
      "1 < length (filter (is_default_class driver) items)"
      "r = Inl (Failed (StatusErr Unavailable
         (msgUnavailableMultipleDefaultVolumeSnapshotClassesForDriver @ '' '' @ quoted driver)))"
proof (cases "cl_vsclass_list cl (events s)")
  case (Inl err)
  with run show ?thesis
    by (intro that(1)) (auto simp: getDefaultVolumeSnapshotClassForDriver_def io_run)
next
  case (Inr items)
  note spec = default_class_loop_spec [of 0 driver items]
  note run' = run [unfolded getDefaultVolumeSnapshotClassForDriver_def io_run]
  consider "filter (is_default_class driver) items = []"
    | c where "filter (is_default_class driver) items = [c]"
    | c d cs where "filter (is_default_class driver) items = c # d # cs"
    by (metis list.exhaust)
  then show ?thesis
  proof cases
    case 1
    with Inr spec run' show ?thesis by (intro that(2)) (auto simp: io_run)
  next
    case (2 c)
    with spec obtain i where "i < length items" "items ! i = c"
        "default_class_loop driver items 0 (-1) = Inr (int i)" by auto
    with Inr 2 run' show ?thesis by (intro that(3)) (auto simp: io_run)
  next
    case (3 c d cs)
    with Inr spec run' show ?thesis by (intro that(4)) (auto simp: io_run)
  qed
qed

subsection \<open>Properties\<close>

text \<open>
  C35. Resolving a snapshot has three outcomes. It succeeds after reading exactly the named
  \<open>VolumeSnapshot\<close> and the content its status names, both ready to use, and the result has the
  driver and the handle of that content. It fails with Unavailable. Or it panics, exactly when
  one of the two objects was read and had no status: the server checks neither for nil.
\<close>
theorem getVolSnapshotInfo_spec:
  assumes "getVolSnapshotInfo cl ctx ns n s = (r, t)"
  shows "\<exists>es. t = s\<lparr>events := events s @ es\<rparr> \<and>
    (\<forall>vsi. r = Inr vsi \<longrightarrow> snapshot_resolved es ns n vsi) \<and>
    (\<forall>e. r = Inl (Failed e) \<longrightarrow> wire_code (Some e) = Unavailable) \<and>
    ((\<exists>m. r = Inl (Panicked m)) \<longleftrightarrow> nil_status_read es ns n)"
  using assms by (cases rule: getVolSnapshotInfo_cases) auto

lemma cluster_example_resolves:
  "getVolSnapshotInfo cluster_example [] ''ns'' ''snap'' server_example =
    (Inr \<lparr>vsi_driver_name = ''driver'', vsi_snapshot_handle = ''handle'', vsi_source_volume = ''pvc'',
      vsi_volume_snapshot = \<lparr>vs_namespace = ''ns'', vs_name = ''snap'', vs_uid = ''uid'',
        vs_source_pvc = Some ''pvc'', vs_class_name = Some ''class'',
        vs_status = Some \<lparr>vss_bound_content_name = Some ''content'', vss_ready_to_use = Some True\<rparr>\<rparr>,
      vsi_content_name = ''content''\<rparr>,
     snd (getVolSnapshotInfo cluster_example [] ''ns'' ''snap'' server_example))"
  by (simp add: getVolSnapshotInfo_def getVolumeSnapshot_def getVolumeSnapshotContent_def io_run
      Let_def cluster_example_def unset_or_false_def)

theorem getVolSnapshotInfo_spec_witness:
  "\<exists>es vsi. snapshot_resolved es ''ns'' ''snap'' vsi \<and> vsi_snapshot_handle vsi = ''handle''"
proof -
  from getVolSnapshotInfo_spec [OF cluster_example_resolves] obtain es vsi
    where "snapshot_resolved es ''ns'' ''snap'' vsi" and "vsi_snapshot_handle vsi = ''handle''"
    by force
  then show ?thesis by blast
qed

text \<open>
  Without a class in the snapshot, the class whose secret is used is the one class of the
  driver that carries the default annotation with the value \<open>true\<close>: it is returned exactly
  when there is one such class in the list the API server returned, otherwise the error says
  whether there is none or more than one.
\<close>
theorem getDefaultVolumeSnapshotClassForDriver_spec:
  assumes "cl_vsclass_list cl (events s) = Inr items"
  shows "fst (getDefaultVolumeSnapshotClassForDriver cl ctx driver s) =
    (case filter (is_default_class driver) items of
       [] \<Rightarrow> Inl (Failed (StatusErr Unavailable
               (msgUnavailableNoDefaultVolumeSnapshotClassForDriver @ '' '' @ quoted driver)))
     | [c] \<Rightarrow> Inr c
     | _ \<Rightarrow> Inl (Failed (StatusErr Unavailable
               (msgUnavailableMultipleDefaultVolumeSnapshotClassesForDriver @ '' '' @ quoted driver))))"
proof -
  obtain r t where run: "getDefaultVolumeSnapshotClassForDriver cl ctx driver s = (r, t)" by fastforce
  then show ?thesis
    by (cases rule: getDefaultVolumeSnapshotClassForDriver_cases)
      (use run assms in \<open>auto split: list.splits\<close>)
qed

definition default_class_example :: volume_snapshot_class where
  "default_class_example =
     \<lparr>vsclass_name = ''c'', vsclass_driver = ''driver'',
      vsclass_annotations = Some [IsDefaultSnapshotClassAnnotation \<mapsto> ''true''],
      vsclass_parameters = Map.empty\<rparr>"

theorem getDefaultVolumeSnapshotClassForDriver_spec_witness:
  "fst (getDefaultVolumeSnapshotClassForDriver
     (cluster_example\<lparr>cl_vsclass_list := \<lambda>h. Inr [default_class_example\<lparr>vsclass_driver := ''other''\<rparr>,
        default_class_example, default_class_example\<lparr>vsclass_annotations := None\<rparr>]\<rparr>)
     [] ''driver'' server_example) = Inr default_class_example"
proof -
  let ?items = "[default_class_example\<lparr>vsclass_driver := ''other''\<rparr>,
        default_class_example, default_class_example\<lparr>vsclass_annotations := None\<rparr>]"
  have "filter (is_default_class ''driver'') ?items = [default_class_example]"
    by (simp add: is_default_class_def default_class_example_def)
  moreover have "cl_vsclass_list (cluster_example\<lparr>cl_vsclass_list := \<lambda>h. Inr ?items\<rparr>)
      (events server_example) = Inr ?items" by simp
  ultimately show ?thesis
    by (simp only: getDefaultVolumeSnapshotClassForDriver_spec list.case)
qed

end
