(* ===== verification/Streaming.thy ===== *)
theory Streaming
  imports Snapshot
begin

text \<open>
  The streaming loops of \<open>get_metadata_allocated.go\<close> and \<open>get_metadata_delta.go\<close>: every message the
  CSI driver sends is converted and passed on to the client before the next one is received. The
  stream of the driver gives what its \<open>n\<close>-th \<open>Recv\<close> returns; the stream to the client answers a
  \<open>Send\<close> as a function of what happened before, or does not answer: \<open>ServerStream.SendMsg\<close> blocks
  while the flow control window of the client is full, for ever if the client neither reads nor
  goes away. A loop need not end, so both are partial functions, with \<open>None\<close> for a loop that never
  returns.
\<close>

subsection \<open>Messages\<close>

definition msgInternalFailedCSIDriverResponse :: string where
  "msgInternalFailedCSIDriverResponse = ''failed to get response from CSI driver''"
definition msgInternalFailedToSendResponse :: string where
  "msgInternalFailedToSendResponse = ''failed to send response''"

definition msgInternalFailedCSIDriverResponseFmt :: "gerr \<Rightarrow> string" where
  "msgInternalFailedCSIDriverResponseFmt err =
     msgInternalFailedCSIDriverResponse @ '': '' @ error_text err"
definition msgInternalFailedToSendResponseFmt :: "gerr \<Rightarrow> string" where
  "msgInternalFailedToSendResponseFmt err =
     msgInternalFailedToSendResponse @ '': '' @ error_text err"

type_synonym csi_stream = "nat \<Rightarrow> csi_metadata_response recv"

datatype send_result = SendReturns "gerr option" | SendBlocks

type_synonym client_stream = "event list \<Rightarrow> metadata_response \<Rightarrow> send_result"

definition convertToGetMetadataAllocatedResponse :: "csi_metadata_response \<Rightarrow> metadata_response" where
  "convertToGetMetadataAllocatedResponse csiResp =
     \<lparr>block_metadata_type = csi_block_metadata_type csiResp,
      volume_capacity_bytes = csi_volume_capacity_bytes csiResp,
      block_metadata =
        map (\<lambda>b. \<lparr>byte_offset = csi_byte_offset b, size_bytes = csi_size_bytes b\<rparr>)
          (csi_block_metadata csiResp)\<rparr>"

definition convertToGetMetadataDeltaResponse :: "csi_metadata_response \<Rightarrow> metadata_response" where
  "convertToGetMetadataDeltaResponse csiResp =
     \<lparr>block_metadata_type = csi_block_metadata_type csiResp,
      volume_capacity_bytes = csi_volume_capacity_bytes csiResp,
      block_metadata =
        map (\<lambda>b. \<lparr>byte_offset = csi_byte_offset b, size_bytes = csi_size_bytes b\<rparr>)
          (csi_block_metadata csiResp)\<rparr>"

subsection \<open>The variables of a loop\<close>

record stream_vars =
  sv_blockMetadataType :: block_metadata_type
  sv_lastByteOffset :: int64
  sv_lastSize :: int64
  sv_responseNum :: int64
  sv_volumeCapacityBytes :: int64

definition stream_init :: stream_vars where
  "stream_init =
     \<lparr>sv_blockMetadataType = BlockMetadataType_UNKNOWN, sv_lastByteOffset = 0, sv_lastSize = 0,
      sv_responseNum = 0, sv_volumeCapacityBytes = 0\<rparr>"

definition note_response :: "metadata_response \<Rightarrow> stream_vars \<Rightarrow> stream_vars" where
  "note_response clientResp v =
     (let v1 = v\<lparr>sv_responseNum := sv_responseNum v + 1,
                 sv_blockMetadataType := block_metadata_type clientResp,
                 sv_volumeCapacityBytes := volume_capacity_bytes clientResp\<rparr>;
          numBlockMetadata = int (length (block_metadata clientResp)) - 1 in
      if 0 \<le> numBlockMetadata
      then v1\<lparr>sv_lastByteOffset := byte_offset (block_metadata clientResp ! nat numBlockMetadata),
              sv_lastSize := size_bytes (block_metadata clientResp ! nat numBlockMetadata)\<rparr>
      else v1)"

text \<open>The values of the log entries; the entry of a failed \<open>Send\<close> names the number differently.\<close>

definition stream_values :: "string \<Rightarrow> stream_vars \<Rightarrow> log_values" where
  "stream_values numKey v =
     [(''blockMetadataType'', LStr (BlockMetadataType_String (sv_blockMetadataType v))),
      (''lastByteOffset'', LInt (sint (sv_lastByteOffset v))),
      (''lastSize'', LInt (sint (sv_lastSize v))),
      (numKey, LInt (sint (sv_responseNum v))),
      (''volumeCapacityBytes'', LInt (sint (sv_volumeCapacityBytes v)))]"

definition block_metadata_text :: "block_metadata list \<Rightarrow> string" where
  "block_metadata_text bs =
     ''['' @ concat (map (\<lambda>b. ''{'' @ int_dec (sint (byte_offset b)) @ '','' @
        int_dec (sint (size_bytes b)) @ ''}'') bs) @ '']''"

definition response_values :: "metadata_response \<Rightarrow> stream_vars \<Rightarrow> log_values" where
  "response_values clientResp v =
     [(''blockMetadataType'', LStr (BlockMetadataType_String (sv_blockMetadataType v))),
      (''responseNum'', LInt (sint (sv_responseNum v))),
      (''volumeCapacityBytes'', LInt (sint (sv_volumeCapacityBytes v))),
      (''blockMetadata'', LStr (block_metadata_text (block_metadata clientResp))),
      (''numBlockMetadata'', LInt (int (length (block_metadata clientResp))))]"

subsection \<open>The loops\<close>

definition after :: "(server, unit) io \<Rightarrow> server \<Rightarrow> server" where
  "after m s = snd (m s)"

partial_function (option) streamGetMetadataAllocatedResponse ::
  "log_values \<Rightarrow> client_stream \<Rightarrow> csi_stream \<Rightarrow> nat \<Rightarrow> stream_vars \<Rightarrow> server \<Rightarrow>
     (gerr option \<times> server) option" where
  [code]: "streamGetMetadataAllocatedResponse ctx send csiStream n v s =
     (let s1 = after (emit (CsiRecv (csiStream n))) s in
      case csiStream n of
        RecvEOF \<Rightarrow>
          Some (None, after (log_info_v HandlerTraceLogLevel ctx ''stream EOF''
                               (stream_values ''lastResponseNum'' v)) s1)
      | RecvErr err \<Rightarrow>
          Some (statusPassOrWrapError (Some err) Internal
                  (msgInternalFailedCSIDriverResponseFmt err),
                after (log_error ctx (Some err) msgInternalFailedCSIDriverResponse
                         (stream_values ''lastResponseNum'' v)) s1)
      | RecvMsg csiResp \<Rightarrow>
          (let clientResp = convertToGetMetadataAllocatedResponse csiResp;
               v1 = note_response clientResp v;
               s2 = after (log_info_v HandlerDetailedTraceLogLevel ctx ''stream response''
                             (response_values clientResp v1)) s1 in
           case send (events s2) clientResp of
             SendBlocks \<Rightarrow> None
           | SendReturns sendErr \<Rightarrow>
          (let s3 = after (emit (ClientSend clientResp sendErr)) s2 in
           case sendErr of
             Some err \<Rightarrow>
               Some (statusPassOrWrapError (Some err) Internal
                       (msgInternalFailedToSendResponseFmt err),
                     after (log_error ctx (Some err) msgInternalFailedToSendResponse
                              (stream_values ''responseNum'' v1)) s3)
           | None \<Rightarrow> streamGetMetadataAllocatedResponse ctx send csiStream (Suc n) v1 s3)))"

partial_function (option) streamGetMetadataDeltaResponse ::
  "log_values \<Rightarrow> client_stream \<Rightarrow> csi_stream \<Rightarrow> nat \<Rightarrow> stream_vars \<Rightarrow> server \<Rightarrow>
     (gerr option \<times> server) option" where
  [code]: "streamGetMetadataDeltaResponse ctx send csiStream n v s =
     (let s1 = after (emit (CsiRecv (csiStream n))) s in
      case csiStream n of
        RecvEOF \<Rightarrow>
          Some (None, after (log_info_v HandlerTraceLogLevel ctx ''stream EOF''
                               (stream_values ''lastResponseNum'' v)) s1)
      | RecvErr err \<Rightarrow>
          Some (statusPassOrWrapError (Some err) Internal
                  (msgInternalFailedCSIDriverResponseFmt err),
                after (log_error ctx (Some err) msgInternalFailedCSIDriverResponse
                         (stream_values ''lastResponseNum'' v)) s1)
      | RecvMsg csiResp \<Rightarrow>
          (let clientResp = convertToGetMetadataDeltaResponse csiResp;
               v1 = note_response clientResp v;
               s2 = after (log_info_v HandlerDetailedTraceLogLevel ctx ''stream response''
                             (response_values clientResp v1)) s1 in
           case send (events s2) clientResp of
             SendBlocks \<Rightarrow> None
           | SendReturns sendErr \<Rightarrow>
          (let s3 = after (emit (ClientSend clientResp sendErr)) s2 in
           case sendErr of
             Some err \<Rightarrow>
               Some (statusPassOrWrapError (Some err) Internal
                       (msgInternalFailedToSendResponseFmt err),
                     after (log_error ctx (Some err) msgInternalFailedToSendResponse
                              (stream_values ''responseNum'' v1)) s3)
           | None \<Rightarrow> streamGetMetadataDeltaResponse ctx send csiStream (Suc n) v1 s3)))"

subsection \<open>The contract of a relay\<close>

text \<open>One round of a loop: it returns (\<open>Inl\<close>) or goes on (\<open>Inr\<close>), unless its \<open>Send\<close> blocks (\<open>None\<close>).\<close>

definition relay_step ::
  "(csi_metadata_response \<Rightarrow> metadata_response) \<Rightarrow> log_values \<Rightarrow> client_stream \<Rightarrow>
     csi_metadata_response recv \<Rightarrow> stream_vars \<Rightarrow> server \<Rightarrow>
     ((gerr option \<times> server) + (stream_vars \<times> server)) option" where
  "relay_step conv ctx send rcv v s =
     (let s1 = after (emit (CsiRecv rcv)) s in
      case rcv of
        RecvEOF \<Rightarrow>
          Some (Inl (None, after (log_info_v HandlerTraceLogLevel ctx ''stream EOF''
                              (stream_values ''lastResponseNum'' v)) s1))
      | RecvErr err \<Rightarrow>
          Some (Inl (statusPassOrWrapError (Some err) Internal
                 (msgInternalFailedCSIDriverResponseFmt err),
               after (log_error ctx (Some err) msgInternalFailedCSIDriverResponse
                        (stream_values ''lastResponseNum'' v)) s1))
      | RecvMsg m \<Rightarrow>
          (let v1 = note_response (conv m) v;
               s2 = after (log_info_v HandlerDetailedTraceLogLevel ctx ''stream response''
                             (response_values (conv m) v1)) s1 in
           case send (events s2) (conv m) of
             SendBlocks \<Rightarrow> None
           | SendReturns (Some err) \<Rightarrow>
               Some (Inl (statusPassOrWrapError (Some err) Internal
                      (msgInternalFailedToSendResponseFmt err),
                    after (log_error ctx (Some err) msgInternalFailedToSendResponse
                             (stream_values ''responseNum'' v1))
                      (after (emit (ClientSend (conv m) (Some err))) s2)))
           | SendReturns None \<Rightarrow> Some (Inr (v1, after (emit (ClientSend (conv m) None)) s2))))"

text \<open>The stream operations of a trace, without the log entries.\<close>

fun stream_event :: "event \<Rightarrow> bool" where
  "stream_event (CsiRecv r) \<longleftrightarrow> True"
| "stream_event (ClientSend m r) \<longleftrightarrow> True"
| "stream_event e \<longleftrightarrow> False"

fun relay_event :: "event \<Rightarrow> bool" where
  "relay_event (CsiRecv r) \<longleftrightarrow> True"
| "relay_event (ClientSend m r) \<longleftrightarrow> True"
| "relay_event (LogEntry sev err msg kvs) \<longleftrightarrow> True"
| "relay_event e \<longleftrightarrow> False"

text \<open>
  The relay of a stream from its \<open>n\<close>-th message: some messages are received and sent, one
  after the other; then the stream ends, or it fails, or the client does.
\<close>

inductive relayed ::
  "(csi_metadata_response \<Rightarrow> metadata_response) \<Rightarrow> csi_stream \<Rightarrow> nat \<Rightarrow> event list \<Rightarrow>
     gerr option \<Rightarrow> bool"
  for conv csi where
  eof: "csi n = RecvEOF \<Longrightarrow> relayed conv csi n [CsiRecv RecvEOF] None"
| recv_error: "csi n = RecvErr e \<Longrightarrow> relayed conv csi n [CsiRecv (RecvErr e)]
    (statusPassOrWrapError (Some e) Internal (msgInternalFailedCSIDriverResponseFmt e))"
| send_error: "csi n = RecvMsg m \<Longrightarrow>
    relayed conv csi n [CsiRecv (RecvMsg m), ClientSend (conv m) (Some e)]
    (statusPassOrWrapError (Some e) Internal (msgInternalFailedToSendResponseFmt e))"
| message: "csi n = RecvMsg m \<Longrightarrow> relayed conv csi (Suc n) tr err \<Longrightarrow>
    relayed conv csi n (CsiRecv (RecvMsg m) # ClientSend (conv m) None # tr) err"

inductive_cases relayed_ok: "relayed conv csi n tr None"
inductive_simps relayed_iff: "relayed conv csi n tr err"

text \<open>The messages the client got.\<close>

fun delivered :: "event list \<Rightarrow> metadata_response list" where
  "delivered [] = []"
| "delivered (ClientSend m None # es) = m # delivered es"
| "delivered (e # es) = delivered es"

lemma delivered_append [simp]: "delivered (es @ fs) = delivered es @ delivered fs"
  by (induction es rule: delivered.induct) auto

lemma delivered_filter [simp]: "delivered (filter stream_event es) = delivered es"
  by (induction es rule: delivered.induct) auto

lemma after_simps [simp]:
  "after (emit e) s = s\<lparr>events := events s @ [e]\<rparr>"
  "after (log_error ctx err msg kvs) s = s\<lparr>events := events s @ [LogEntry ErrorLog err msg (ctx @ kvs)]\<rparr>"
  by (simp_all add: after_def io_run)

lemma after_log_info_v:
  obtains es where "after (log_info_v k ctx msg kvs) s = s\<lparr>events := events s @ es\<rparr>"
    "filter stream_event es = []" "list_all relay_event es" 
proof (cases "k \<le> klog_v s")
  case True
  then show thesis
    by (intro that [of "[LogEntry InfoLog None msg (ctx @ kvs)]"]) (simp_all add: after_def io_run)
next
  case False
  then show thesis by (intro that [of "[]"]) (simp_all add: after_def io_run)
qed

lemma statusPassOrWrapError_Some [simp]: "statusPassOrWrapError (Some e) c m \<noteq> None"
  by (simp add: statusPassOrWrapError_def Let_def)

lemma relayed_delivered:
  "relayed conv csi n tr err \<Longrightarrow>
     (\<exists>msgs. (\<forall>i < length msgs. csi (n + i) = RecvMsg (msgs ! i)) \<and> delivered tr = map conv msgs \<and>
        (err = None \<longrightarrow> csi (n + length msgs) = RecvEOF))"
proof (induction rule: relayed.induct)
  case (message n m tr err)
  then obtain msgs where IH: "\<forall>i < length msgs. csi (Suc n + i) = RecvMsg (msgs ! i)"
      "delivered tr = map conv msgs" "err = None \<longrightarrow> csi (Suc n + length msgs) = RecvEOF" by blast
  with message show ?case
    by (intro exI [of _ "m # msgs"]) (auto simp: less_Suc_eq_0_disj)
qed (auto intro!: exI [of _ "[]"])

lemma relay_step_Inl:
  assumes "relay_step conv ctx send (csi n) v s = Some (Inl (err, t))"
  shows "\<exists>es. t = s\<lparr>events := events s @ es\<rparr> \<and> list_all relay_event es \<and>
     relayed conv csi n (filter stream_event es) err"
proof (cases "csi n")
  case (RecvMsg m)
  let ?s1 = "s\<lparr>events := events s @ [CsiRecv (RecvMsg m)]\<rparr>"
  obtain fs where fs: "after (log_info_v HandlerDetailedTraceLogLevel ctx ''stream response''
        (response_values (conv m) (note_response (conv m) v))) ?s1 = ?s1\<lparr>events := events ?s1 @ fs\<rparr>"
      "filter stream_event fs = []" "list_all relay_event fs"
    by (rule after_log_info_v)
  then obtain e where e: "send (events s @ CsiRecv (RecvMsg m) # fs) (conv m) = SendReturns (Some e)"
    using assms RecvMsg by (auto simp: relay_step_def Let_def split: option.splits send_result.splits)
  let ?log = "LogEntry ErrorLog (Some e) msgInternalFailedToSendResponse
    (ctx @ stream_values ''responseNum'' (note_response (conv m) v))"
  show ?thesis
    by (rule exI [of _ "CsiRecv (RecvMsg m) # fs @ [ClientSend (conv m) (Some e), ?log]"])
      (use assms RecvMsg fs e in \<open>auto simp: relay_step_def Let_def intro: relayed.send_error\<close>)
next
  case RecvEOF
  let ?s1 = "s\<lparr>events := events s @ [CsiRecv RecvEOF]\<rparr>"
  obtain fs where fs: "after (log_info_v HandlerTraceLogLevel ctx ''stream EOF''
        (stream_values ''lastResponseNum'' v)) ?s1 = ?s1\<lparr>events := events ?s1 @ fs\<rparr>"
      "filter stream_event fs = []" "list_all relay_event fs"
    by (rule after_log_info_v)
  then show ?thesis
    by (intro exI [of _ "CsiRecv RecvEOF # fs"])
      (use assms RecvEOF in \<open>auto simp: relay_step_def intro: relayed.eof\<close>)
next
  case (RecvErr e)
  let ?log = "LogEntry ErrorLog (Some e) msgInternalFailedCSIDriverResponse
    (ctx @ stream_values ''lastResponseNum'' v)"
  show ?thesis
    by (rule exI [of _ "[CsiRecv (RecvErr e), ?log]"])
      (use assms RecvErr in \<open>auto simp: relay_step_def intro: relayed.recv_error\<close>)
qed

lemma relay_step_Inr:
  assumes "relay_step conv ctx send (csi n) v s = Some (Inr (v', s'))"
    and "\<exists>es. t = s'\<lparr>events := events s' @ es\<rparr> \<and> list_all relay_event es \<and>
     relayed conv csi (Suc n) (filter stream_event es) err"
  shows "\<exists>es. t = s\<lparr>events := events s @ es\<rparr> \<and> list_all relay_event es \<and>
     relayed conv csi n (filter stream_event es) err"
proof (cases "csi n")
  case (RecvMsg m)
  let ?s1 = "s\<lparr>events := events s @ [CsiRecv (RecvMsg m)]\<rparr>"
  obtain fs where fs: "after (log_info_v HandlerDetailedTraceLogLevel ctx ''stream response''
        (response_values (conv m) (note_response (conv m) v))) ?s1 = ?s1\<lparr>events := events ?s1 @ fs\<rparr>"
      "filter stream_event fs = []" "list_all relay_event fs"
    by (rule after_log_info_v)
  then have sent: "send (events s @ CsiRecv (RecvMsg m) # fs) (conv m) = SendReturns None"
    using assms RecvMsg by (auto simp: relay_step_def Let_def split: option.splits send_result.splits)
  obtain es where es: "t = s'\<lparr>events := events s' @ es\<rparr>" "list_all relay_event es"
      "relayed conv csi (Suc n) (filter stream_event es) err"
    using assms(2) by blast
  show ?thesis
    by (rule exI [of _ "CsiRecv (RecvMsg m) # fs @ ClientSend (conv m) None # es"])
      (use assms(1) RecvMsg fs sent es in \<open>auto simp: relay_step_def Let_def intro: relayed.message\<close>)
qed (use assms in \<open>simp_all add: relay_step_def\<close>)

text \<open>
  A relay that stands still: it passed on some messages, and the \<open>Send\<close> of the next one, among the
  first \<open>k\<close>, does not return.
\<close>

definition send_blocked ::
  "(csi_metadata_response \<Rightarrow> metadata_response) \<Rightarrow> client_stream \<Rightarrow> csi_stream \<Rightarrow> nat \<Rightarrow> nat \<Rightarrow>
     server \<Rightarrow> bool" where
  "send_blocked conv send csi n k s \<longleftrightarrow>
     (\<exists>msgs m es. length msgs < k \<and> (\<forall>i < length msgs. csi (n + i) = RecvMsg (msgs ! i)) \<and>
        csi (n + length msgs) = RecvMsg m \<and> delivered es = map conv msgs \<and>
        send (events s @ es) (conv m) = SendBlocks)"

lemma relay_step_exhaust:
  obtains (blocks) "r = None" | (returns) ret where "r = Some (Inl ret)"
  | (goes_on) v s where "r = Some (Inr (v, s))"
  by (metis old.sum.exhaust option.exhaust surj_pair)

lemma delivered_logs: "filter stream_event es = [] \<Longrightarrow> delivered es = []"
  by (metis delivered.simps(1) delivered_filter)

lemma relay_step_blocks:
  assumes "relay_step conv ctx send (csi n) v s = None"
  shows "send_blocked conv send csi n (Suc k) s"
proof (cases "csi n")
  case (RecvMsg m)
  let ?s1 = "s\<lparr>events := events s @ [CsiRecv (RecvMsg m)]\<rparr>"
  obtain fs where fs: "after (log_info_v HandlerDetailedTraceLogLevel ctx ''stream response''
        (response_values (conv m) (note_response (conv m) v))) ?s1 = ?s1\<lparr>events := events ?s1 @ fs\<rparr>"
      "filter stream_event fs = []"
    by (rule after_log_info_v)
  then have "send (events s @ CsiRecv (RecvMsg m) # fs) (conv m) = SendBlocks"
    using assms RecvMsg by (auto simp: relay_step_def Let_def split: option.splits send_result.splits)
  with RecvMsg delivered_logs [OF fs(2)] show ?thesis unfolding send_blocked_def
    by (intro exI [of _ "[]"] exI [of _ m] exI [of _ "CsiRecv (RecvMsg m) # fs"]) simp
qed (use assms in \<open>simp_all add: relay_step_def\<close>)

lemma relay_step_blocked:
  assumes step: "relay_step conv ctx send (csi n) v s = Some (Inr (v', s'))"
    and blocked: "send_blocked conv send csi (Suc n) k s'"
  shows "send_blocked conv send csi n (Suc k) s"
proof (cases "csi n")
  case (RecvMsg m)
  let ?s1 = "s\<lparr>events := events s @ [CsiRecv (RecvMsg m)]\<rparr>"
  obtain fs where fs: "after (log_info_v HandlerDetailedTraceLogLevel ctx ''stream response''
        (response_values (conv m) (note_response (conv m) v))) ?s1 = ?s1\<lparr>events := events ?s1 @ fs\<rparr>"
      "filter stream_event fs = []"
    by (rule after_log_info_v)
  then have s': "events s' = events s @ CsiRecv (RecvMsg m) # fs @ [ClientSend (conv m) None]"
    using step RecvMsg by (auto simp: relay_step_def Let_def split: option.splits send_result.splits)
  obtain msgs m' es where b: "length msgs < k" "\<forall>i < length msgs. csi (Suc n + i) = RecvMsg (msgs ! i)"
      "csi (Suc n + length msgs) = RecvMsg m'" "delivered es = map conv msgs"
      "send (events s' @ es) (conv m') = SendBlocks"
    using blocked unfolding send_blocked_def by blast
  have "\<forall>i < length (m # msgs). csi (n + i) = RecvMsg ((m # msgs) ! i)"
    using RecvMsg b(2) by (auto simp: less_Suc_eq_0_disj)
  with b s' delivered_logs [OF fs(2)] show ?thesis unfolding send_blocked_def
    by (intro exI [of _ "m # msgs"] exI [of _ m']
        exI [of _ "CsiRecv (RecvMsg m) # fs @ ClientSend (conv m) None # es"]) simp
qed (use step in \<open>simp_all add: relay_step_def\<close>)

text \<open>
  A loop that relays: it runs the rounds one after the other, and it returns only by
  returning from a round.
\<close>

locale stream_relay =
  fixes conv :: "csi_metadata_response \<Rightarrow> metadata_response"
    and loop :: "log_values \<Rightarrow> client_stream \<Rightarrow> csi_stream \<Rightarrow> nat \<Rightarrow> stream_vars \<Rightarrow> server \<Rightarrow>
      (gerr option \<times> server) option"
  assumes loop_step: "loop ctx send csi n v s =
      (case relay_step conv ctx send (csi n) v s of
         None \<Rightarrow> None | Some (Inl ret) \<Rightarrow> Some ret
       | Some (Inr (v', s')) \<Rightarrow> loop ctx send csi (Suc n) v' s')"
    and loop_induct: "loop ctx send csi n v s = Some ret \<Longrightarrow>
      (\<And>n v s ret. relay_step conv ctx send (csi n) v s = Some (Inl ret) \<Longrightarrow> P n v s ret) \<Longrightarrow>
      (\<And>n v s v' s' ret. relay_step conv ctx send (csi n) v s = Some (Inr (v', s')) \<Longrightarrow>
         P (Suc n) v' s' ret \<Longrightarrow> P n v s ret) \<Longrightarrow> P n v s ret"
begin

lemma loop_relays:
  assumes "loop ctx send csi n v s = Some (err, t)"
  shows "\<exists>es. t = s\<lparr>events := events s @ es\<rparr> \<and> list_all relay_event es \<and>
    relayed conv csi n (filter stream_event es) err"
proof -
  let ?P = "\<lambda>n v s ret. \<exists>es. snd ret = s\<lparr>events := events s @ es\<rparr> \<and> list_all relay_event es \<and>
       relayed conv csi n (filter stream_event es) (fst ret)"
  from assms have "?P n v s (err, t)"
  proof (rule loop_induct [where P = ?P])
    fix n v s ret
    assume "relay_step conv ctx send (csi n) v s = Some (Inl ret)"
    then show "?P n v s ret" by (cases ret) (simp, rule relay_step_Inl)
  next
    fix n v s v' s' ret
    assume "relay_step conv ctx send (csi n) v s = Some (Inr (v', s'))" "?P (Suc n) v' s' ret"
    then show "?P n v s ret" by (rule relay_step_Inr)
  qed
  then show ?thesis by simp
qed

lemma loop_stops:
  assumes "\<not> (\<exists>x. csi (n + k) = RecvMsg x)"
  shows "loop ctx send csi n v s = None \<Longrightarrow> send_blocked conv send csi n k s"
  using assms
proof (induction k arbitrary: n v s)
  case 0
  from 0(1) 0(2) show ?case
    by (subst (asm) loop_step) (cases "csi n", auto simp: relay_step_def Let_def)
next
  case (Suc k)
  show ?case
  proof (cases "relay_step conv ctx send (csi n) v s" rule: relay_step_exhaust)
    case blocks
    then show ?thesis by (rule relay_step_blocks)
  next
    case (returns ret)
    with Suc.prems(1) show ?thesis by (subst (asm) loop_step) simp
  next
    case (goes_on v' s')
    with Suc.prems(1) have "loop ctx send csi (Suc n) v' s' = None" by (subst (asm) loop_step) simp
    with Suc.IH [of "Suc n" v' s'] Suc.prems(2) have "send_blocked conv send csi (Suc n) k s'" by simp
    with goes_on show ?thesis by (rule relay_step_blocked)
  qed
qed

lemma loop_diverges:
  assumes "\<And>i. \<exists>m. csi i = RecvMsg m" and "\<And>h m. send h m = SendReturns None"
  shows "loop ctx send csi n v s = None"
proof (rule ccontr)
  assume "loop ctx send csi n v s \<noteq> None"
  then obtain ret where "loop ctx send csi n v s = Some ret" by blast
  then have "False"
  proof (rule loop_induct [of ctx send csi n v s ret "\<lambda>n v s ret. False"])
    fix n v s ret
    assume step: "relay_step conv ctx send (csi n) v s = Some (Inl ret)"
    obtain m where "csi n = RecvMsg m" using assms(1) by blast
    with step assms(2) show False by (simp add: relay_step_def Let_def)
  qed
  then show False .
qed

end

subsection \<open>Both loops relay\<close>

lemma allocated_step:
  "streamGetMetadataAllocatedResponse ctx send csi n v s =
     (case relay_step convertToGetMetadataAllocatedResponse ctx send (csi n) v s of
        None \<Rightarrow> None
      | Some (Inl ret) \<Rightarrow> Some ret
      | Some (Inr (v', s')) \<Rightarrow> streamGetMetadataAllocatedResponse ctx send csi (Suc n) v' s')"
  by (subst streamGetMetadataAllocatedResponse.simps)
    (simp add: relay_step_def Let_def split: recv.split option.split send_result.split)

lemma delta_step:
  "streamGetMetadataDeltaResponse ctx send csi n v s =
     (case relay_step convertToGetMetadataDeltaResponse ctx send (csi n) v s of
        None \<Rightarrow> None
      | Some (Inl ret) \<Rightarrow> Some ret
      | Some (Inr (v', s')) \<Rightarrow> streamGetMetadataDeltaResponse ctx send csi (Suc n) v' s')"
  by (subst streamGetMetadataDeltaResponse.simps)
    (simp add: relay_step_def Let_def split: recv.split option.split send_result.split)

lemma allocated_induct:
  assumes run: "streamGetMetadataAllocatedResponse ctx send csi n v s = Some ret"
    and stop: "\<And>n v s ret. relay_step convertToGetMetadataAllocatedResponse ctx send (csi n) v s = Some (Inl ret) \<Longrightarrow>
      P n v s ret"
    and go: "\<And>n v s v' s' ret. relay_step convertToGetMetadataAllocatedResponse ctx send (csi n) v s = Some (Inr (v', s')) \<Longrightarrow>
      P (Suc n) v' s' ret \<Longrightarrow> P n v s ret"
  shows "P n v s ret"
proof -
  have "c = ctx \<longrightarrow> d = send \<longrightarrow> f = csi \<longrightarrow> P n v s ret"
    if "streamGetMetadataAllocatedResponse c d f n v s = Some ret" for c d f n v s ret
  proof (rule streamGetMetadataAllocatedResponse.raw_induct
      [where P = "\<lambda>c d f n v s ret. c = ctx \<longrightarrow> d = send \<longrightarrow> f = csi \<longrightarrow> P n v s ret", OF _ that],
      goal_cases)
    case (1 loop c d f n v s ret)
    have body: "(case relay_step convertToGetMetadataAllocatedResponse c d (f n) v s of
        None \<Rightarrow> None | Some (Inl ret) \<Rightarrow> Some ret
      | Some (Inr (v', s')) \<Rightarrow> loop c d f (Suc n) v' s') = Some ret"
      using 1(2) by (auto simp add: relay_step_def Let_def
        split: recv.splits option.splits send_result.splits)
    show ?case
    proof (intro impI, cases "relay_step convertToGetMetadataAllocatedResponse c d (f n) v s" rule: relay_step_exhaust)
      case blocks
      with body show "P n v s ret" by simp
    next
      case (returns x)
      assume "c = ctx" "d = send" "f = csi"
      with returns body stop show "P n v s ret" by simp
    next
      case (goes_on v' s')
      assume args: "c = ctx" "d = send" "f = csi"
      from goes_on body have "loop c d f (Suc n) v' s' = Some ret" by simp
      then have "P (Suc n) v' s' ret" using 1(1) args by blast
      with goes_on args show "P n v s ret" by (auto intro: go)
    qed
  qed
  with run show ?thesis by blast
qed

lemma delta_induct:
  assumes run: "streamGetMetadataDeltaResponse ctx send csi n v s = Some ret"
    and stop: "\<And>n v s ret. relay_step convertToGetMetadataDeltaResponse ctx send (csi n) v s = Some (Inl ret) \<Longrightarrow>
      P n v s ret"
    and go: "\<And>n v s v' s' ret. relay_step convertToGetMetadataDeltaResponse ctx send (csi n) v s = Some (Inr (v', s')) \<Longrightarrow>
      P (Suc n) v' s' ret \<Longrightarrow> P n v s ret"
  shows "P n v s ret"
proof -
  have "c = ctx \<longrightarrow> d = send \<longrightarrow> f = csi \<longrightarrow> P n v s ret"
    if "streamGetMetadataDeltaResponse c d f n v s = Some ret" for c d f n v s ret
  proof (rule streamGetMetadataDeltaResponse.raw_induct
      [where P = "\<lambda>c d f n v s ret. c = ctx \<longrightarrow> d = send \<longrightarrow> f = csi \<longrightarrow> P n v s ret", OF _ that],
      goal_cases)
    case (1 loop c d f n v s ret)
    have body: "(case relay_step convertToGetMetadataDeltaResponse c d (f n) v s of
        None \<Rightarrow> None | Some (Inl ret) \<Rightarrow> Some ret
      | Some (Inr (v', s')) \<Rightarrow> loop c d f (Suc n) v' s') = Some ret"
      using 1(2) by (auto simp add: relay_step_def Let_def
        split: recv.splits option.splits send_result.splits)
    show ?case
    proof (intro impI, cases "relay_step convertToGetMetadataDeltaResponse c d (f n) v s" rule: relay_step_exhaust)
      case blocks
      with body show "P n v s ret" by simp
    next
      case (returns x)
      assume "c = ctx" "d = send" "f = csi"
      with returns body stop show "P n v s ret" by simp
    next
      case (goes_on v' s')
      assume args: "c = ctx" "d = send" "f = csi"
      from goes_on body have "loop c d f (Suc n) v' s' = Some ret" by simp
      then have "P (Suc n) v' s' ret" using 1(1) args by blast
      with goes_on args show "P n v s ret" by (auto intro: go)
    qed
  qed
  with run show ?thesis by blast
qed

interpretation allocated: stream_relay
  convertToGetMetadataAllocatedResponse streamGetMetadataAllocatedResponse
  by unfold_locales (rule allocated_step, rule allocated_induct)

interpretation delta: stream_relay
  convertToGetMetadataDeltaResponse streamGetMetadataDeltaResponse
  by unfold_locales (rule delta_step, rule delta_induct)

subsection \<open>Properties\<close>

text \<open>
  \<open>statusPassOrWrapError\<close> keeps nil, returns an error that carries a gRPC code of its own
  unchanged, however deep it is wrapped, and turns any other error into a status error with the
  given code; so the client never sees the code Unknown.
\<close>
theorem statusPassOrWrapError_spec:
  "statusPassOrWrapError None c m = None \<and>
   statusPassOrWrapError (Some e) c m =
     (if wire_code (Some e) = Unknown then Some (StatusErr c m) else Some e) \<and>
   wire_code (statusPassOrWrapError (Some e) Internal m) \<noteq> Unknown"
proof -
  have "Convert (Some e) \<noteq> None"
    by (cases e) (simp_all add: Convert_def FromError_def split: option.split)
  then show ?thesis
    by (auto simp: statusPassOrWrapError_def Let_def wire_code_def)
qed

definition relay_outcome ::
  "(csi_metadata_response \<Rightarrow> metadata_response) \<Rightarrow> csi_stream \<Rightarrow> server \<Rightarrow> server \<Rightarrow>
     gerr option \<Rightarrow> bool" where
  "relay_outcome conv csi s t err \<longleftrightarrow>
     (\<exists>es msgs. t = s\<lparr>events := events s @ es\<rparr> \<and> list_all relay_event es \<and>
        relayed conv csi 0 (filter stream_event es) err \<and>
        (\<forall>i < length msgs. csi i = RecvMsg (msgs ! i)) \<and> delivered es = map conv msgs \<and>
        (err = None \<longrightarrow> csi (length msgs) = RecvEOF))"

lemma relay_outcomeI:
  assumes "t = s\<lparr>events := events s @ es\<rparr>" "list_all relay_event es"
    "relayed conv csi 0 (filter stream_event es) err"
  shows "relay_outcome conv csi s t err"
  using assms relayed_delivered [OF assms(3)] unfolding relay_outcome_def
  by (metis add_0 delivered_filter)

text \<open>
  C32. When the loop of \<open>GetMetadataAllocated\<close> returns, the client has got the conversions of the
  driver's first messages, all of them, in their order, each sent before the next was
  received; the loop added only stream operations and log entries. It returns nil exactly
  when all messages up to the end of the stream went out; an error of the driver or of the
  client ends it with the passed or wrapped error.
\<close>
theorem streamGetMetadataAllocatedResponse_relays:
  assumes "streamGetMetadataAllocatedResponse ctx send csi 0 stream_init s = Some (err, t)"
  shows "relay_outcome convertToGetMetadataAllocatedResponse csi s t err"
  using allocated.loop_relays [OF assms] relay_outcomeI by blast

definition csi_stream_example :: csi_stream where
  "csi_stream_example n =
     (if n < 2 then RecvMsg \<lparr>csi_block_metadata_type = 1, csi_volume_capacity_bytes = 100,
        csi_block_metadata = [\<lparr>csi_byte_offset = of_nat n * 10, csi_size_bytes = 10\<rparr>]\<rparr>
      else RecvEOF)"

theorem streamGetMetadataAllocatedResponse_relays_witness:
  "\<exists>t. relay_outcome convertToGetMetadataAllocatedResponse csi_stream_example server_example t None \<and>
     length (delivered (events t)) = 2"
proof -
  have "\<exists>t. streamGetMetadataAllocatedResponse [] (\<lambda>h m. SendReturns None) csi_stream_example 0 stream_init server_example =
      Some (None, t) \<and> length (delivered (events t)) = 2"
    by (simp add: streamGetMetadataAllocatedResponse.simps csi_stream_example_def after_def io_run
        server_example_def HandlerTraceLogLevel_def HandlerDetailedTraceLogLevel_def Let_def)
  then show ?thesis using streamGetMetadataAllocatedResponse_relays by metis
qed

lemma relay_outcome_bound:
  assumes "relay_outcome conv csi s t err" "\<not> (\<exists>x. csi k = RecvMsg x)"
  shows "length (delivered (drop (length (events s)) (events t))) \<le> k"
proof -
  obtain es msgs where es: "t = s\<lparr>events := events s @ es\<rparr>" "delivered es = map conv msgs"
      and msgs: "\<forall>i < length msgs. csi i = RecvMsg (msgs ! i)"
    using assms(1) unfolding relay_outcome_def by blast
  have "length msgs \<le> k" using msgs assms(2) by (meson not_le)
  with es show ?thesis by simp
qed

text \<open>
  C33. The loop of \<open>GetMetadataDelta\<close> returns once the driver's stream stops (by its end or by
  an error, such as the deadline of the call), unless the client blocks it: when the \<open>k\<close>-th
  \<open>Recv\<close> gives no message, either the loop returns, and what it did is a relay, of at most \<open>k\<close>
  messages, or the \<open>Send\<close> of one of the first \<open>k\<close> messages, after those before it were delivered,
  never returns.
\<close>
theorem streamGetMetadataDeltaResponse_total:
  assumes "\<not> (\<exists>x. csi k = RecvMsg x)"
  shows "case streamGetMetadataDeltaResponse ctx send csi 0 stream_init s of
      Some (err, t) \<Rightarrow> relay_outcome convertToGetMetadataDeltaResponse csi s t err \<and>
        length (delivered (drop (length (events s)) (events t))) \<le> k
    | None \<Rightarrow> send_blocked convertToGetMetadataDeltaResponse send csi 0 k s"
proof (cases "streamGetMetadataDeltaResponse ctx send csi 0 stream_init s")
  case None
  with delta.loop_stops [of csi 0 k] assms show ?thesis by simp
next
  case (Some ret)
  obtain err t where ret: "ret = (err, t)" by fastforce
  with delta.loop_relays Some have "relay_outcome convertToGetMetadataDeltaResponse csi s t err"
    using relay_outcomeI by blast
  with Some ret relay_outcome_bound [of _ csi s t err k] assms show ?thesis by simp
qed

theorem streamGetMetadataDeltaResponse_total_witness:
  "\<exists>t. streamGetMetadataDeltaResponse [] (\<lambda>h m. SendReturns None) csi_stream_example 0 stream_init
       server_example = Some (None, t) \<and>
     relay_outcome convertToGetMetadataDeltaResponse csi_stream_example server_example t None"
proof -
  have stop: "\<not> (\<exists>x. csi_stream_example 2 = RecvMsg x)" by (simp add: csi_stream_example_def)
  have "\<exists>t. streamGetMetadataDeltaResponse [] (\<lambda>h m. SendReturns None) csi_stream_example 0 stream_init
      server_example = Some (None, t)"
    by (simp add: streamGetMetadataDeltaResponse.simps csi_stream_example_def after_def io_run
        server_example_def HandlerTraceLogLevel_def HandlerDetailedTraceLogLevel_def Let_def)
  then obtain t where t: "streamGetMetadataDeltaResponse [] (\<lambda>h m. SendReturns None) csi_stream_example 0
      stream_init server_example = Some (None, t)" ..
  from streamGetMetadataDeltaResponse_total [where csi = csi_stream_example and k = 2, OF stop,
      where ctx = "[]" and s = server_example
      and send = "\<lambda>h m. SendReturns None"] t show ?thesis by auto
qed

text \<open>A client that takes one message and then neither reads nor goes away keeps the loop for ever.\<close>

lemma blocking_client_example:
  "streamGetMetadataDeltaResponse []
     (\<lambda>h m. if delivered h = [] then SendReturns None else SendBlocks) csi_stream_example 0 stream_init
     server_example = None"
  by (simp add: streamGetMetadataDeltaResponse.simps csi_stream_example_def after_def io_run
      server_example_def HandlerTraceLogLevel_def HandlerDetailedTraceLogLevel_def Let_def)

end
