(* ===== verification/Handlers.thy ===== *)
theory Handlers
  imports Streaming
begin

text \<open>
  The two handlers of the \<open>SnapshotMetadata\<close> service, \<open>GetMetadataAllocated\<close> and \<open>GetMetadataDelta\<close>:
  the logging context with its operation identifier, the deadline of the session, validation,
  authentication and authorization, the readiness check, the conversion of the request, the call
  of the CSI driver, the relay of its stream, and the deferred metric record.
\<close>

subsection \<open>Messages\<close>

definition msgInvalidArgumentBaseSnapshotIdMissing :: string where
  "msgInvalidArgumentBaseSnapshotIdMissing = ''baseSnapshotId cannot be empty''"
definition msgInvalidArgumentNamespaceMissing :: string where
  "msgInvalidArgumentNamespaceMissing = ''namespace parameter cannot be empty''"
definition msgInvalidArgumentSecurityTokenMissing :: string where
  "msgInvalidArgumentSecurityTokenMissing = ''securityToken is missing''"
definition msgInvalidArgumentSnaphotNameMissing :: string where
  "msgInvalidArgumentSnaphotNameMissing = ''snapshotName cannot be empty''"
definition msgInvalidArgumentTargetSnapshotNameMissing :: string where
  "msgInvalidArgumentTargetSnapshotNameMissing = ''targetSnapshotName cannot be empty''"
definition msgInvalidArgumentSnaphotDriverInvalidFmt :: "string \<Rightarrow> string \<Rightarrow> string" where
  "msgInvalidArgumentSnaphotDriverInvalidFmt name driver =
     ''VolumeSnapshot '' @ quoted name @ '' does not belong to the CSI driver '' @ quoted driver"

subsection \<open>Shared by both handlers\<close>

text \<open>The deferred function records the named result \<open>err\<close>, which is nil during a panic.\<close>

definition record_metrics ::
  "(string \<rightharpoonup> string) \<Rightarrow> string \<Rightarrow> gerr option \<Rightarrow> (server, unit) io" where
  "record_metrics opLabel opName err =
     (case RecordMetricsWithLabels csiConnect_label_names opLabel opName err of
        Some m \<Rightarrow> emit (RecordMetrics m)
      | None \<Rightarrow> emit (LogEntry ErrorLog None ''failed to add labels to metrics'' []))"

definition reject_invalid :: "log_values \<Rightarrow> gerr option \<Rightarrow> (server, unit) io" where
  "reject_invalid ctx v =
     (case v of
        Some err \<Rightarrow> io_then (log_error ctx (Some err) ''validation failed'' []) (io_fail err)
      | None \<Rightarrow> io_ret ())"

subsection \<open>\<open>GetMetadataAllocated\<close>\<close>

definition validateGetMetadataAllocatedRequest :: "get_metadata_allocated_request \<Rightarrow> gerr option" where
  "validateGetMetadataAllocatedRequest req =
     (if length (gma_security_token req) = 0
      then Some (StatusErr InvalidArgument msgInvalidArgumentSecurityTokenMissing)
      else if length (gma_namespace req) = 0
      then Some (StatusErr InvalidArgument msgInvalidArgumentNamespaceMissing)
      else if length (gma_snapshot_name req) = 0
      then Some (StatusErr InvalidArgument msgInvalidArgumentSnaphotNameMissing)
      else None)"

definition getMetadataAllocatedContextWithLogger ::
  "get_metadata_allocated_request \<Rightarrow> (server, log_values) io" where
  "getMetadataAllocatedContextWithLogger req =
     io_bind (OperationID ''GetMetadataAllocated'') (\<lambda>op. io_ret
       [(''op'', LStr op),
        (''namespace'', LStr (gma_namespace req)),
        (''snapshotName'', LStr (gma_snapshot_name req)),
        (''startingOffset'', LInt (sint (gma_starting_offset req))),
        (''maxResults'', LInt (sint (gma_max_results req)))])"

definition convertToCSIGetMetadataAllocatedRequest ::
  "cluster \<Rightarrow> log_values \<Rightarrow> get_metadata_allocated_request \<Rightarrow> (server, csi_allocated_request) io" where
  "convertToCSIGetMetadataAllocatedRequest cl ctx req =
     io_bind (getVolSnapshotInfo cl ctx (gma_namespace req) (gma_snapshot_name req)) (\<lambda>vsi s.
       if vsi_driver_name vsi \<noteq> driverName s
       then let err = StatusErr InvalidArgument
                  (msgInvalidArgumentSnaphotDriverInvalidFmt (gma_snapshot_name req) (driverName s)) in
            io_then (log_error ctx (Some err) ''invalid driver'' []) (io_fail err) s
       else io_bind (getSnapshotterCredentials cl ctx vsi) (\<lambda>secretsMap. io_ret
              \<lparr>csia_snapshot_id = vsi_snapshot_handle vsi,
               csia_starting_offset = gma_starting_offset req,
               csia_max_results = gma_max_results req,
               csia_secrets = secretsMap\<rparr>) s)"

definition error_of :: "gerr + 'a \<Rightarrow> gerr option" where
  "error_of r = (case r of Inl err \<Rightarrow> Some err | Inr x \<Rightarrow> None)"

definition callCSIGetMetadataAllocated ::
  "cluster \<Rightarrow> log_values \<Rightarrow> csi_allocated_request \<Rightarrow> (server, csi_stream) io" where
  "callCSIGetMetadataAllocated cl ctx csiReq =
     io_then (log_info_v HandlerTraceLogLevel ctx ''calling CSI driver''
                [(''snapshotId'', LStr (csia_snapshot_id csiReq))])
       (io_catch (k_call (\<lambda>r. CsiGetMetadataAllocated csiReq (error_of r))
                    (\<lambda>h. cl_csi_allocated cl h csiReq))
          (\<lambda>err. io_then (log_error ctx (Some err) ''csi.GetMetadataAllocated'' []) (io_fail err)))"

text \<open>The handler up to the stream of the driver.\<close>

definition openMetadataAllocated ::
  "cluster \<Rightarrow> log_values \<Rightarrow> get_metadata_allocated_request \<Rightarrow> (server, csi_stream) io" where
  "openMetadataAllocated cl ctx req =
     io_then (reject_invalid ctx (validateGetMetadataAllocatedRequest req))
    (io_then (authenticateAndAuthorize cl ctx (gma_security_token req) (gma_namespace req))
    (io_then (isCSIDriverReady ctx)
    (io_bind (convertToCSIGetMetadataAllocatedRequest cl ctx req) (\<lambda>csiReq.
     callCSIGetMetadataAllocated cl ctx csiReq))))"

definition GetMetadataAllocated ::
  "cluster \<Rightarrow> client_stream \<Rightarrow> get_metadata_allocated_request \<Rightarrow> server \<Rightarrow>
     ((exn + unit) \<times> server) option" where
  "GetMetadataAllocated cl send req s =
     (case getMetadataAllocatedContextWithLogger req s of
        (Inl x, s0) \<Rightarrow> Some (Inl x, s0)
      | (Inr ctx, s0) \<Rightarrow>
          let s1 = after (emit (StreamDeadline (MaxStreamDur (config s0)))) s0;
              finish = record_metrics
                [LabelTargetSnapshotName \<mapsto> gma_namespace req @ ''/'' @ gma_snapshot_name req]
                MetadataAllocatedOperationName in
          (case openMetadataAllocated cl ctx req s1 of
             (Inl (Failed err), t) \<Rightarrow> Some (Inl (Failed err), after (finish (Some err)) t)
           | (Inl (Panicked m), t) \<Rightarrow> Some (Inl (Panicked m), after (finish None) t)
           | (Inr csiStream, t) \<Rightarrow>
               (case streamGetMetadataAllocatedResponse ctx send csiStream 0 stream_init t of
                  None \<Rightarrow> None
                | Some (None, u) \<Rightarrow> Some (Inr (), after (finish None) u)
                | Some (Some err, u) \<Rightarrow> Some (Inl (Failed err), after (finish (Some err)) u))))"

subsection \<open>\<open>GetMetadataDelta\<close>\<close>

definition validateGetMetadataDeltaRequest :: "get_metadata_delta_request \<Rightarrow> gerr option" where
  "validateGetMetadataDeltaRequest req =
     (if length (gmd_security_token req) = 0
      then Some (StatusErr InvalidArgument msgInvalidArgumentSecurityTokenMissing)
      else if length (gmd_namespace req) = 0
      then Some (StatusErr InvalidArgument msgInvalidArgumentNamespaceMissing)
      else if length (gmd_base_snapshot_id req) = 0
      then Some (StatusErr InvalidArgument msgInvalidArgumentBaseSnapshotIdMissing)
      else if length (gmd_target_snapshot_name req) = 0
      then Some (StatusErr InvalidArgument msgInvalidArgumentTargetSnapshotNameMissing)
      else None)"

definition getMetadataDeltaContextWithLogger ::
  "get_metadata_delta_request \<Rightarrow> (server, log_values) io" where
  "getMetadataDeltaContextWithLogger req =
     io_bind (OperationID ''GetMetadataDelta'') (\<lambda>op. io_ret
       [(''op'', LStr op),
        (''namespace'', LStr (gmd_namespace req)),
        (''baseSnapshotId'', LStr (gmd_base_snapshot_id req)),
        (''targetSnapshotName'', LStr (gmd_target_snapshot_name req)),
        (''startingOffset'', LInt (sint (gmd_starting_offset req))),
        (''maxResults'', LInt (sint (gmd_max_results req)))])"

definition convertToCSIGetMetadataDeltaRequest ::
  "cluster \<Rightarrow> log_values \<Rightarrow> get_metadata_delta_request \<Rightarrow> (server, csi_delta_request) io" where
  "convertToCSIGetMetadataDeltaRequest cl ctx req =
     io_bind (getVolSnapshotInfo cl ctx (gmd_namespace req) (gmd_target_snapshot_name req)) (\<lambda>vsiTarget s.
       if vsi_driver_name vsiTarget \<noteq> driverName s
       then let err = StatusErr InvalidArgument
                  (msgInvalidArgumentSnaphotDriverInvalidFmt (gmd_target_snapshot_name req) (driverName s)) in
            io_then (log_error ctx (Some err) ''invalid driver'' []) (io_fail err) s
       else io_bind (getSnapshotterCredentials cl ctx vsiTarget) (\<lambda>secretsMap. io_ret
              \<lparr>csid_base_snapshot_id = gmd_base_snapshot_id req,
               csid_target_snapshot_id = vsi_snapshot_handle vsiTarget,
               csid_starting_offset = gmd_starting_offset req,
               csid_max_results = gmd_max_results req,
               csid_secrets = secretsMap\<rparr>) s)"

definition callCSIGetMetadataDelta ::
  "cluster \<Rightarrow> log_values \<Rightarrow> csi_delta_request \<Rightarrow> (server, csi_stream) io" where
  "callCSIGetMetadataDelta cl ctx csiReq =
     io_then (log_info_v HandlerTraceLogLevel ctx ''calling CSI driver''
                [(''baseSnapshotId'', LStr (csid_base_snapshot_id csiReq)),
                 (''targetSnapshotId'', LStr (csid_target_snapshot_id csiReq))])
       (io_catch (k_call (\<lambda>r. CsiGetMetadataDelta csiReq (error_of r))
                    (\<lambda>h. cl_csi_delta cl h csiReq))
          (\<lambda>err. io_then (log_error ctx (Some err) ''csi.GetMetadataDelta'' []) (io_fail err)))"

definition openMetadataDelta ::
  "cluster \<Rightarrow> log_values \<Rightarrow> get_metadata_delta_request \<Rightarrow> (server, csi_stream) io" where
  "openMetadataDelta cl ctx req =
     io_then (reject_invalid ctx (validateGetMetadataDeltaRequest req))
    (io_then (authenticateAndAuthorize cl ctx (gmd_security_token req) (gmd_namespace req))
    (io_then (isCSIDriverReady ctx)
    (io_bind (convertToCSIGetMetadataDeltaRequest cl ctx req) (\<lambda>csiReq.
     callCSIGetMetadataDelta cl ctx csiReq))))"

text \<open>The metric of this handler is recorded under the name of the other operation, as in the
  source.\<close>

definition GetMetadataDelta ::
  "cluster \<Rightarrow> client_stream \<Rightarrow> get_metadata_delta_request \<Rightarrow> server \<Rightarrow>
     ((exn + unit) \<times> server) option" where
  "GetMetadataDelta cl send req s =
     (case getMetadataDeltaContextWithLogger req s of
        (Inl x, s0) \<Rightarrow> Some (Inl x, s0)
      | (Inr ctx, s0) \<Rightarrow>
          let s1 = after (emit (StreamDeadline (MaxStreamDur (config s0)))) s0;
              finish = record_metrics
                [LabelTargetSnapshotName \<mapsto> gmd_namespace req @ ''/'' @ gmd_target_snapshot_name req,
                 LabelBaseSnapshotID \<mapsto> gmd_base_snapshot_id req]
                MetadataAllocatedOperationName in
          (case openMetadataDelta cl ctx req s1 of
             (Inl (Failed err), t) \<Rightarrow> Some (Inl (Failed err), after (finish (Some err)) t)
           | (Inl (Panicked m), t) \<Rightarrow> Some (Inl (Panicked m), after (finish None) t)
           | (Inr csiStream, t) \<Rightarrow>
               (case streamGetMetadataDeltaResponse ctx send csiStream 0 stream_init t of
                  None \<Rightarrow> None
                | Some (None, u) \<Rightarrow> Some (Inr (), after (finish None) u)
                | Some (Some err, u) \<Rightarrow> Some (Inl (Failed err), after (finish (Some err)) u))))"

subsection \<open>Vocabulary of the properties\<close>

text \<open>The requests made with the rights of the sidecar on behalf of the client, and the data
  that flows back to it.\<close>

fun protected :: "event \<Rightarrow> bool" where
  "protected (LogEntry sev err msg kvs) \<longleftrightarrow> False"
| "protected (SmsGet d r) \<longleftrightarrow> False"
| "protected (TokenReviewCreate t auds r) \<longleftrightarrow> False"
| "protected (SubjectAccessReviewCreate sar r) \<longleftrightarrow> False"
| "protected (StreamDeadline d) \<longleftrightarrow> False"
| "protected (RecordMetrics m) \<longleftrightarrow> False"
| "protected e \<longleftrightarrow> True"

definition gated_by :: "event list \<Rightarrow> string \<Rightarrow> string \<Rightarrow> bool" where
  "gated_by es token ns \<longleftrightarrow>
     (\<forall>i < length es. protected (es ! i) \<longrightarrow> authorized_in (take i es) token ns)"

lemma gated_by_none: "list_all (\<lambda>e. \<not> protected e) es \<Longrightarrow> gated_by es token ns"
  by (simp add: gated_by_def list_all_length)

lemma gated_by_append:
  assumes "gated_by es token ns" "authorized_in es token ns \<or> list_all (\<lambda>e. \<not> protected e) fs"
  shows "gated_by (es @ fs) token ns"
  unfolding gated_by_def
proof (intro allI impI)
  fix i assume i: "i < length (es @ fs)" "protected ((es @ fs) ! i)"
  show "authorized_in (take i (es @ fs)) token ns"
  proof (cases "i < length es")
    case True
    with i assms(1) show ?thesis by (simp add: gated_by_def nth_append)
  next
    case False
    with i assms(2) have "authorized_in es token ns"
      by (auto simp: nth_append list_all_length)
    then show ?thesis by (rule authorized_in_mono) (use False in auto)
  qed
qed

lemma gated_by_Cons:
  assumes "\<not> protected e" "gated_by es token ns"
  shows "gated_by (e # es) token ns"
  unfolding gated_by_def
proof (intro allI impI)
  fix i assume i: "i < length (e # es)" "protected ((e # es) ! i)"
  with assms(1) obtain j where j: "i = Suc j" by (cases i) auto
  with i assms(2) have "authorized_in (take j es) token ns" by (simp add: gated_by_def)
  then show "authorized_in (take i (e # es)) token ns"
    by (rule authorized_in_mono) (auto simp: j)
qed

fun log_event :: "event \<Rightarrow> bool" where
  "log_event (LogEntry sev err msg kvs) \<longleftrightarrow> True"
| "log_event e \<longleftrightarrow> False"

text \<open>The calls that open a stream of the driver, and the records of the metrics.\<close>

fun driver_call :: "event \<Rightarrow> bool" where
  "driver_call (CsiGetMetadataAllocated req r) \<longleftrightarrow> True"
| "driver_call (CsiGetMetadataDelta req r) \<longleftrightarrow> True"
| "driver_call e \<longleftrightarrow> False"

fun metric_event :: "event \<Rightarrow> bool" where
  "metric_event (RecordMetrics m) \<longleftrightarrow> True"
| "metric_event e \<longleftrightarrow> False"

lemma auth_event_not_protected: "auth_event e \<Longrightarrow> \<not> protected e"
  by (cases e) simp_all

lemma log_event_not_protected: "log_event e \<Longrightarrow> \<not> protected e"
  by (cases e) simp_all

lemma delivered_none: "list_all P es \<Longrightarrow> (\<And>e. P e \<Longrightarrow> delivered [e] = []) \<Longrightarrow> delivered es = []"
proof (induction es)
  case (Cons e es)
  then show ?case using delivered_append [of "[e]" es] by simp
qed simp

lemma delivered_setup:
  "list_all auth_event es \<Longrightarrow> delivered es = []"
  "list_all lookup_event es \<Longrightarrow> delivered es = []"
  "list_all log_event es \<Longrightarrow> delivered es = []"
  by (erule delivered_none; case_tac e; simp)+

definition quiet_event :: "event \<Rightarrow> bool" where
  "quiet_event e \<longleftrightarrow> \<not> driver_call e \<and> \<not> metric_event e"

lemma quiet_setup:
  "list_all auth_event es \<Longrightarrow> list_all quiet_event es"
  "list_all lookup_event es \<Longrightarrow> list_all quiet_event es"
  "list_all log_event es \<Longrightarrow> list_all quiet_event es"
  "list_all relay_event es \<Longrightarrow> list_all quiet_event es"
  by (erule list.pred_mono_strong; case_tac z; simp add: quiet_event_def)+

lemma quiet_eventsD:
  "list_all quiet_event es \<Longrightarrow> list_all (\<lambda>e. \<not> driver_call e) es"
  "list_all quiet_event es \<Longrightarrow> list_all (\<lambda>e. \<not> metric_event e) es"
  by (auto simp: list_all_iff quiet_event_def)

text \<open>The events of a call of the driver: log entries and the call itself.\<close>

definition call_event :: "event \<Rightarrow> bool" where
  "call_event e \<longleftrightarrow> log_event e \<or> driver_call e"

lemma call_events:
  assumes "list_all call_event es"
  shows "delivered es = []" "list_all (\<lambda>e. \<not> metric_event e) es"
proof -
  have "delivered [e] = []" "\<not> metric_event e" if "call_event e" for e
    using that by (cases e; simp add: call_event_def)+
  with assms show "delivered es = []" "list_all (\<lambda>e. \<not> metric_event e) es"
    by (auto intro: delivered_none list.pred_mono_strong)
qed

lemma list_all_auth_not_protected:
  "list_all auth_event es \<Longrightarrow> list_all (\<lambda>e. \<not> protected e) es"
  by (auto simp: list_all_iff auth_event_not_protected)

subsection \<open>Steps of the handlers\<close>

lemma reject_invalid_cases:
  assumes "reject_invalid ctx v s = (r, t)"
  obtains (invalid) err where "v = Some err" "r = Inl (Failed err)"
      "t = s\<lparr>events := events s @ [LogEntry ErrorLog (Some err) ''validation failed'' ctx]\<rparr>"
  | (valid) "v = None" "r = Inr ()" "t = s"
  using assms by (cases v) (auto simp: reject_invalid_def io_run)

lemma isCSIDriverReady_cases:
  assumes "isCSIDriverReady ctx s = (r, t)"
  obtains (ready) "IsReady s" "r = Inr ()" "t = s"
  | (not_ready) e where "\<not> IsReady s" "log_event e" "t = s\<lparr>events := events s @ [e]\<rparr>"
      "r = Inl (Failed (StatusErr Unavailable msgUnavailableCSIDriverNotReady))"
proof (cases "IsReady s")
  case True
  with assms show ?thesis by (intro that(1)) (simp_all add: isCSIDriverReady_def io_run)
next
  case False
  with assms show ?thesis
    by (intro that(2) [of "LogEntry ErrorLog None msgUnavailableCSIDriverNotReady
          (ctx @ [(''driverName'', LStr (driverName s))])"])
      (simp_all add: isCSIDriverReady_def io_run)
qed

lemma hoare_True: "io_hoare P m (\<lambda>_ _. True) (\<lambda>_ _. True)"
  by (rule io_hoareI) simp_all

abbreviation never_panics :: "('s, 'a) io \<Rightarrow> bool" where
  "never_panics m \<equiv> io_hoare (\<lambda>_. True) m (\<lambda>_ _. True) (\<lambda>e _. \<forall>p. e \<noteq> Panicked p)"

lemma never_panics_k_call: "never_panics (k_call ev f)"
  by (auto simp: io_hoare_def io_run split: sum.split)

lemma never_panics_log_error: "never_panics (log_error ctx err msg kvs)"
  by (simp add: io_hoare_def io_run)

lemma never_panics_bind:
  "never_panics m \<Longrightarrow> (\<And>x. never_panics (f x)) \<Longrightarrow> never_panics (io_bind m f)"
  by (rule hoare_bind [where R = "\<lambda>_ _. True"])

lemma never_panics_catch:
  assumes "never_panics m" "\<And>e. never_panics (h e)"
  shows "never_panics (io_catch m h)"
  using assms unfolding io_hoare_def io_catch_def
  by (fastforce split: prod.splits sum.splits exn.splits)

lemma never_panics_ret: "never_panics (io_ret x)"
  by (simp add: io_hoare_def io_run)

lemma never_panics_fail: "never_panics (io_fail e)"
  by (simp add: io_hoare_def io_run)

lemmas never_panics_rules = never_panics_k_call never_panics_log_error never_panics_bind
  never_panics_catch never_panics_ret never_panics_fail

lemma getSnapshotterCredentials_never_panics: "never_panics (getSnapshotterCredentials cl ctx vsi)"
  unfolding getSnapshotterCredentials_def getSnapshotterSecretRef_def GetCredentials_def
    getVolumeSnapshotClass_def getDefaultVolumeSnapshotClassForDriver_def
  by (auto intro!: never_panics_rules split: option.split sum.split)

subsection \<open>The contract of a handler\<close>

text \<open>
  What the two handlers share, over the parts in which they differ. \<open>opened_by\<close> says what a
  successful opening of the driver's stream rests on.
\<close>

definition resolved_in :: "server \<Rightarrow> event list \<Rightarrow> string \<Rightarrow> string \<Rightarrow> vol_snapshot_info \<Rightarrow> bool" where
  "resolved_in s es ns name vsi \<longleftrightarrow> vsi_driver_name vsi = driverName s \<and>
     (\<exists>as rs bs. es = as @ rs @ bs \<and> snapshot_resolved rs ns name vsi)"

lemma resolved_in_append: "resolved_in s es ns name vsi \<Longrightarrow> resolved_in s (as @ es @ bs) ns name vsi"
  unfolding resolved_in_def by (metis append.assoc)

text \<open>The server when the session of a handler has begun, and the error its metric records.\<close>

definition session_start :: "server \<Rightarrow> server" where
  "session_start s = s\<lparr>opNumber := opNumber s + 1,
     events := events s @ [StreamDeadline (MaxStreamDur (config s))]\<rparr>"

definition returned_error :: "exn + unit \<Rightarrow> gerr option" where
  "returned_error r = (case r of Inl (Failed e) \<Rightarrow> Some e | _ \<Rightarrow> None)"

lemma returned_error_simps [simp]:
  "returned_error (Inl (Failed e)) = Some e" "returned_error (Inl (Panicked m)) = None"
  "returned_error (Inr u) = None"
  by (simp_all add: returned_error_def)

lemma session_start_simps [simp]:
  "events (session_start s) = events s @ [StreamDeadline (MaxStreamDur (config s))]"
  "IsReady (session_start s) = IsReady s" "driverName (session_start s) = driverName s"
  by (simp_all add: session_start_def IsReady_def driverName_def)

lemma record_metrics_run:
  assumes "dom labels \<subseteq> set csiConnect_label_names"
  shows "after (record_metrics labels op err) s = s\<lparr>events := events s @
    [RecordMetrics \<lparr>mr_operation = op, mr_error = err, mr_labels = labels\<rparr>]\<rparr>"
  using assms by (simp add: record_metrics_def RecordMetricsWithLabels_def WithLabelValues_def)

locale metadata_rpc = stream_relay conv loop
  for conv :: "csi_metadata_response \<Rightarrow> metadata_response"
    and loop :: "log_values \<Rightarrow> client_stream \<Rightarrow> csi_stream \<Rightarrow> nat \<Rightarrow> stream_vars \<Rightarrow> server \<Rightarrow>
      (gerr option \<times> server) option" +
  fixes validate :: "'req \<Rightarrow> gerr option"
    and token :: "'req \<Rightarrow> string" and ns :: "'req \<Rightarrow> string" and snap :: "'req \<Rightarrow> string"
    and convert :: "cluster \<Rightarrow> log_values \<Rightarrow> 'req \<Rightarrow> (server, 'creq) io"
    and mk :: "'req \<Rightarrow> string \<Rightarrow> (string \<rightharpoonup> string) \<Rightarrow> 'creq"
    and call :: "cluster \<Rightarrow> log_values \<Rightarrow> 'creq \<Rightarrow> (server, csi_stream) io"
    and opened :: "'creq \<Rightarrow> gerr option \<Rightarrow> event"
    and answer :: "cluster \<Rightarrow> event list \<Rightarrow> 'creq \<Rightarrow> gerr + csi_stream"
    and open_stream :: "cluster \<Rightarrow> log_values \<Rightarrow> 'req \<Rightarrow> (server, csi_stream) io"
    and logger :: "'req \<Rightarrow> (server, log_values) io"
    and labels :: "'req \<Rightarrow> (string \<rightharpoonup> string)" and op_name :: string
    and handler :: "cluster \<Rightarrow> client_stream \<Rightarrow> 'req \<Rightarrow> server \<Rightarrow> ((exn + unit) \<times> server) option"
  assumes convert_appends: "appends lookup_event (convert cl ctx req)"
    and convert_ok: "convert cl ctx req s = (Inr creq, t) \<Longrightarrow>
      \<exists>es vsi secrets. t = s\<lparr>events := events s @ es\<rparr> \<and> resolved_in s es (ns req) (snap req) vsi \<and>
        creq = mk req (vsi_snapshot_handle vsi) secrets"
    and convert_panic: "convert cl ctx req s = (Inl (Panicked m), t) \<Longrightarrow>
      \<exists>es. t = s\<lparr>events := events s @ es\<rparr> \<and> nil_status_read es (ns req) (snap req)"
    and call_ok: "call cl ctx creq s = (Inr csi, t) \<Longrightarrow>
      \<exists>log. t = s\<lparr>events := events s @ log @ [opened creq None]\<rparr> \<and> list_all log_event log \<and>
        answer cl (events s @ log) creq = Inr csi"
    and call_appends: "appends call_event (call cl ctx creq)"
    and call_panic: "call cl ctx creq s \<noteq> (Inl (Panicked m), t)"
    and open_eq: "open_stream cl ctx req =
      io_then (reject_invalid ctx (validate req))
     (io_then (authenticateAndAuthorize cl ctx (token req) (ns req))
     (io_then (isCSIDriverReady ctx)
     (io_bind (convert cl ctx req) (\<lambda>creq. call cl ctx creq))))"
    and opened_call: "driver_call (opened creq x)"
    and logger_eq: "\<exists>ctx. logger req s = (Inr ctx, s\<lparr>opNumber := opNumber s + 1\<rparr>)"
    and labels_known: "dom (labels req) \<subseteq> set csiConnect_label_names"
    and handler_eq: "handler cl send req s =
      (case logger req s of
        (Inl x, s0) \<Rightarrow> Some (Inl x, s0)
      | (Inr ctx, s0) \<Rightarrow>
          let s1 = after (emit (StreamDeadline (MaxStreamDur (config s0)))) s0;
              finish = record_metrics (labels req) op_name in
          (case open_stream cl ctx req s1 of
             (Inl (Failed err), t) \<Rightarrow> Some (Inl (Failed err), after (finish (Some err)) t)
           | (Inl (Panicked m), t) \<Rightarrow> Some (Inl (Panicked m), after (finish None) t)
           | (Inr csiStream, t) \<Rightarrow>
               (case loop ctx send csiStream 0 stream_init t of
                  None \<Rightarrow> None
                | Some (None, u) \<Rightarrow> Some (Inr (), after (finish None) u)
                | Some (Some err, u) \<Rightarrow> Some (Inl (Failed err), after (finish (Some err)) u))))"
begin

definition opened_by :: "cluster \<Rightarrow> server \<Rightarrow> 'req \<Rightarrow> event list \<Rightarrow> csi_stream \<Rightarrow> bool" where
  "opened_by cl s req es csi \<longleftrightarrow> validate req = None \<and> IsReady s \<and>
     (\<exists>pre vsi secrets. es = pre @ [opened (mk req (vsi_snapshot_handle vsi) secrets) None] \<and>
        delivered pre = [] \<and> list_all quiet_event pre \<and>
        authorized_in pre (token req) (ns req) \<and> resolved_in s pre (ns req) (snap req) vsi \<and>
        answer cl (events s @ pre) (mk req (vsi_snapshot_handle vsi) secrets) = Inr csi)"

definition open_outcome :: "cluster \<Rightarrow> server \<Rightarrow> 'req \<Rightarrow> event list \<Rightarrow> exn + csi_stream \<Rightarrow> bool" where
  "open_outcome cl s req es r \<longleftrightarrow>
     (\<forall>csi. r = Inr csi \<longrightarrow> opened_by cl s req es csi) \<and>
     (\<forall>m. r = Inl (Panicked m) \<longrightarrow> nil_status_read es (ns req) (snap req)) \<and>
     (\<forall>x. r = Inl x \<longrightarrow> delivered es = []) \<and>
     list_all (\<lambda>e. \<not> metric_event e) es \<and>
     (\<not> IsReady s \<longrightarrow> list_all (\<lambda>e. \<not> protected e) es) \<and>
     (\<forall>err. validate req = Some err \<longrightarrow> r = Inl (Failed err) \<and> list_all log_event es) \<and>
     gated_by es (token req) (ns req)"

lemma open_stream_after_auth:
  assumes ready: "IsReady s" and valid: "validate req = None"
    and run: "io_bind (convert cl ctx req) (\<lambda>creq. call cl ctx creq) s = (r, t)"
  shows "\<exists>es. t = s\<lparr>events := events s @ es\<rparr> \<and>
    (\<forall>m. r = Inl (Panicked m) \<longrightarrow> nil_status_read es (ns req) (snap req)) \<and>
    (\<forall>x. r = Inl x \<longrightarrow> delivered es = []) \<and> list_all (\<lambda>e. \<not> metric_event e) es \<and>
    (\<forall>csi. r = Inr csi \<longrightarrow> (\<exists>pre vsi secrets.
        es = pre @ [opened (mk req (vsi_snapshot_handle vsi) secrets) None] \<and> delivered pre = [] \<and>
        list_all quiet_event pre \<and>
        resolved_in s pre (ns req) (snap req) vsi \<and>
        answer cl (events s @ pre) (mk req (vsi_snapshot_handle vsi) secrets) = Inr csi))"
proof -
  obtain r1 s1 where a: "convert cl ctx req s = (r1, s1)" by fastforce
  obtain es where es: "s1 = s\<lparr>events := events s @ es\<rparr>" and quiet: "list_all lookup_event es"
    using convert_appends a by (rule appendsD)
  note quiet = delivered_setup(2) [OF quiet] quiet_setup(2) [OF quiet]
  show ?thesis
  proof (cases r1)
    case (Inl x)
    with a run have rt: "r = Inl x" "t = s1" by (auto simp: io_run)
    have "nil_status_read es (ns req) (snap req)" if "x = Panicked m" for m
      using convert_panic [of cl ctx req s m s1] a Inl that es by auto
    with rt es quiet(1) quiet_eventsD(2) [OF quiet(2)] show ?thesis by (intro exI [of _ es]) auto
  next
    case (Inr creq)
    have b: "call cl ctx creq s1 = (r, t)" using a run Inr by (simp add: io_run)
    obtain fs where fs: "t = s1\<lparr>events := events s1 @ fs\<rparr>" and quiet2: "list_all call_event fs"
      using call_appends b by (rule appendsD)
    note quiet2 = call_events [OF quiet2]
    obtain vsi secrets where vsi: "resolved_in s es (ns req) (snap req) vsi"
        "creq = mk req (vsi_snapshot_handle vsi) secrets"
      using convert_ok [OF a [unfolded Inr]] es by auto
    have "\<exists>pre vsi secrets. es @ fs = pre @ [opened (mk req (vsi_snapshot_handle vsi) secrets) None] \<and>
        delivered pre = [] \<and> list_all quiet_event pre \<and> resolved_in s pre (ns req) (snap req) vsi \<and>
        answer cl (events s @ pre) (mk req (vsi_snapshot_handle vsi) secrets) = Inr csi"
      if okr: "r = Inr csi" for csi
    proof -
      obtain log where "fs = log @ [opened creq None]" "answer cl (events s1 @ log) creq = Inr csi"
          "list_all log_event log"
        using call_ok [OF b [unfolded okr]] fs by auto
      with es vsi quiet delivered_setup(3) [of log] quiet_setup(3) [of log] resolved_in_append [of s es "ns req" "snap req" vsi "[]" log] show ?thesis
        by (intro exI [of _ "es @ log"] exI [of _ vsi] exI [of _ secrets]) simp
    qed
    with call_panic [of cl ctx creq s1] b es fs quiet(1) quiet_eventsD(2) [OF quiet(2)] quiet2 show ?thesis
      by (intro exI [of _ "es @ fs"]) auto
  qed
qed

lemma open_stream_run:
  assumes run: "open_stream cl ctx req s = (r, t)"
  shows "\<exists>es. t = s\<lparr>events := events s @ es\<rparr> \<and> open_outcome cl s req es r"
proof (cases "validate req")
  case (Some err)
  with run have "r = Inl (Failed err)"
      "t = s\<lparr>events := events s @ [LogEntry ErrorLog (Some err) ''validation failed'' ctx]\<rparr>"
    by (simp_all add: open_eq io_run reject_invalid_def)
  with Some show ?thesis by (auto simp: open_outcome_def gated_by_def)
next
  case None
  note valid = None
  obtain r1 s1 where a: "authenticateAndAuthorize cl ctx (token req) (ns req) s = (r1, s1)" by fastforce
  then obtain es where es: "s1 = s\<lparr>events := events s @ es\<rparr>" "list_all auth_event es"
      "auth_outcome s (token req) (ns req) es r1" by (rule authenticateAndAuthorize_run)
  note np = list_all_auth_not_protected [OF es(2)]
  show ?thesis
  proof (cases r1)
    case (Inl x)
    with run a valid have rt: "r = Inl x" "t = s1" by (auto simp: open_eq io_run reject_invalid_def)
    moreover have "x \<noteq> Panicked m" for m using es(3) Inl by (auto simp: auth_outcome_def)
    ultimately show ?thesis using es np valid delivered_setup(1) [OF es(2)] quiet_eventsD(2) [OF quiet_setup(1) [OF es(2)]]
      by (intro exI [of _ es]) (auto simp: open_outcome_def gated_by_none)
  next
    case (Inr u)
    have auth: "authorized_in es (token req) (ns req)"
      using es(3) Inr by (auto simp: auth_outcome_def authorized_in_def)
    obtain r2 s2 where b: "isCSIDriverReady ctx s1 = (r2, s2)" by fastforce
    from b show ?thesis
    proof (cases rule: isCSIDriverReady_cases)
      case (not_ready e)
      with run a b Inr valid have "r = Inl (Failed (StatusErr Unavailable msgUnavailableCSIDriverNotReady))" "t = s2"
        by (auto simp: open_eq io_run reject_invalid_def)
      with not_ready es np valid log_event_not_protected delivered_setup(1) [OF es(2)]
        delivered_setup(3) [of "[e]"] quiet_eventsD(2) [OF quiet_setup(1) [OF es(2)]]
        quiet_eventsD(2) [OF quiet_setup(3), of "[e]"] show ?thesis
        by (intro exI [of _ "es @ [e]"]) (auto simp: open_outcome_def intro!: gated_by_none)
    next
      case ready
      have c: "io_bind (convert cl ctx req) (\<lambda>creq. call cl ctx creq) s1 = (r, t)"
        using run a b Inr valid ready by (simp add: open_eq io_run reject_invalid_def)
      from open_stream_after_auth [OF ready(1) valid c] obtain fs where
        fs: "t = s1\<lparr>events := events s1 @ fs\<rparr>"
          "\<And>m. r = Inl (Panicked m) \<Longrightarrow> nil_status_read fs (ns req) (snap req)"
          "\<And>x. r = Inl x \<Longrightarrow> delivered fs = []" "list_all (\<lambda>e. \<not> metric_event e) fs"
          "\<And>csi. r = Inr csi \<Longrightarrow> \<exists>pre vsi secrets.
            fs = pre @ [opened (mk req (vsi_snapshot_handle vsi) secrets) None] \<and> delivered pre = [] \<and>
            list_all quiet_event pre \<and> resolved_in s1 pre (ns req) (snap req) vsi \<and>
            answer cl (events s1 @ pre) (mk req (vsi_snapshot_handle vsi) secrets) = Inr csi" by blast
      have same: "IsReady s1 = IsReady s" "driverName s1 = driverName s"
        using same_server_fields [of s s1] es(1) by simp_all
      have "opened_by cl s req (es @ fs) csi" if "r = Inr csi" for csi
      proof -
        from fs(5) [OF that] obtain pre vsi secrets where *:
          "fs = pre @ [opened (mk req (vsi_snapshot_handle vsi) secrets) None]" "delivered pre = []"
          "list_all quiet_event pre" "resolved_in s1 pre (ns req) (snap req) vsi"
          "answer cl (events s1 @ pre) (mk req (vsi_snapshot_handle vsi) secrets) = Inr csi" by blast
        have "resolved_in s (es @ pre) (ns req) (snap req) vsi"
          using resolved_in_append [of s1 pre _ _ _ es "[]"] *(4) same
          by (simp add: resolved_in_def)
        moreover have "authorized_in (es @ pre) (token req) (ns req)"
          using auth by (rule authorized_in_mono) simp
        ultimately show ?thesis using * ready same valid es(1) delivered_setup(1) [OF es(2)]
            quiet_setup(1) [OF es(2)]
          unfolding opened_by_def
          by (intro conjI exI [of _ "es @ pre"] exI [of _ vsi] exI [of _ secrets]) simp_all
      qed
      moreover have "gated_by (es @ fs) (token req) (ns req)"
        using gated_by_append gated_by_none [OF np] auth by blast
      ultimately show ?thesis using es fs ready same valid nil_status_read_append delivered_setup(1) [OF es(2)]
          quiet_eventsD(2) [OF quiet_setup(1) [OF es(2)]]
        by (intro exI [of _ "es @ fs"]) (auto simp: open_outcome_def)
    qed
  qed
qed

definition session_outcome :: "cluster \<Rightarrow> server \<Rightarrow> 'req \<Rightarrow> event list \<Rightarrow> exn + unit \<Rightarrow> bool" where
  "session_outcome cl s req es r \<longleftrightarrow>
     (\<exists>e. r = Inl e \<and> open_outcome cl (session_start s) req es (Inl e)) \<or>
     (\<exists>as bs csi. es = as @ bs \<and> open_outcome cl (session_start s) req as (Inr csi) \<and>
        list_all relay_event bs \<and> (\<forall>m. r \<noteq> Inl (Panicked m)) \<and>
        relayed conv csi 0 (filter stream_event bs) (returned_error r))"

lemma handler_run:
  assumes run: "handler cl send req s = Some (r, t)"
  shows "\<exists>es. t = (session_start s)\<lparr>events := events (session_start s) @ es @
      [RecordMetrics \<lparr>mr_operation = op_name, mr_error = returned_error r, mr_labels = labels req\<rparr>]\<rparr> \<and>
    session_outcome cl s req es r"
proof -
  obtain ctx where ctx: "logger req s = (Inr ctx, s\<lparr>opNumber := opNumber s + 1\<rparr>)"
    using logger_eq by blast
  let ?s1 = "session_start s"
  obtain x s2 where x: "open_stream cl ctx req ?s1 = (x, s2)" by fastforce
  obtain es where es: "s2 = ?s1\<lparr>events := events ?s1 @ es\<rparr>" "open_outcome cl ?s1 req es x"
    using open_stream_run [OF x] by blast
  note finish = record_metrics_run [OF labels_known]
  note x' = x [unfolded session_start_def]
  show ?thesis
  proof (cases x)
    case (Inl e)
    then have "r = Inl e" "t = after (record_metrics (labels req) op_name (returned_error (Inl e))) s2"
      using run by (auto simp: handler_eq ctx x' Inl Let_def split: exn.splits)
    with es Inl finish show ?thesis
      by (intro exI [of _ es]) (auto simp: session_outcome_def)
  next
    case (Inr csi)
    then obtain err u where u: "loop ctx send csi 0 stream_init s2 = Some (err, u)"
      using run by (auto simp: handler_eq ctx x' Inr Let_def split: option.splits)
    obtain fs where fs: "u = s2\<lparr>events := events s2 @ fs\<rparr>" "list_all relay_event fs"
        "relayed conv csi 0 (filter stream_event fs) err"
      using loop_relays [OF u] by blast
    have "returned_error r = err" "\<forall>m. r \<noteq> Inl (Panicked m)"
        "t = after (record_metrics (labels req) op_name err) u"
      using run by (auto simp: handler_eq ctx x' Inr u Let_def split: option.splits)
    moreover have "session_outcome cl s req (es @ fs) r"
      unfolding session_outcome_def using es(2) fs calculation Inr
      by (intro disjI2 exI [of _ es] exI [of _ fs] exI [of _ csi]) simp
    ultimately show ?thesis using es fs finish by (intro exI [of _ "es @ fs"]) simp
  qed
qed

lemma relay_event_not_setup: "relay_event e \<Longrightarrow> \<not> nil_status_read [e] n m"
  by (cases e) (auto simp: nil_status_read_def)

lemma session_gated: "session_outcome cl s req es r \<Longrightarrow> gated_by es (token req) (ns req)"
proof (unfold session_outcome_def, elim disjE exE conjE)
  fix as bs csi
  assume es: "es = as @ bs" and o: "open_outcome cl (session_start s) req as (Inr csi)"
  then obtain pre x where pre: "as = pre @ [x]" and auth: "authorized_in pre (token req) (ns req)"
    unfolding open_outcome_def opened_by_def by blast
  from auth have "authorized_in as (token req) (ns req)" by (rule authorized_in_mono) (auto simp: pre)
  moreover have "gated_by as (token req) (ns req)" using o by (simp add: open_outcome_def)
  ultimately show "gated_by es (token req) (ns req)" unfolding es by (intro gated_by_append disjI1)
qed (simp add: open_outcome_def)

lemma handler_gated:
  assumes "handler cl send req s = Some (r, t)"
  shows "\<exists>es. events t = events s @ es \<and> gated_by es (token req) (ns req)"
proof -
  let ?m = "RecordMetrics \<lparr>mr_operation = op_name, mr_error = returned_error r, mr_labels = labels req\<rparr>"
  obtain es where es: "t = (session_start s)\<lparr>events := events (session_start s) @ es @ [?m]\<rparr>"
      "session_outcome cl s req es r" using handler_run [OF assms] by blast
  have "gated_by (StreamDeadline (MaxStreamDur (config s)) # es @ [?m]) (token req) (ns req)"
    using session_gated [OF es(2)] by (intro gated_by_Cons gated_by_append) simp_all
  with es(1) show ?thesis by (intro exI conjI) simp_all
qed

lemma session_metrics: "session_outcome cl s req es r \<Longrightarrow> list_all (\<lambda>e. \<not> metric_event e) es"
  by (auto simp: session_outcome_def open_outcome_def dest!: quiet_setup(4) quiet_eventsD(2))

lemma handler_one_metric:
  assumes "handler cl send req s = Some (r, t)"
  shows "\<exists>es. list_all (\<lambda>e. \<not> metric_event e) es \<and> t = s\<lparr>opNumber := opNumber s + 1,
    events := events s @ es @ [RecordMetrics \<lparr>mr_operation = op_name,
      mr_error = returned_error r, mr_labels = labels req\<rparr>]\<rparr>"
proof -
  let ?m = "RecordMetrics \<lparr>mr_operation = op_name, mr_error = returned_error r, mr_labels = labels req\<rparr>"
  obtain es where "t = (session_start s)\<lparr>events := events (session_start s) @ es @ [?m]\<rparr>"
      "session_outcome cl s req es r" using handler_run [OF assms] by blast
  with session_metrics [of cl s req es r] show ?thesis
    by (intro exI [of _ "StreamDeadline (MaxStreamDur (config s)) # es"]) (simp add: session_start_def)
qed

lemma handler_returns_metric:
  assumes "handler cl send req s = Some (r, t)"
  shows "\<exists>es. events t = events s @ es @ [RecordMetrics \<lparr>mr_operation = op_name,
      mr_error = returned_error r, mr_labels = labels req\<rparr>] \<and> opNumber t = opNumber s + 1 \<and>
    config t = config s \<and> healthServer t = healthServer s"
proof -
  let ?m = "RecordMetrics \<lparr>mr_operation = op_name, mr_error = returned_error r, mr_labels = labels req\<rparr>"
  obtain es where "t = (session_start s)\<lparr>events := events (session_start s) @ es @ [?m]\<rparr>"
    using handler_run [OF assms] by blast
  then show ?thesis
    by (intro exI [of _ "StreamDeadline (MaxStreamDur (config s)) # es"]) (simp add: session_start_def)
qed

lemma session_not_ready:
  "session_outcome cl s req es r \<Longrightarrow> \<not> IsReady s \<Longrightarrow>
     r \<noteq> Inr () \<and> list_all (\<lambda>e. \<not> protected e) es"
  by (auto simp: session_outcome_def open_outcome_def opened_by_def)

lemma session_invalid:
  "session_outcome cl s req es r \<Longrightarrow> validate req = Some err \<Longrightarrow>
     r = Inl (Failed err) \<and> list_all log_event es"
  by (auto simp: session_outcome_def open_outcome_def)

lemma session_panic:
  "session_outcome cl s req es (Inl (Panicked m)) \<Longrightarrow> nil_status_read es (ns req) (snap req)"
  by (auto simp: session_outcome_def open_outcome_def)

lemma session_ok:
  assumes "session_outcome cl s req es (Inr ())"
  shows "\<exists>pre post vsi secrets csi msgs.
    es = pre @ [opened (mk req (vsi_snapshot_handle vsi) secrets) None] @ post \<and>
    list_all (\<lambda>e. \<not> driver_call e) (pre @ post) \<and> validate req = None \<and> IsReady s \<and> delivered pre = [] \<and> authorized_in pre (token req) (ns req) \<and>
    resolved_in s pre (ns req) (snap req) vsi \<and>
    answer cl (events (session_start s) @ pre) (mk req (vsi_snapshot_handle vsi) secrets) = Inr csi \<and>
    (\<forall>i < length msgs. csi i = RecvMsg (msgs ! i)) \<and> csi (length msgs) = RecvEOF \<and>
    delivered post = map conv msgs"
proof -
  from assms obtain as bs csi where es: "es = as @ bs"
      and o: "open_outcome cl (session_start s) req as (Inr csi)"
      and bs: "relayed conv csi 0 (filter stream_event bs) None" and rel: "list_all relay_event bs"
    by (auto simp: session_outcome_def)
  from o have ob: "opened_by cl (session_start s) req as csi" by (simp add: open_outcome_def)
  then obtain pre vsi secrets where pre: "as = pre @ [opened (mk req (vsi_snapshot_handle vsi) secrets) None]"
      "delivered pre = []" "list_all quiet_event pre"
      "authorized_in pre (token req) (ns req)" "resolved_in (session_start s) pre (ns req) (snap req) vsi"
      "answer cl (events (session_start s) @ pre) (mk req (vsi_snapshot_handle vsi) secrets) = Inr csi"
    unfolding opened_by_def by blast
  from ob have "validate req = None" "IsReady s" by (simp_all add: opened_by_def)
  moreover obtain msgs where "\<forall>i < length msgs. csi i = RecvMsg (msgs ! i)"
      "delivered bs = map conv msgs" "csi (length msgs) = RecvEOF"
    using relayed_delivered [OF bs] by auto
  moreover have "resolved_in s pre (ns req) (snap req) vsi"
    using pre(5) by (simp add: resolved_in_def)
  moreover have "list_all (\<lambda>e. \<not> driver_call e) (pre @ bs)"
    using quiet_eventsD(1) [OF pre(3)] quiet_eventsD(1) [OF quiet_setup(4) [OF rel]] by simp
  ultimately show ?thesis using es pre by (metis append.assoc)
qed

lemma handler_session:
  assumes "handler cl send req s = Some (r, t)"
  shows "\<exists>es m. events t = events s @ [StreamDeadline (MaxStreamDur (config s))] @ es @ [RecordMetrics m] \<and>
    session_outcome cl s req es r"
proof -
  obtain es m where "t = (session_start s)\<lparr>events := events (session_start s) @ es @ [RecordMetrics m]\<rparr>"
      "session_outcome cl s req es r" using handler_run [OF assms] by blast
  then show ?thesis by (intro exI conjI) simp_all
qed

lemma handler_not_ready:
  assumes "handler cl send req s = Some (r, t)" "\<not> IsReady s"
  shows "r \<noteq> Inr () \<and> (\<exists>es. events t = events s @ es \<and> list_all (\<lambda>e. \<not> protected e) es)"
proof -
  obtain es m where es: "events t = events s @ [StreamDeadline (MaxStreamDur (config s))] @ es @ [RecordMetrics m]"
      "session_outcome cl s req es r" using handler_session [OF assms(1)] by blast
  with session_not_ready [OF es(2) assms(2)] show ?thesis
    by (intro conjI exI [of _ "[StreamDeadline (MaxStreamDur (config s))] @ es @ [RecordMetrics m]"]) simp_all
qed

lemma handler_invalid:
  assumes "handler cl send req s = Some (r, t)" "validate req = Some err"
  shows "\<exists>e d. r = Inl (Failed err) \<and>
    (\<exists>es. events t = events s @ [StreamDeadline d] @ es @ [RecordMetrics e] \<and> list_all log_event es)"
  using handler_session [OF assms(1)] session_invalid [OF _ assms(2)] by blast

lemma handler_panic:
  assumes "handler cl send req s = Some (Inl (Panicked m), t)"
  shows "\<exists>es. events t = events s @ es \<and> nil_status_read es (ns req) (snap req)"
proof -
  obtain es x where es: "events t = events s @ [StreamDeadline (MaxStreamDur (config s))] @ es @ [RecordMetrics x]"
      "session_outcome cl s req es (Inl (Panicked m))" using handler_session [OF assms] by blast
  with session_panic [OF es(2)] show ?thesis
    by (intro exI [of _ "[StreamDeadline (MaxStreamDur (config s))] @ es @ [RecordMetrics x]"])
      (auto simp: nil_status_read_def)
qed

lemma handler_ok:
  assumes "handler cl send req s = Some (Inr (), t)"
  shows "\<exists>pre post vsi secrets csi msgs creq.
    events t = events s @ pre @ [opened creq None] @ post \<and>
    list_all (\<lambda>e. \<not> driver_call e) (pre @ post) \<and> creq = mk req (vsi_snapshot_handle vsi) secrets \<and>
    validate req = None \<and> IsReady s \<and> delivered pre = [] \<and> authorized_in pre (token req) (ns req) \<and>
    resolved_in s pre (ns req) (snap req) vsi \<and>
    answer cl (events s @ pre) creq = Inr csi \<and>
    (\<forall>i < length msgs. csi i = RecvMsg (msgs ! i)) \<and> csi (length msgs) = RecvEOF \<and>
    delivered post = map conv msgs"
proof -
  let ?d = "[StreamDeadline (MaxStreamDur (config s))]"
  obtain es m where es: "events t = events s @ ?d @ es @ [RecordMetrics m]"
      "session_outcome cl s req es (Inr ())" using handler_session [OF assms] by blast
  obtain pre post vsi secrets csi msgs where ok:
    "es = pre @ [opened (mk req (vsi_snapshot_handle vsi) secrets) None] @ post"
    "list_all (\<lambda>e. \<not> driver_call e) (pre @ post)" "validate req = None" "IsReady s" "delivered pre = []" "authorized_in pre (token req) (ns req)"
    "resolved_in s pre (ns req) (snap req) vsi"
    "answer cl (events (session_start s) @ pre) (mk req (vsi_snapshot_handle vsi) secrets) = Inr csi"
    "\<forall>i < length msgs. csi i = RecvMsg (msgs ! i)" "csi (length msgs) = RecvEOF"
    "delivered post = map conv msgs"
    using session_ok [OF es(2)] by blast
  have "authorized_in (?d @ pre) (token req) (ns req)"
    using ok(6) by (rule authorized_in_mono) auto
  moreover have "resolved_in s (?d @ pre) (ns req) (snap req) vsi"
    using resolved_in_append [OF ok(7), of ?d "[]"] by simp
  ultimately show ?thesis using es ok
    by (intro exI [of _ "?d @ pre"] exI [of _ "post @ [RecordMetrics m]"] exI [of _ vsi]
        exI [of _ secrets] exI [of _ csi] exI [of _ msgs]) simp
qed

text \<open>However a handler ends, what it sent is the beginning of the stream it opened.\<close>

definition opened_stream :: "cluster \<Rightarrow> server \<Rightarrow> 'req \<Rightarrow> csi_stream \<Rightarrow> bool" where
  "opened_stream cl s req csi \<longleftrightarrow> validate req = None \<and> IsReady s \<and>
     (\<exists>pre vsi secrets. authorized_in pre (token req) (ns req) \<and>
        resolved_in s pre (ns req) (snap req) vsi \<and>
        answer cl (events s @ pre) (mk req (vsi_snapshot_handle vsi) secrets) = Inr csi)"

lemma opened_by_delivers: "opened_by cl s req es csi \<Longrightarrow> delivered es = []"
  using call_events(1) [of "[opened c x]" for c x] opened_call
  by (auto simp: opened_by_def call_event_def)

lemma handler_sent:
  assumes "handler cl send req s = Some (r, t)"
  shows "\<exists>es msgs. events t = events s @ es \<and> delivered es = map conv msgs \<and>
    (msgs \<noteq> [] \<or> r = Inr () \<longrightarrow> (\<exists>csi. opened_stream cl s req csi \<and>
       (\<forall>i < length msgs. csi i = RecvMsg (msgs ! i)) \<and> (r = Inr () \<longrightarrow> csi (length msgs) = RecvEOF)))"
proof -
  let ?d = "StreamDeadline (MaxStreamDur (config s))"
  obtain es m where es: "events t = events s @ [?d] @ es @ [RecordMetrics m]"
      "session_outcome cl s req es r" using handler_session [OF assms] by blast
  from es(2) consider
      (failed) x where "r = Inl x" "open_outcome cl (session_start s) req es (Inl x)"
    | (opened) as bs csi where "es = as @ bs" "open_outcome cl (session_start s) req as (Inr csi)"
        "relayed conv csi 0 (filter stream_event bs) (returned_error r)"
    unfolding session_outcome_def by blast
  then show ?thesis
  proof cases
    case failed
    then have "delivered es = []" by (simp add: open_outcome_def)
    with es failed(1) show ?thesis by (intro exI [of _ "?d # es @ [RecordMetrics m]"] exI [of _ "[]"]) simp
  next
    case opened
    from opened(2) have ob: "opened_by cl (session_start s) req as csi" by (simp add: open_outcome_def)
    then obtain pre vsi secrets where pre: "validate req = None" "IsReady s"
        "authorized_in pre (token req) (ns req)" "resolved_in (session_start s) pre (ns req) (snap req) vsi"
        "answer cl (events (session_start s) @ pre) (mk req (vsi_snapshot_handle vsi) secrets) = Inr csi"
      unfolding opened_by_def by auto
    have "authorized_in (?d # pre) (token req) (ns req)" using pre(3) by (rule authorized_in_mono) auto
    moreover have "resolved_in s (?d # pre) (ns req) (snap req) vsi"
      using resolved_in_append [OF pre(4), of "[?d]" "[]"] by (simp add: resolved_in_def)
    ultimately have "opened_stream cl s req csi"
      using pre unfolding opened_stream_def
      by (intro conjI exI [of _ "?d # pre"] exI [of _ vsi] exI [of _ secrets]) simp_all
    moreover obtain msgs where "\<forall>i < length msgs. csi i = RecvMsg (msgs ! i)" "delivered bs = map conv msgs"
        "returned_error r = None \<longrightarrow> csi (length msgs) = RecvEOF"
      using relayed_delivered [OF opened(3)] by auto
    ultimately show ?thesis using es opened(1) opened_by_delivers [OF ob]
      by (intro exI [of _ "?d # es @ [RecordMetrics m]"] exI [of _ msgs]) auto
  qed
qed

end

subsection \<open>Both handlers keep the contract\<close>

lemma convert_cases:
  assumes run: "io_bind (getVolSnapshotInfo cl ctx ns n) (\<lambda>vsi s.
       if vsi_driver_name vsi \<noteq> driverName s
       then io_then (log_error ctx (Some (err s)) m []) (io_fail (err s)) s
       else io_bind (getSnapshotterCredentials cl ctx vsi) (\<lambda>secrets. io_ret (mk vsi secrets)) s) s = (r, t)"
  obtains (ok) es vsi secrets where "r = Inr (mk vsi secrets)" "t = s\<lparr>events := events s @ es\<rparr>"
      "resolved_in s es ns n vsi"
  | (failed) e where "r = Inl (Failed e)"
  | (panic) p es where "r = Inl (Panicked p)" "t = s\<lparr>events := events s @ es\<rparr>" "nil_status_read es ns n"
proof -
  obtain r1 s1 where a: "getVolSnapshotInfo cl ctx ns n s = (r1, s1)" by fastforce
  from a show ?thesis
  proof (cases rule: getVolSnapshotInfo_cases)
    case (error msg es)
    with run a show ?thesis by (intro that(2)) (auto simp: io_run)
  next
    case (panic m es)
    with run a show ?thesis by (intro that(3)) (auto simp: io_run)
  next
    case (ok vsi es)
    note info = ok
    show ?thesis
    proof (cases "vsi_driver_name vsi = driverName s1")
      case False
      with run a info show ?thesis by (intro that(2)) (auto simp: io_run)
    next
      case True
      obtain r2 s2 where b: "getSnapshotterCredentials cl ctx vsi s1 = (r2, s2)" by fastforce
      obtain fs where fs: "s2 = s1\<lparr>events := events s1 @ fs\<rparr>"
        using appends_getSnapshotterCredentials b by (rule appendsD)
      show ?thesis
      proof (cases r2)
        case (Inl e)
        with io_hoareD [OF getSnapshotterCredentials_never_panics _ b] have "\<forall>p. e \<noteq> Panicked p" by simp
        with run a b info True Inl show ?thesis by (cases e) (auto simp: io_run intro: that(2))
      next
        case (Inr secrets)
        have d: "vsi_driver_name vsi = driverName s"
          using True info(2) by (simp add: driverName_def)
        have "r = Inr (mk vsi secrets)" "t = s\<lparr>events := events s @ es @ fs\<rparr>"
          using run a b info True Inr fs by (simp_all add: io_run)
        moreover have "resolved_in s (es @ fs) ns n vsi"
          unfolding resolved_in_def using d info(3) by (metis append_Nil)
        ultimately show ?thesis by (rule that(1))
      qed
    qed
  qed
qed

lemma log_info_call:
  obtains (off) "log_info_v v ctx msg kvs s = (Inr (), s)"
  | (on) e where "log_event e" "log_info_v v ctx msg kvs s = (Inr (), s\<lparr>events := events s @ [e]\<rparr>)"
proof (cases "v \<le> klog_v s")
  case True
  then show thesis
    by (intro on [of "LogEntry InfoLog None msg (ctx @ kvs)"]) (simp_all add: io_run)
next
  case False
  then show thesis by (intro off) (simp add: io_run)
qed

lemma csi_call_ok:
  assumes "io_then (log_info_v v ctx msg kvs)
       (io_catch (k_call (\<lambda>r. ev (error_of r)) f)
          (\<lambda>err. io_then (log_error ctx (Some err) m []) (io_fail err))) s = (Inr csi, t)"
  shows "\<exists>log. t = s\<lparr>events := events s @ log @ [ev None]\<rparr> \<and> list_all log_event log \<and>
    f (events s @ log) = Inr csi"
proof (cases rule: log_info_call [of v ctx msg kvs s])
  case off
  with assms show ?thesis
    by (intro exI [of _ "[]"]) (auto simp: io_run error_of_def split: sum.splits)
next
  case (on e)
  with assms show ?thesis
    by (intro exI [of _ "[e]"]) (auto simp: io_run error_of_def split: sum.splits)
qed

lemma csi_call_never_panics:
  "never_panics (io_then (log_info_v v ctx msg kvs)
       (io_catch (k_call ev f) (\<lambda>err. io_then (log_error ctx (Some err) m []) (io_fail err))))"
proof -
  have "never_panics (log_info_v v ctx msg kvs)" by (simp add: io_hoare_def io_run)
  then show ?thesis by (intro never_panics_rules)
qed

lemma never_panicsD: "never_panics m \<Longrightarrow> m s \<noteq> (Inl (Panicked p), t)"
  unfolding io_hoare_def by (auto split: prod.splits sum.splits)

lemma appends_convert:
  "appends lookup_event (io_bind (getVolSnapshotInfo cl ctx ns n) (\<lambda>vsi s.
       if vsi_driver_name vsi \<noteq> driverName s
       then io_then (log_error ctx (Some (err s)) m []) (io_fail (err s)) s
       else io_bind (getSnapshotterCredentials cl ctx vsi) (\<lambda>secrets. io_ret (mk vsi secrets)) s))"
proof (rule appends_bind)
  fix vsi
  have a: "appends lookup_event (io_then (log_error ctx (Some e) m []) (io_fail e))" for e
    by (intro appends_rules) simp
  have b: "appends lookup_event
      (io_bind (getSnapshotterCredentials cl ctx vsi) (\<lambda>secrets. io_ret (mk vsi secrets)))"
    by (intro appends_rules)
  show "appends lookup_event (\<lambda>s.
       if vsi_driver_name vsi \<noteq> driverName s
       then io_then (log_error ctx (Some (err s)) m []) (io_fail (err s)) s
       else io_bind (getSnapshotterCredentials cl ctx vsi) (\<lambda>secrets. io_ret (mk vsi secrets)) s)"
    using a [unfolded appends_def] b [unfolded appends_def] unfolding appends_def by auto
qed (rule appends_getVolSnapshotInfo)

lemma appends_csi_call:
  assumes "\<And>r. driver_call (ev r)"
  shows "appends call_event (io_then (log_info_v v ctx msg kvs)
       (io_catch (k_call ev f) (\<lambda>err. io_then (log_error ctx (Some err) m []) (io_fail err))))"
  using assms by (intro appends_rules) (simp_all add: call_event_def)

interpretation allocated_rpc: metadata_rpc
  convertToGetMetadataAllocatedResponse streamGetMetadataAllocatedResponse
  validateGetMetadataAllocatedRequest gma_security_token gma_namespace gma_snapshot_name
  convertToCSIGetMetadataAllocatedRequest
  "\<lambda>req handle secrets. \<lparr>csia_snapshot_id = handle, csia_starting_offset = gma_starting_offset req,
     csia_max_results = gma_max_results req, csia_secrets = secrets\<rparr>"
  callCSIGetMetadataAllocated CsiGetMetadataAllocated cl_csi_allocated
  openMetadataAllocated getMetadataAllocatedContextWithLogger
  "\<lambda>req. [LabelTargetSnapshotName \<mapsto> gma_namespace req @ ''/'' @ gma_snapshot_name req]"
  MetadataAllocatedOperationName GetMetadataAllocated
proof unfold_locales
  fix cl ctx and req :: get_metadata_allocated_request and s creq csi t m
  let ?n = "gma_namespace req" and ?v = "gma_snapshot_name req"
  show "appends lookup_event (convertToCSIGetMetadataAllocatedRequest cl ctx req)"
    unfolding convertToCSIGetMetadataAllocatedRequest_def Let_def by (rule appends_convert)
  show "\<exists>es vsi secrets. t = s\<lparr>events := events s @ es\<rparr> \<and> resolved_in s es ?n ?v vsi \<and> creq = 
      \<lparr>csia_snapshot_id = vsi_snapshot_handle vsi, csia_starting_offset = gma_starting_offset req,
       csia_max_results = gma_max_results req, csia_secrets = secrets\<rparr>"
    if "convertToCSIGetMetadataAllocatedRequest cl ctx req s = (Inr creq, t)"
    using that unfolding convertToCSIGetMetadataAllocatedRequest_def Let_def
    by (cases rule: convert_cases) blast+
  show "\<exists>es. t = s\<lparr>events := events s @ es\<rparr> \<and> nil_status_read es ?n ?v"
    if "convertToCSIGetMetadataAllocatedRequest cl ctx req s = (Inl (Panicked m), t)"
    using that unfolding convertToCSIGetMetadataAllocatedRequest_def Let_def
    by (cases rule: convert_cases) blast+
  show "\<exists>log. t = s\<lparr>events := events s @ log @ [CsiGetMetadataAllocated creq None]\<rparr> \<and>
      list_all log_event log \<and> cl_csi_allocated cl (events s @ log) creq = Inr csi"
    if "callCSIGetMetadataAllocated cl ctx creq s = (Inr csi, t)"
    using that unfolding callCSIGetMetadataAllocated_def by (rule csi_call_ok)
  show "appends call_event (callCSIGetMetadataAllocated cl ctx creq)"
    unfolding callCSIGetMetadataAllocated_def by (rule appends_csi_call) simp
  show "callCSIGetMetadataAllocated cl ctx creq s \<noteq> (Inl (Panicked m), t)"
    unfolding callCSIGetMetadataAllocated_def by (rule never_panicsD [OF csi_call_never_panics])
  show "\<exists>ctx. getMetadataAllocatedContextWithLogger req s = (Inr ctx, s\<lparr>opNumber := opNumber s + 1\<rparr>)"
    by (simp add: getMetadataAllocatedContextWithLogger_def OperationID_def io_run Let_def)
qed (simp_all add: openMetadataAllocated_def csiConnect_label_names_def GetMetadataAllocated_def)

interpretation delta_rpc: metadata_rpc
  convertToGetMetadataDeltaResponse streamGetMetadataDeltaResponse
  validateGetMetadataDeltaRequest gmd_security_token gmd_namespace gmd_target_snapshot_name
  convertToCSIGetMetadataDeltaRequest
  "\<lambda>req handle secrets. \<lparr>csid_base_snapshot_id = gmd_base_snapshot_id req,
     csid_target_snapshot_id = handle, csid_starting_offset = gmd_starting_offset req,
     csid_max_results = gmd_max_results req, csid_secrets = secrets\<rparr>"
  callCSIGetMetadataDelta CsiGetMetadataDelta cl_csi_delta
  openMetadataDelta getMetadataDeltaContextWithLogger
  "\<lambda>req. [LabelTargetSnapshotName \<mapsto> gmd_namespace req @ ''/'' @ gmd_target_snapshot_name req,
     LabelBaseSnapshotID \<mapsto> gmd_base_snapshot_id req]"
  MetadataAllocatedOperationName GetMetadataDelta
proof unfold_locales
  fix cl ctx and req :: get_metadata_delta_request and s creq csi t m
  let ?n = "gmd_namespace req" and ?v = "gmd_target_snapshot_name req"
  show "appends lookup_event (convertToCSIGetMetadataDeltaRequest cl ctx req)"
    unfolding convertToCSIGetMetadataDeltaRequest_def Let_def by (rule appends_convert)
  show "\<exists>es vsi secrets. t = s\<lparr>events := events s @ es\<rparr> \<and> resolved_in s es ?n ?v vsi \<and> creq = 
      \<lparr>csid_base_snapshot_id = gmd_base_snapshot_id req, csid_target_snapshot_id = vsi_snapshot_handle vsi,
       csid_starting_offset = gmd_starting_offset req, csid_max_results = gmd_max_results req,
       csid_secrets = secrets\<rparr>"
    if "convertToCSIGetMetadataDeltaRequest cl ctx req s = (Inr creq, t)"
    using that unfolding convertToCSIGetMetadataDeltaRequest_def Let_def
    by (cases rule: convert_cases) blast+
  show "\<exists>es. t = s\<lparr>events := events s @ es\<rparr> \<and> nil_status_read es ?n ?v"
    if "convertToCSIGetMetadataDeltaRequest cl ctx req s = (Inl (Panicked m), t)"
    using that unfolding convertToCSIGetMetadataDeltaRequest_def Let_def
    by (cases rule: convert_cases) blast+
  show "\<exists>log. t = s\<lparr>events := events s @ log @ [CsiGetMetadataDelta creq None]\<rparr> \<and>
      list_all log_event log \<and> cl_csi_delta cl (events s @ log) creq = Inr csi"
    if "callCSIGetMetadataDelta cl ctx creq s = (Inr csi, t)"
    using that unfolding callCSIGetMetadataDelta_def by (rule csi_call_ok)
  show "appends call_event (callCSIGetMetadataDelta cl ctx creq)"
    unfolding callCSIGetMetadataDelta_def by (rule appends_csi_call) simp
  show "callCSIGetMetadataDelta cl ctx creq s \<noteq> (Inl (Panicked m), t)"
    unfolding callCSIGetMetadataDelta_def by (rule never_panicsD [OF csi_call_never_panics])
  show "\<exists>ctx. getMetadataDeltaContextWithLogger req s = (Inr ctx, s\<lparr>opNumber := opNumber s + 1\<rparr>)"
    by (simp add: getMetadataDeltaContextWithLogger_def OperationID_def io_run Let_def)
qed (simp_all add: openMetadataDelta_def csiConnect_label_names_def GetMetadataDelta_def)

subsection \<open>Properties\<close>

text \<open>
  C3. Nothing is done for a client before it is authorized: whenever the handler of allocated
  blocks reads a snapshot, a content, a class or a secret, calls the CSI driver, receives from
  it or sends to the client, the events before that show that the token of the request was
  found authentic for an audience and its user allowed to get the snapshots of the namespace
  of the request. This holds however the handler ends.
\<close>
theorem GetMetadataAllocated_gated:
  assumes "GetMetadataAllocated cl send req s = Some (r, t)"
  shows "\<exists>es. events t = events s @ es \<and> gated_by es (gma_security_token req) (gma_namespace req)"
  using allocated_rpc.handler_gated [OF assms] .

text \<open>
  C4. The same for the handler of changed blocks: no read of a cluster object, no call of the
  driver and no message to the client before the events show the authorization.
\<close>
theorem GetMetadataDelta_gated:
  assumes "GetMetadataDelta cl send req s = Some (r, t)"
  shows "\<exists>es. events t = events s @ es \<and> gated_by es (gmd_security_token req) (gmd_namespace req)"
  using delta_rpc.handler_gated [OF assms] .

text \<open>
  C5. A successful \<open>GetMetadataAllocated\<close> is what the client asked for: the request was valid,
  the client authorized and the driver ready; the named snapshot was resolved to a content of
  this driver, whose handle went to the driver with the offset and the limit of the request, in
  the one call that opens a stream of the driver; and the client got the conversion of every message of the stream the driver answered with.
\<close>
theorem GetMetadataAllocated_ok:
  assumes "GetMetadataAllocated cl send req s = Some (Inr (), t)"
  shows "\<exists>pre post vsi secrets csi msgs csiReq.
    events t = events s @ pre @ [CsiGetMetadataAllocated csiReq None] @ post \<and>
    list_all (\<lambda>e. \<not> driver_call e) (pre @ post) \<and>
    csiReq = \<lparr>csia_snapshot_id = vsi_snapshot_handle vsi,
       csia_starting_offset = gma_starting_offset req,
       csia_max_results = gma_max_results req, csia_secrets = secrets\<rparr> \<and>
    validateGetMetadataAllocatedRequest req = None \<and> IsReady s \<and> delivered pre = [] \<and>
    authorized_in pre (gma_security_token req) (gma_namespace req) \<and>
    resolved_in s pre (gma_namespace req) (gma_snapshot_name req) vsi \<and>
    cl_csi_allocated cl (events s @ pre) csiReq = Inr csi \<and>
    (\<forall>i < length msgs. csi i = RecvMsg (msgs ! i)) \<and> csi (length msgs) = RecvEOF \<and>
    delivered post = map convertToGetMetadataAllocatedResponse msgs"
  using allocated_rpc.handler_ok [OF assms] .

text \<open>
  C6. A successful \<open>GetMetadataDelta\<close> asked the driver, on behalf of an authorized client, for the
  changes between the base the client named and the handle of the resolved target, and relayed
  every message of the answer to the client.
\<close>
theorem GetMetadataDelta_ok:
  assumes "GetMetadataDelta cl send req s = Some (Inr (), t)"
  shows "\<exists>pre post vsi secrets csi msgs csiReq.
    events t = events s @ pre @ [CsiGetMetadataDelta csiReq None] @ post \<and>
    list_all (\<lambda>e. \<not> driver_call e) (pre @ post) \<and>
    csiReq = \<lparr>csid_base_snapshot_id = gmd_base_snapshot_id req,
       csid_target_snapshot_id = vsi_snapshot_handle vsi,
       csid_starting_offset = gmd_starting_offset req,
       csid_max_results = gmd_max_results req, csid_secrets = secrets\<rparr> \<and>
    validateGetMetadataDeltaRequest req = None \<and> IsReady s \<and> delivered pre = [] \<and>
    authorized_in pre (gmd_security_token req) (gmd_namespace req) \<and>
    resolved_in s pre (gmd_namespace req) (gmd_target_snapshot_name req) vsi \<and>
    cl_csi_delta cl (events s @ pre) csiReq = Inr csi \<and>
    (\<forall>i < length msgs. csi i = RecvMsg (msgs ! i)) \<and> csi (length msgs) = RecvEOF \<and>
    delivered post = map convertToGetMetadataDeltaResponse msgs"
  using delta_rpc.handler_ok [OF assms] .

text \<open>
  C37. A request with an empty token, namespace, base or target is rejected by
  \<open>GetMetadataDelta\<close> with the code InvalidArgument and the message of the first empty field, in
  this order, and without any request to the API server or the driver.
\<close>
theorem GetMetadataDelta_invalid:
  assumes "GetMetadataDelta cl send req s = Some (r, t)"
    and "gmd_security_token req = [] \<or> gmd_namespace req = [] \<or> gmd_base_snapshot_id req = [] \<or>
      gmd_target_snapshot_name req = []"
  shows "\<exists>e d. r = Inl (Failed (StatusErr InvalidArgument
      (if gmd_security_token req = [] then ''securityToken is missing''
       else if gmd_namespace req = [] then ''namespace parameter cannot be empty''
       else if gmd_base_snapshot_id req = [] then ''baseSnapshotId cannot be empty''
       else ''targetSnapshotName cannot be empty''))) \<and>
    (\<exists>es. events t = events s @ [StreamDeadline d] @ es @ [RecordMetrics e] \<and> list_all log_event es)"
proof -
  have "validateGetMetadataDeltaRequest req = Some (StatusErr InvalidArgument
      (if gmd_security_token req = [] then ''securityToken is missing''
       else if gmd_namespace req = [] then ''namespace parameter cannot be empty''
       else if gmd_base_snapshot_id req = [] then ''baseSnapshotId cannot be empty''
       else ''targetSnapshotName cannot be empty''))"
    using assms(2)
    by (auto simp: validateGetMetadataDeltaRequest_def msgInvalidArgumentSecurityTokenMissing_def
        msgInvalidArgumentNamespaceMissing_def msgInvalidArgumentBaseSnapshotIdMissing_def
        msgInvalidArgumentTargetSnapshotNameMissing_def)
  from delta_rpc.handler_invalid [OF assms(1) this] show ?thesis by blast
qed

text \<open>
  While the driver is not ready, \<open>GetMetadataAllocated\<close> fails without touching a snapshot, a
  secret or the driver, even for an authorized client.
\<close>
theorem GetMetadataAllocated_not_ready:
  assumes "\<not> IsReady s" "GetMetadataAllocated cl send req s = Some (r, t)"
  shows "r \<noteq> Inr () \<and> (\<exists>es. events t = events s @ es \<and> list_all (\<lambda>e. \<not> protected e) es)"
  using allocated_rpc.handler_not_ready [OF assms(2,1)] .

text \<open>
  C39. Every return of \<open>GetMetadataDelta\<close>, also by a panic, records exactly one metric, as its
  last effect, with the namespace and name of the target and the base as labels and with the
  error that is returned; of the server only the operation number, by one, and the trace have
  changed. The operation it is recorded under is MetadataAllocated, although a
  constant for MetadataDelta exists.
\<close>
theorem GetMetadataDelta_metric:
  assumes "GetMetadataDelta cl send req s = Some (r, t)"
  shows "(\<exists>es. list_all (\<lambda>e. \<not> metric_event e) es \<and> t = s\<lparr>opNumber := opNumber s + 1,
       events := events s @ es @ [RecordMetrics
         \<lparr>mr_operation = MetadataAllocatedOperationName, mr_error = returned_error r,
          mr_labels = [LabelTargetSnapshotName \<mapsto> gmd_namespace req @ ''/'' @ gmd_target_snapshot_name req,
                       LabelBaseSnapshotID \<mapsto> gmd_base_snapshot_id req]\<rparr>]\<rparr>) \<and>
     MetadataDeltaOperationName \<noteq> MetadataAllocatedOperationName"
proof -
  have "MetadataDeltaOperationName \<noteq> MetadataAllocatedOperationName"
    by (simp add: MetadataAllocatedOperationName_def MetadataDeltaOperationName_def)
  with delta_rpc.handler_one_metric [OF assms] show ?thesis by blast
qed

text \<open>
  C38. A panic of \<open>GetMetadataAllocated\<close> has one cause: the snapshot or its content was returned
  by the API server without a status, which the code dereferences.
\<close>
theorem GetMetadataAllocated_panic:
  assumes "GetMetadataAllocated cl send req s = Some (Inl (Panicked m), t)"
  shows "\<exists>es. events t = events s @ es \<and> nil_status_read es (gma_namespace req) (gma_snapshot_name req)"
  using allocated_rpc.handler_panic [OF assms] .

subsection \<open>Examples\<close>

definition allocated_request_example :: get_metadata_allocated_request where
  "allocated_request_example =
     \<lparr>gma_security_token = ''good'', gma_namespace = ''ns'', gma_snapshot_name = ''snap'',
      gma_starting_offset = 0, gma_max_results = 256\<rparr>"

definition delta_request_example :: get_metadata_delta_request where
  "delta_request_example =
     \<lparr>gmd_security_token = ''good'', gmd_namespace = ''ns'', gmd_base_snapshot_id = ''base'',
      gmd_target_snapshot_name = ''snap'', gmd_starting_offset = 0, gmd_max_results = 256\<rparr>"

definition delta_cluster_example :: cluster where
  "delta_cluster_example = cluster_example\<lparr>cl_csi_delta := \<lambda>h req. Inr csi_stream_example\<rparr>"

definition accepts_all :: client_stream where
  "accepts_all h m = SendReturns None"

lemmas handler_defs =
  openMetadataAllocated_def openMetadataDelta_def reject_invalid_def
  validateGetMetadataAllocatedRequest_def validateGetMetadataDeltaRequest_def
  getMetadataAllocatedContextWithLogger_def getMetadataDeltaContextWithLogger_def OperationID_def
  authenticateAndAuthorize_def authenticateRequest_def getAudienceForDriver_def Authenticate_def
  Authorize_def sar_request_def volumeSnapshotResourceAttrib_def isCSIDriverReady_def
  convertToCSIGetMetadataAllocatedRequest_def convertToCSIGetMetadataDeltaRequest_def
  getVolSnapshotInfo_def getVolumeSnapshot_def getVolumeSnapshotContent_def
  getSnapshotterCredentials_def getSnapshotterSecretRef_def getVolumeSnapshotClass_def
  callCSIGetMetadataAllocated_def callCSIGetMetadataDelta_def

lemma server_example_ready [simp]: "IsReady server_example"
  by (simp add: IsReady_def health_Check_def server_example_def)

lemma GetSecretReference_no_params [simp]: "GetSecretReference sp Map.empty c vs = Inr None"
  by (simp add: GetSecretReference_def verifyAndGetSecretNameAndNamespaceTemplate_def)

lemma open_allocated_example:
  "\<exists>t. openMetadataAllocated cluster_example ctx allocated_request_example (session_start server_example) =
     (Inr csi_stream_example, t)"
  by (simp add: handler_defs io_run Let_def cluster_example_def allocated_request_example_def
      session_start_def csi_stream_example_def fun_eq_iff)

lemma open_delta_example:
  "\<exists>t. openMetadataDelta delta_cluster_example ctx delta_request_example (session_start server_example) =
     (Inr csi_stream_example, t)"
  by (simp add: handler_defs io_run Let_def delta_cluster_example_def cluster_example_def
      delta_request_example_def session_start_def)

lemma csi_stream_example_relay:
  "\<exists>t. streamGetMetadataAllocatedResponse ctx accepts_all csi_stream_example 0 v s = Some (None, t)"
  "\<exists>t. streamGetMetadataDeltaResponse ctx accepts_all csi_stream_example 0 v s = Some (None, t)"
  by (simp_all add: streamGetMetadataAllocatedResponse.simps streamGetMetadataDeltaResponse.simps
      csi_stream_example_def accepts_all_def Let_def)

lemma allocated_example:
  "\<exists>t. GetMetadataAllocated cluster_example accepts_all allocated_request_example server_example =
     Some (Inr (), t)"
proof -
  obtain ctx where ctx: "getMetadataAllocatedContextWithLogger allocated_request_example server_example =
      (Inr ctx, server_example\<lparr>opNumber := opNumber server_example + 1\<rparr>)"
    using allocated_rpc.logger_eq by blast
  obtain t where "openMetadataAllocated cluster_example ctx allocated_request_example
      (session_start server_example) = (Inr csi_stream_example, t)"
    using open_allocated_example by blast
  with ctx csi_stream_example_relay(1) [of ctx stream_init t] show ?thesis
    by (auto simp: GetMetadataAllocated_def Let_def session_start_def)
qed

lemma delta_example:
  "\<exists>t. GetMetadataDelta delta_cluster_example accepts_all delta_request_example server_example =
     Some (Inr (), t)"
proof -
  obtain ctx where ctx: "getMetadataDeltaContextWithLogger delta_request_example server_example =
      (Inr ctx, server_example\<lparr>opNumber := opNumber server_example + 1\<rparr>)"
    using delta_rpc.logger_eq by blast
  obtain t where "openMetadataDelta delta_cluster_example ctx delta_request_example
      (session_start server_example) = (Inr csi_stream_example, t)"
    using open_delta_example by blast
  with ctx csi_stream_example_relay(2) [of ctx stream_init t] show ?thesis
    by (auto simp: GetMetadataDelta_def Let_def session_start_def)
qed

theorem GetMetadataAllocated_gated_witness:
  "\<exists>t es. GetMetadataAllocated cluster_example accepts_all allocated_request_example server_example =
      Some (Inr (), t) \<and> events t = events server_example @ es \<and> gated_by es ''good'' ''ns''"
proof -
  obtain t where t: "GetMetadataAllocated cluster_example accepts_all allocated_request_example
      server_example = Some (Inr (), t)" using allocated_example by blast
  from GetMetadataAllocated_gated [OF t] t show ?thesis
    by (simp add: allocated_request_example_def)
qed

theorem GetMetadataDelta_gated_witness:
  "\<exists>t es. GetMetadataDelta delta_cluster_example accepts_all delta_request_example server_example =
      Some (Inr (), t) \<and> events t = events server_example @ es \<and> gated_by es ''good'' ''ns''"
proof -
  obtain t where t: "GetMetadataDelta delta_cluster_example accepts_all delta_request_example
      server_example = Some (Inr (), t)" using delta_example by blast
  from GetMetadataDelta_gated [OF t] t show ?thesis
    by (simp add: delta_request_example_def)
qed

theorem GetMetadataAllocated_ok_witness:
  "\<exists>t pre csiReq post. GetMetadataAllocated cluster_example accepts_all allocated_request_example
       server_example = Some (Inr (), t) \<and>
     events t = events server_example @ pre @ [CsiGetMetadataAllocated csiReq None] @ post \<and>
     csia_max_results csiReq = 256 \<and> authorized_in pre ''good'' ''ns''"
proof -
  obtain t where t: "GetMetadataAllocated cluster_example accepts_all allocated_request_example
      server_example = Some (Inr (), t)" using allocated_example by blast
  from GetMetadataAllocated_ok [OF t] obtain pre post csiReq where
    "events t = events server_example @ pre @ [CsiGetMetadataAllocated csiReq None] @ post"
    "csia_max_results csiReq = 256" "authorized_in pre ''good'' ''ns''"
    by (force simp: allocated_request_example_def)
  with t show ?thesis by blast
qed

theorem GetMetadataDelta_ok_witness:
  "\<exists>t pre csiReq post. GetMetadataDelta delta_cluster_example accepts_all delta_request_example
       server_example = Some (Inr (), t) \<and>
     events t = events server_example @ pre @ [CsiGetMetadataDelta csiReq None] @ post \<and>
     csid_base_snapshot_id csiReq = ''base'' \<and> authorized_in pre ''good'' ''ns''"
proof -
  obtain t where t: "GetMetadataDelta delta_cluster_example accepts_all delta_request_example
      server_example = Some (Inr (), t)" using delta_example by blast
  from GetMetadataDelta_ok [OF t] obtain pre post csiReq where
    "events t = events server_example @ pre @ [CsiGetMetadataDelta csiReq None] @ post"
    "csid_base_snapshot_id csiReq = ''base''" "authorized_in pre ''good'' ''ns''"
    by (force simp: delta_request_example_def)
  with t show ?thesis by blast
qed

theorem GetMetadataDelta_invalid_witness:
  "\<exists>t. GetMetadataDelta cluster_example accepts_all (delta_request_example\<lparr>gmd_base_snapshot_id := []\<rparr>)
     server_example = Some (Inl (Failed (StatusErr InvalidArgument ''baseSnapshotId cannot be empty'')), t)"
proof -
  let ?req = "delta_request_example\<lparr>gmd_base_snapshot_id := []\<rparr>"
  obtain r t where t: "GetMetadataDelta cluster_example accepts_all ?req server_example = Some (r, t)"
    by (simp add: GetMetadataDelta_def handler_defs delta_request_example_def Let_def io_run)
  have "gmd_base_snapshot_id ?req = []" "gmd_security_token ?req \<noteq> []" "gmd_namespace ?req \<noteq> []"
    by (simp_all add: delta_request_example_def)
  with GetMetadataDelta_invalid [OF t] t show ?thesis by auto
qed

theorem GetMetadataAllocated_not_ready_witness:
  "\<exists>r t. GetMetadataAllocated cluster_example accepts_all allocated_request_example
     (server_example\<lparr>healthServer := newHealthServer\<rparr>) = Some (r, t) \<and> r \<noteq> Inr ()"
proof -
  let ?s = "server_example\<lparr>healthServer := newHealthServer\<rparr>"
  have nr: "\<not> IsReady ?s"
    by (simp add: IsReady_def newHealthServer_def health_NewServer_def health_Check_def
        health_SetServingStatus_def)
  then obtain r t where t: "GetMetadataAllocated cluster_example accepts_all allocated_request_example ?s =
      Some (r, t)"
    by (simp add: GetMetadataAllocated_def handler_defs allocated_request_example_def cluster_example_def
        Let_def io_run split: if_splits)
  with GetMetadataAllocated_not_ready [OF nr t] show ?thesis by blast
qed

theorem GetMetadataDelta_metric_witness:
  "\<exists>t m. GetMetadataDelta delta_cluster_example accepts_all delta_request_example server_example =
     Some (Inr (), t) \<and> last (events t) = RecordMetrics m \<and> mr_error m = None \<and>
     mr_operation m = ''MetadataAllocated''"
proof -
  obtain t where t: "GetMetadataDelta delta_cluster_example accepts_all delta_request_example
      server_example = Some (Inr (), t)" using delta_example by blast
  from GetMetadataDelta_metric [OF t] t show ?thesis
    by (force simp: MetadataAllocatedOperationName_def)
qed

definition no_status_cluster :: cluster where
  "no_status_cluster = cluster_example\<lparr>cl_vs_get := \<lambda>h ns n. Inr \<lparr>vs_namespace = ns, vs_name = n,
     vs_uid = ''uid'', vs_source_pvc = None, vs_class_name = None, vs_status = None\<rparr>\<rparr>"

theorem GetMetadataAllocated_panic_witness:
  "\<exists>m t. GetMetadataAllocated no_status_cluster accepts_all allocated_request_example server_example =
     Some (Inl (Panicked m), t) \<and> nil_status_read (events t) ''ns'' ''snap''"
proof -
  obtain m t where t: "GetMetadataAllocated no_status_cluster accepts_all allocated_request_example
      server_example = Some (Inl (Panicked m), t)"
    by (simp add: GetMetadataAllocated_def handler_defs allocated_request_example_def
        no_status_cluster_def cluster_example_def Let_def io_run)
  from GetMetadataAllocated_panic [OF t] have "nil_status_read (events t) ''ns'' ''snap''"
    by (auto simp: allocated_request_example_def nil_status_read_append)
  with t show ?thesis by blast
qed

end
