(* ===== verification/Sidecar.thy ===== *)
theory Sidecar
  imports Flags Handlers
begin

text \<open>
  The process of the sidecar, \<open>pkg/sidecar/sidecar.go\<close>: its flags, the arguments of the runtime made
  of them and back, the construction and start of the server, and \<open>Run\<close> with its exit codes. The
  environment holds the answers of the operating system and of the packages that are not modelled;
  the flags of klog are a list of flags on a state of their own.
\<close>

subsection \<open>Constants\<close>

definition defaultCSISocket :: string where "defaultCSISocket = ''/run/csi/socket''"
definition defaultCSITimeout :: int64 where "defaultCSITimeout = time_Minute"
definition defaultGRPCPort :: int64 where "defaultGRPCPort = 50051"
definition defaultHTTPEndpoint :: string where "defaultHTTPEndpoint = '':8080''"
definition defaultKubeAPIBurst :: int64 where "defaultKubeAPIBurst = 10"
definition defaultHealthPath :: string where "defaultHealthPath = ''/health''"
definition defaultKubeconfig :: string where "defaultKubeconfig = ''''"
definition defaultMaxStreamingDurationMin :: int64 where "defaultMaxStreamingDurationMin = 10"
definition defaultMetricsPath :: string where "defaultMetricsPath = ''/metrics''"
definition tlsCertEnvVar :: string where "tlsCertEnvVar = ''TLS_CERT_PATH''"
definition tlsKeyEnvVar :: string where "tlsKeyEnvVar = ''TLS_KEY_PATH''"

text \<open>The untyped constant 5.0 as the IEEE 754 bits of a \<open>float64\<close> and of a \<open>float32\<close>.\<close>

type_synonym float64 = "64 word"

definition defaultKubeAPIQPS :: float64 where "defaultKubeAPIQPS = 0x4014000000000000"
definition defaultKubeAPIQPS32 :: float32 where "defaultKubeAPIQPS32 = 0x40A00000"

subsection \<open>Flags\<close>

text \<open>
  The functions of \<open>time\<close> and \<open>strconv\<close> that compute with floating point numbers are parameters:
  \<open>time.ParseDuration\<close>, \<open>Duration.String\<close>, \<open>strconv.ParseFloat\<close> for 64 bits, \<open>FormatFloat(x, 'f', -1, 32)\<close>
  and the conversion to \<open>float32\<close>.
\<close>

record go_std =
  ParseDuration :: "string \<Rightarrow> int64 option"
  Duration_String :: "int64 \<Rightarrow> string"
  ParseFloat :: "string \<Rightarrow> num_error + float64"
  FormatFloat32 :: "float32 \<Rightarrow> string"
  float32_of :: "float64 \<Rightarrow> float32"

definition read_duration :: "go_std \<Rightarrow> string \<Rightarrow> gerr + int64" where
  "read_duration std s =
     (case ParseDuration std s of None \<Rightarrow> Inl (Plain ''parse error'') | Some d \<Rightarrow> Inr d)"

definition read_float64 :: "go_std \<Rightarrow> string \<Rightarrow> gerr + float64" where
  "read_float64 std s = (case ParseFloat std s of Inl e \<Rightarrow> Inl (numError e) | Inr x \<Rightarrow> Inr x)"

definition flag_Duration :: "go_std \<Rightarrow> string \<Rightarrow> (int64 \<Rightarrow> 'v \<Rightarrow> 'v) \<Rightarrow> 'v flag_def" where
  "flag_Duration std name store = flag_Var name False (read_duration std) store"

definition flag_Float64 :: "go_std \<Rightarrow> string \<Rightarrow> (float64 \<Rightarrow> 'v \<Rightarrow> 'v) \<Rightarrow> 'v flag_def" where
  "flag_Float64 std name store = flag_Var name False (read_float64 std) store"

record 'k sidecar_flags =
  csiAddress :: string
  csiTimeout :: int64
  grpcPort :: int64
  httpEndpoint :: string
  kubeAPIBurst :: int64
  kubeAPIQPS :: float64
  kubeconfig :: string
  maxStreamingDurMin :: int64
  metricsPath :: string
  showVersion :: bool
  tlsCert :: string
  tlsKey :: string
  tlsMinVersion :: string
  tlsCipherSuites :: string
  tlsCurvePreferences :: string
  audience :: string
  disableMetrics :: bool
  klogFlags :: 'k

text \<open>The flags of the sidecar and of klog (\<open>klog.InitFlags\<close>), and the values of the variables before parsing.\<close>

definition klog_flag :: "'k flag_def \<Rightarrow> 'k sidecar_flags flag_def" where
  "klog_flag fl =
     \<lparr>fl_name = fl_name fl, fl_is_bool = fl_is_bool fl,
      fl_set = (\<lambda>s v. case fl_set fl s (klogFlags v) of
                   Inl e \<Rightarrow> Inl e | Inr k \<Rightarrow> Inr (v\<lparr>klogFlags := k\<rparr>))\<rparr>"

definition sidecar_flag_defs :: "go_std \<Rightarrow> 'k sidecar_flags flag_def list" where
  "sidecar_flag_defs std =
     [flag_String ''kubeconfig'' (\<lambda>x v. v\<lparr>kubeconfig := x\<rparr>),
      flag_String ''csi-address'' (\<lambda>x v. v\<lparr>csiAddress := x\<rparr>),
      flag_Bool ''version'' (\<lambda>x v. v\<lparr>showVersion := x\<rparr>),
      flag_Duration std ''timeout'' (\<lambda>x v. v\<lparr>csiTimeout := x\<rparr>),
      flag_Int ''port'' (\<lambda>x v. v\<lparr>grpcPort := x\<rparr>),
      flag_String ''tls-cert'' (\<lambda>x v. v\<lparr>tlsCert := x\<rparr>),
      flag_String ''tls-key'' (\<lambda>x v. v\<lparr>tlsKey := x\<rparr>),
      flag_String ''tls-min-version'' (\<lambda>x v. v\<lparr>tlsMinVersion := x\<rparr>),
      flag_String ''tls-cipher-suites'' (\<lambda>x v. v\<lparr>tlsCipherSuites := x\<rparr>),
      flag_String ''tls-curve-preferences'' (\<lambda>x v. v\<lparr>tlsCurvePreferences := x\<rparr>),
      flag_String ''audience'' (\<lambda>x v. v\<lparr>audience := x\<rparr>),
      flag_Int ''max-streaming-duration-min'' (\<lambda>x v. v\<lparr>maxStreamingDurMin := x\<rparr>),
      flag_Float64 std ''kube-api-qps'' (\<lambda>x v. v\<lparr>kubeAPIQPS := x\<rparr>),
      flag_Int ''kube-api-burst'' (\<lambda>x v. v\<lparr>kubeAPIBurst := x\<rparr>),
      flag_String ''http-endpoint'' (\<lambda>x v. v\<lparr>httpEndpoint := x\<rparr>),
      flag_String ''metrics-path'' (\<lambda>x v. v\<lparr>metricsPath := x\<rparr>),
      flag_Bool ''disable-metrics'' (\<lambda>x v. v\<lparr>disableMetrics := x\<rparr>)]"

definition sidecar_flag_defaults :: "(string \<Rightarrow> string) \<Rightarrow> 'k \<Rightarrow> 'k sidecar_flags" where
  "sidecar_flag_defaults getenv k =
     \<lparr>csiAddress = defaultCSISocket, csiTimeout = defaultCSITimeout, grpcPort = defaultGRPCPort,
      httpEndpoint = defaultHTTPEndpoint, kubeAPIBurst = defaultKubeAPIBurst,
      kubeAPIQPS = defaultKubeAPIQPS, kubeconfig = defaultKubeconfig,
      maxStreamingDurMin = defaultMaxStreamingDurationMin, metricsPath = defaultMetricsPath,
      showVersion = False, tlsCert = getenv tlsCertEnvVar, tlsKey = getenv tlsKeyEnvVar,
      tlsMinVersion = '''', tlsCipherSuites = '''', tlsCurvePreferences = '''', audience = '''',
      disableMetrics = False, klogFlags = k\<rparr>"

text \<open>\<open>FlagSet.Set\<close>, whose error the code ignores.\<close>

definition flag_Set :: "'v flag_def list \<Rightarrow> string \<Rightarrow> string \<Rightarrow> 'v \<Rightarrow> 'v" where
  "flag_Set formal name s v =
     (case find (\<lambda>fl. fl_name fl = name) formal of
        None \<Rightarrow> v
      | Some fl \<Rightarrow> (case fl_set fl s v of Inl e \<Rightarrow> v | Inr v' \<Rightarrow> v'))"

definition newSidecarFlagSet ::
  "go_std \<Rightarrow> (string \<Rightarrow> string) \<Rightarrow> 'k flag_def list \<Rightarrow> 'k \<Rightarrow>
     'k sidecar_flags flag_def list \<times> 'k sidecar_flags" where
  "newSidecarFlagSet std getenv klog_flags k =
     (let formal = sidecar_flag_defs std @ map klog_flag klog_flags;
          v0 = sidecar_flag_defaults getenv k;
          v1 = flag_Set formal ''logtostderr'' ''true'' v0;
          v2 = flag_Set formal ''legacy_stderr_threshold_behavior'' ''false'' v1 in
      (formal, flag_Set formal ''stderrthreshold'' ''INFO'' v2))"

definition runtimeArgsFromFlags :: "go_std \<Rightarrow> 'k sidecar_flags \<Rightarrow> runtime_args" where
  "runtimeArgsFromFlags std v =
     \<lparr>CSIAddress = csiAddress v, CSITimeout = csiTimeout v, KubeAPIBurst = kubeAPIBurst v,
      KubeAPIQPS = float32_of std (kubeAPIQPS v), Kubeconfig = kubeconfig v, GRPCPort = grpcPort v,
      TLSCertFile = tlsCert v, TLSKeyFile = tlsKey v, HttpEndpoint = httpEndpoint v,
      MetricsPath = metricsPath v, Audience = audience v, TLSMinVersion = tlsMinVersion v,
      TLSCipherSuites = tlsCipherSuites v, TLSCurvePreferences = tlsCurvePreferences v\<rparr>"

definition runtimeArgsToArgv :: "go_std \<Rightarrow> string \<Rightarrow> runtime_args \<Rightarrow> string list" where
  "runtimeArgsToArgv std progName rta =
     [progName] @
     opt_arg (Kubeconfig rta \<noteq> '''') ''kubeconfig'' (Kubeconfig rta) @
     opt_arg (CSIAddress rta \<noteq> defaultCSISocket) ''csi-address'' (CSIAddress rta) @
     opt_arg (CSITimeout rta \<noteq> defaultCSITimeout) ''timeout'' (Duration_String std (CSITimeout rta)) @
     opt_arg (GRPCPort rta \<noteq> defaultGRPCPort) ''port'' (int_dec (sint (GRPCPort rta))) @
     opt_arg (TLSCertFile rta \<noteq> '''') ''tls-cert'' (TLSCertFile rta) @
     opt_arg (TLSKeyFile rta \<noteq> '''') ''tls-key'' (TLSKeyFile rta) @
     opt_arg (KubeAPIBurst rta \<noteq> defaultKubeAPIBurst) ''kube-api-burst'' (int_dec (sint (KubeAPIBurst rta))) @
     opt_arg (KubeAPIQPS rta \<noteq> defaultKubeAPIQPS32) ''kube-api-qps'' (FormatFloat32 std (KubeAPIQPS rta)) @
     opt_arg (HttpEndpoint rta \<noteq> defaultHTTPEndpoint) ''http-endpoint'' (HttpEndpoint rta) @
     opt_arg (MetricsPath rta \<noteq> defaultMetricsPath) ''metrics-path'' (MetricsPath rta) @
     opt_arg (Audience rta \<noteq> '''') ''audience'' (Audience rta) @
     opt_arg (TLSMinVersion rta \<noteq> '''') ''tls-min-version'' (TLSMinVersion rta) @
     opt_arg (TLSCipherSuites rta \<noteq> '''') ''tls-cipher-suites'' (TLSCipherSuites rta) @
     opt_arg (TLSCurvePreferences rta \<noteq> '''') ''tls-curve-preferences'' (TLSCurvePreferences rta) @ []"

definition sidecarFlagSetErrorHandling :: error_handling where
  "sidecarFlagSetErrorHandling = ExitOnError"

subsection \<open>The server of the sidecar\<close>

definition createServerConfig ::
  "'k sidecar_flags \<Rightarrow> ('host, 'kube, 'cbt, 'snap, 'conn) runtime \<Rightarrow> unit \<Rightarrow> server_config" where
  "createServerConfig v rt cw =
     \<lparr>sc_args = rt_args rt, sc_driver_name = rt_driver_name rt,
      MaxStreamDur = maxStreamingDurMin v * time_Minute, sc_certwatcher = Some cw\<rparr>"

text \<open>
  \<open>Server.Start\<close> fails when the port cannot be listened on; otherwise the services are registered and
  a goroutine serves them. That it may later end the process is a step of the life cycle.
\<close>

definition server_Start :: "(string \<Rightarrow> gerr option) \<Rightarrow> server \<Rightarrow> gerr option \<times> server" where
  "server_Start listen s =
     (case listen ('':'' @ int_dec (sint (GRPCPort (sc_args (config s))))) of
        Some err \<Rightarrow> (Some err, s\<lparr>events := events s @
            [LogEntry ErrorLog None (''failed to start grpc server: '' @ error_text err) []]\<rparr>)
      | None \<Rightarrow> (None, s))"

record ('host, 'kube, 'cbt, 'snap, 'conn) sidecar_env =
  se_std :: go_std
  se_getenv :: "string \<Rightarrow> string"
  se_cipher_suites :: "(string \<times> uint16) list"
  se_runtime :: "('host, 'kube, 'cbt, 'snap, 'conn) runtime_env"
  se_NewCertWatcher :: "string \<Rightarrow> string \<Rightarrow> gerr + unit"
  se_listen :: "string \<Rightarrow> gerr option"
  se_bad_pattern :: "string \<Rightarrow> bool"
  se_signals :: "(string \<times> nat) list"

datatype sidecar_event =
  Klog severity string
| Stdout string
| HttpServe string "string list"

text \<open>The wait for the driver may not end, which is \<open>None\<close>; klog's verbosity is \<open>kv\<close>.\<close>

definition startGRPCServerAndValidateCSIDriver ::
  "('host, 'kube, 'cbt, 'snap, 'conn) sidecar_env \<Rightarrow> nat \<Rightarrow>
   ('host, 'kube, 'cbt, 'snap, 'conn) runtime \<Rightarrow> server_config \<Rightarrow>
     (exn + server) option \<times> sidecar_event list" where
  "startGRPCServerAndValidateCSIDriver env kv rt cfg =
     (case server_NewServer (se_cipher_suites env) cfg kv of
        Inl err \<Rightarrow> (Some (Inl (Failed err)), [Klog ErrorLog (''Failed to start GRPC server: '' @ error_text err)])
      | Inr s \<Rightarrow>
     (case server_Start (se_listen env) s of
        (Some err, s1) \<Rightarrow> (Some (Inl (Failed err)), [])
      | (None, s1) \<Rightarrow>
          let started = [Klog InfoLog (''GRPC server started listening on port '' @
                           int_dec (sint (GRPCPort (rt_args rt))))] in
         (case WaitTillCSIDriverIsValidated (se_runtime env) rt of
            None \<Rightarrow> (None, started)
          | Some (Inl x) \<Rightarrow> (Some (Inl x), started)
          | Some (Inr _) \<Rightarrow> (Some (Inr (CSIDriverIsReady s1)), started))))"

text \<open>
  The health endpoint, and what a termination signal does. \<open>se_signals\<close> are the signals sent to
  the process while it waits, with their names, in their order; of these \<open>signal.Notify\<close> passes on
  the first that was asked for. The numbers are those of Linux.
\<close>

definition health_response :: "server \<Rightarrow> nat \<times> string" where
  "health_response s = (if IsReady s then (200, ''ok'') else (503, ''not ready''))"

definition terminationSignals :: "nat list" where
  "terminationSignals = [2, 1, 3, 15]"

definition signal_received ::
  "('host, 'kube, 'cbt, 'snap, 'conn) sidecar_env \<Rightarrow> (string \<times> nat) option" where
  "signal_received env = find (\<lambda>sig. snd sig \<in> set terminationSignals) (se_signals env)"

definition shutdownOnTerminationSignal :: "string \<times> nat \<Rightarrow> server \<Rightarrow> server \<times> sidecar_event list" where
  "shutdownOnTerminationSignal sig s =
     (server_Stop s,
      [Klog InfoLog (''Terminating on signal '' @ quoted (fst sig) @ '' ('' @ nat_dec (snd sig) @ '')''),
       Klog InfoLog ''Shutdown complete''])"

subsection \<open>\<open>Run\<close>\<close>

text \<open>
  What \<open>Run\<close> does: it returns an exit code, or the process ends within it (\<open>os.Exit\<close> of the flag
  package), or it panics, which ends the process with code 2, or it does not return. All but the
  last are the exit code of the process, unless something else ends it before. With the server
  goes what it has become.
\<close>

type_synonym run_result = "run_end \<times> server option \<times> sidecar_event list"

text \<open>\<open>http.ServeMux\<close> panics for a second registration of a path and for a pattern it cannot read.\<close>

definition metrics_path_bad ::
  "('host, 'kube, 'cbt, 'snap, 'conn) sidecar_env \<Rightarrow> 'k sidecar_flags \<Rightarrow> bool" where
  "metrics_path_bad env v \<longleftrightarrow> \<not> disableMetrics v \<and>
     (metricsPath v = defaultHealthPath \<or> se_bad_pattern env (metricsPath v))"

definition run_serving ::
  "('host, 'kube, 'cbt, 'snap, 'conn) sidecar_env \<Rightarrow> 'k sidecar_flags \<Rightarrow> server \<Rightarrow> run_result" where
  "run_serving env v s =
     (if metrics_path_bad env v then (Exit 2, Some s, [])
      else let http = [HttpServe (httpEndpoint v)
             (defaultHealthPath # (if disableMetrics v then [] else [metricsPath v]))] in
        (case signal_received env of
           None \<Rightarrow> (Forever, Some s, http)
         | Some sig \<Rightarrow>
             (case shutdownOnTerminationSignal sig s of
                (s1, out) \<Rightarrow> (Exit 0, Some s1, http @ out))))"

definition run_sidecar ::
  "('host, 'kube, 'cbt, 'snap, 'conn) sidecar_env \<Rightarrow> nat \<Rightarrow> 'k sidecar_flags \<Rightarrow> run_result" where
  "run_sidecar env kv v =
     (case runtime_New (se_cipher_suites env) (se_runtime env) (runtimeArgsFromFlags (se_std env) v) of
        Inl (Panicked m) \<Rightarrow> (Exit 2, None, [])
      | Inl (Failed err) \<Rightarrow> (Exit 1, None, [Klog ErrorLog (error_text err)])
      | Inr rt \<Rightarrow>
          let named = [Klog InfoLog (''CSI driver name: '' @ quote (rt_driver_name rt))] in
     (case se_NewCertWatcher env (TLSCertFile (rt_args rt)) (TLSKeyFile (rt_args rt)) of
        Inl err \<Rightarrow> (Exit 1, None, named @ [Klog ErrorLog (''failed to start certwatcher: '' @ error_text err)])
      | Inr cw \<Rightarrow>
     (case startGRPCServerAndValidateCSIDriver env kv rt (createServerConfig v rt cw) of
        (None, out) \<Rightarrow> (Forever, None, named @ out)
      | (Some (Inl (Panicked m)), out) \<Rightarrow> (Exit 2, None, named @ out)
      | (Some (Inl (Failed err)), out) \<Rightarrow> (Exit 1, None, named @ out @ [Klog ErrorLog (error_text err)])
      | (Some (Inr s), out) \<Rightarrow>
          (case run_serving env v s of (e, s1, out1) \<Rightarrow> (e, s1, named @ out @ out1)))))"

definition parseFlagsAndHandleShowVersion ::
  "'k sidecar_flags flag_def list \<Rightarrow> string \<Rightarrow> string \<Rightarrow> string list \<Rightarrow> 'k sidecar_flags \<Rightarrow>
     'k sidecar_flags flag_outcome \<times> bool \<times> sidecar_event list" where
  "parseFlagsAndHandleShowVersion formal name version args v0 =
     (case FlagSet_Parse sidecarFlagSetErrorHandling formal args v0 of
        FlagsOk v rest \<Rightarrow>
          if showVersion v then (FlagsOk v rest, True, [Stdout (name @ '' '' @ version @ [CHR 0x0A])])
          else (FlagsOk v rest, False, [])
      | out \<Rightarrow> (out, False, []))"

definition sidecar_Run ::
  "('host, 'kube, 'cbt, 'snap, 'conn) sidecar_env \<Rightarrow> 'k flag_def list \<Rightarrow> 'k \<Rightarrow> ('k \<Rightarrow> nat) \<Rightarrow>
     string list \<Rightarrow> string \<Rightarrow> run_result" where
  "sidecar_Run env klog_flags k klog_verbosity argv version =
     (case argv of
        [] \<Rightarrow> (Exit 2, None, [])
      | name # args \<Rightarrow>
     (case newSidecarFlagSet (se_std env) (se_getenv env) klog_flags k of (formal, v0) \<Rightarrow>
     (case parseFlagsAndHandleShowVersion formal name version args v0 of
        (FlagsExit c, _, out) \<Rightarrow> (Exit c, None, out)
      | (FlagsPanic e, _, out) \<Rightarrow> (Exit 2, None, out)
      | (FlagsErr err, _, out) \<Rightarrow> (Exit 1, None, out @ [Klog ErrorLog (error_text err)])
      | (FlagsOk v rest, handledShowVersion, out) \<Rightarrow>
          if handledShowVersion then (Exit 0, None, out)
          else (case run_sidecar env (klog_verbosity (klogFlags v)) v of
                  (e, s, out1) \<Rightarrow> (e, s, out @ Klog InfoLog (''Version: '' @ version) # out1)))))"

subsection \<open>The process\<close>

text \<open>
  What else ends the process, or keeps it: the goroutines of the two servers and of the
  connection to the driver, a panic of a handler, a signal that the process dies of, and a call
  that does not return. Any of these may strike after any number of the events of \<open>Run\<close>; which
  can happen when is a matter of the life cycle.
\<close>

datatype interruption =
  DriverConnectionLost
| GrpcServeFailed gerr
| HttpServeFailed string gerr
| HandlerPanicked
| SignalDeath nat
| CallHangs

text \<open>
  The signals that end a Go process when they are not asked for: some kill it, some make
  the runtime exit with code 2 after a dump of the goroutines.
\<close>

definition killing_signals :: "nat list" where "killing_signals = [1, 2, 9, 13, 15]"
definition dumping_signals :: "nat list" where "dumping_signals = [3, 4, 5, 6, 7, 8, 11, 16, 31]"

definition signal_end :: "nat \<Rightarrow> run_end" where
  "signal_end n = (if n \<in> set dumping_signals then Exit 2 else KilledBy n)"

fun interruption_end :: "interruption \<Rightarrow> run_end" where
  "interruption_end DriverConnectionLost = Exit (fst (loss_exit ExitOnConnectionLoss))"
| "interruption_end (GrpcServeFailed err) = Exit 255"
| "interruption_end (HttpServeFailed endpoint err) = Exit 255"
| "interruption_end HandlerPanicked = Exit 2"
| "interruption_end (SignalDeath n) = signal_end n"
| "interruption_end CallHangs = Forever"

fun interruption_log :: "interruption \<Rightarrow> sidecar_event list" where
  "interruption_log DriverConnectionLost = [Klog ErrorLog (snd (loss_exit ExitOnConnectionLoss))]"
| "interruption_log (GrpcServeFailed err) = [Klog FatalLog (''GRPC server failed: '' @ error_text err)]"
| "interruption_log (HttpServeFailed endpoint err) =
     [Klog FatalLog (''Failed to start HTTP server at '' @ quote endpoint @ '': '' @ error_text err)]"
| "interruption_log i = []"

text \<open>\<open>main\<close> exits with what \<open>Run\<close> returns.\<close>

definition interrupted :: "(nat \<times> interruption) option \<Rightarrow> sidecar_event list \<Rightarrow> interruption option" where
  "interrupted strike out =
     (case strike of None \<Rightarrow> None | Some (n, i) \<Rightarrow> if n \<le> length out then Some i else None)"

definition sidecar_main ::
  "(nat \<times> interruption) option \<Rightarrow> ('host, 'kube, 'cbt, 'snap, 'conn) sidecar_env \<Rightarrow>
   'k flag_def list \<Rightarrow> 'k \<Rightarrow> ('k \<Rightarrow> nat) \<Rightarrow> string list \<Rightarrow> string \<Rightarrow> run_end \<times> sidecar_event list" where
  "sidecar_main strike env klog_flags k klog_verbosity argv version =
     (case sidecar_Run env klog_flags k klog_verbosity argv version of (e, s, out) \<Rightarrow>
       (case interrupted strike out of
          None \<Rightarrow> (e, out)
        | Some i \<Rightarrow> (interruption_end i, take (fst (the strike)) out @ interruption_log i)))"

subsection \<open>Facts on the flags\<close>

lemma sidecar_flag_names:
  "map fl_name (sidecar_flag_defs std) =
     [''kubeconfig'', ''csi-address'', ''version'', ''timeout'', ''port'', ''tls-cert'', ''tls-key'',
      ''tls-min-version'', ''tls-cipher-suites'', ''tls-curve-preferences'', ''audience'',
      ''max-streaming-duration-min'', ''kube-api-qps'', ''kube-api-burst'', ''http-endpoint'',
      ''metrics-path'', ''disable-metrics'']"
  by (simp add: sidecar_flag_defs_def flag_String_def flag_Bool_def flag_Int_def flag_Duration_def
      flag_Float64_def flag_Var_def)

lemma sidecar_flags_distinct: "distinct (map fl_name (sidecar_flag_defs std))"
  unfolding sidecar_flag_names by simp

lemma sidecar_flags_plain:
  fixes fl :: "'k sidecar_flags flag_def"
  assumes "fl \<in> set (sidecar_flag_defs std)"
  shows "flag_name (fl_name fl)"
proof -
  let ?defs = "sidecar_flag_defs std :: 'k sidecar_flags flag_def list"
  from assms have "fl_name fl \<in> set (map fl_name ?defs)" unfolding set_map by (rule imageI)
  then show ?thesis unfolding sidecar_flag_names by (auto simp: flag_name_def)
qed

lemma flag_Var_name [simp]: "fl_name (flag_Var name b r st) = name"
  by (simp add: flag_Var_def)

text \<open>An optional argument of the sidecar sets its variable if the flag reads back its text.\<close>

lemma sidecar_find:
  assumes "flag_Var name b readv store \<in> set (sidecar_flag_defs std)"
  shows "flag_name name"
    "find (\<lambda>fl. fl_name fl = name) (sidecar_flag_defs std @ extra) = Some (flag_Var name b readv store)"
  using sidecar_flags_plain [OF assms] find_flag [OF sidecar_flags_distinct assms] by simp_all

lemma sidecar_arg:
  assumes "flag_Var name False readv store \<in> set (sidecar_flag_defs std)" "given \<Longrightarrow> readv s = Inr x"
  shows "flag_Parse (sidecar_flag_defs std @ extra) (opt_arg given name s @ rest) v =
    flag_Parse (sidecar_flag_defs std @ extra) rest (if given then store x v else v)"
  using flag_Parse_value [OF sidecar_find [OF assms(1)]] assms(2) by (simp add: opt_arg_def)

lemmas sidecar_string_arg = strings.pass_value [OF sidecar_find]

lemmas sidecar_int_arg = ints.pass_value [OF sidecar_find]

lemma sidecar_flag_vars:
  "flag_Var ''kubeconfig'' False read_string (\<lambda>x v. v\<lparr>kubeconfig := x\<rparr>) \<in> set (sidecar_flag_defs std)"
  "flag_Var ''csi-address'' False read_string (\<lambda>x v. v\<lparr>csiAddress := x\<rparr>) \<in> set (sidecar_flag_defs std)"
  "flag_Var ''timeout'' False (read_duration std) (\<lambda>x v. v\<lparr>csiTimeout := x\<rparr>) \<in> set (sidecar_flag_defs std)"
  "flag_Var ''port'' False read_int64 (\<lambda>x v. v\<lparr>grpcPort := x\<rparr>) \<in> set (sidecar_flag_defs std)"
  "flag_Var ''tls-cert'' False read_string (\<lambda>x v. v\<lparr>tlsCert := x\<rparr>) \<in> set (sidecar_flag_defs std)"
  "flag_Var ''tls-key'' False read_string (\<lambda>x v. v\<lparr>tlsKey := x\<rparr>) \<in> set (sidecar_flag_defs std)"
  "flag_Var ''kube-api-burst'' False read_int64 (\<lambda>x v. v\<lparr>kubeAPIBurst := x\<rparr>) \<in> set (sidecar_flag_defs std)"
  "flag_Var ''kube-api-qps'' False (read_float64 std) (\<lambda>x v. v\<lparr>kubeAPIQPS := x\<rparr>) \<in> set (sidecar_flag_defs std)"
  "flag_Var ''http-endpoint'' False read_string (\<lambda>x v. v\<lparr>httpEndpoint := x\<rparr>) \<in> set (sidecar_flag_defs std)"
  "flag_Var ''metrics-path'' False read_string (\<lambda>x v. v\<lparr>metricsPath := x\<rparr>) \<in> set (sidecar_flag_defs std)"
  "flag_Var ''audience'' False read_string (\<lambda>x v. v\<lparr>audience := x\<rparr>) \<in> set (sidecar_flag_defs std)"
  "flag_Var ''tls-min-version'' False read_string (\<lambda>x v. v\<lparr>tlsMinVersion := x\<rparr>) \<in> set (sidecar_flag_defs std)"
  "flag_Var ''tls-cipher-suites'' False read_string (\<lambda>x v. v\<lparr>tlsCipherSuites := x\<rparr>) \<in> set (sidecar_flag_defs std)"
  "flag_Var ''tls-curve-preferences'' False read_string (\<lambda>x v. v\<lparr>tlsCurvePreferences := x\<rparr>) \<in> set (sidecar_flag_defs std)"
  unfolding sidecar_flag_defs_def flag_String_def flag_Int_def flag_Duration_def flag_Float64_def
  by (simp_all only: list.set insert_iff simp_thms)

lemmas sidecar_args =
  sidecar_string_arg [OF sidecar_flag_vars(1) sidecar_flag_vars(1)]
  sidecar_string_arg [OF sidecar_flag_vars(2) sidecar_flag_vars(2)]
  sidecar_arg [OF sidecar_flag_vars(3)]
  sidecar_int_arg [OF sidecar_flag_vars(4) sidecar_flag_vars(4)]
  sidecar_string_arg [OF sidecar_flag_vars(5) sidecar_flag_vars(5)]
  sidecar_string_arg [OF sidecar_flag_vars(6) sidecar_flag_vars(6)]
  sidecar_int_arg [OF sidecar_flag_vars(7) sidecar_flag_vars(7)]
  sidecar_arg [OF sidecar_flag_vars(8)]
  sidecar_string_arg [OF sidecar_flag_vars(9) sidecar_flag_vars(9)]
  sidecar_string_arg [OF sidecar_flag_vars(10) sidecar_flag_vars(10)]
  sidecar_string_arg [OF sidecar_flag_vars(11) sidecar_flag_vars(11)]
  sidecar_string_arg [OF sidecar_flag_vars(12) sidecar_flag_vars(12)]
  sidecar_string_arg [OF sidecar_flag_vars(13) sidecar_flag_vars(13)]
  sidecar_string_arg [OF sidecar_flag_vars(14) sidecar_flag_vars(14)]

text \<open>A conditional store is a store of a conditional value.\<close>

lemma sidecar_conditional_store:
  "(if g then v\<lparr>kubeconfig := x\<rparr> else v) = v\<lparr>kubeconfig := if g then x else kubeconfig v\<rparr>"
  "(if g then v\<lparr>csiAddress := x\<rparr> else v) = v\<lparr>csiAddress := if g then x else csiAddress v\<rparr>"
  "(if g then v\<lparr>csiTimeout := i\<rparr> else v) = v\<lparr>csiTimeout := if g then i else csiTimeout v\<rparr>"
  "(if g then v\<lparr>grpcPort := i\<rparr> else v) = v\<lparr>grpcPort := if g then i else grpcPort v\<rparr>"
  "(if g then v\<lparr>tlsCert := x\<rparr> else v) = v\<lparr>tlsCert := if g then x else tlsCert v\<rparr>"
  "(if g then v\<lparr>tlsKey := x\<rparr> else v) = v\<lparr>tlsKey := if g then x else tlsKey v\<rparr>"
  "(if g then v\<lparr>kubeAPIBurst := i\<rparr> else v) = v\<lparr>kubeAPIBurst := if g then i else kubeAPIBurst v\<rparr>"
  "(if g then v\<lparr>kubeAPIQPS := i\<rparr> else v) = v\<lparr>kubeAPIQPS := if g then i else kubeAPIQPS v\<rparr>"
  "(if g then v\<lparr>httpEndpoint := x\<rparr> else v) = v\<lparr>httpEndpoint := if g then x else httpEndpoint v\<rparr>"
  "(if g then v\<lparr>metricsPath := x\<rparr> else v) = v\<lparr>metricsPath := if g then x else metricsPath v\<rparr>"
  "(if g then v\<lparr>audience := x\<rparr> else v) = v\<lparr>audience := if g then x else audience v\<rparr>"
  "(if g then v\<lparr>tlsMinVersion := x\<rparr> else v) = v\<lparr>tlsMinVersion := if g then x else tlsMinVersion v\<rparr>"
  "(if g then v\<lparr>tlsCipherSuites := x\<rparr> else v) = v\<lparr>tlsCipherSuites := if g then x else tlsCipherSuites v\<rparr>"
  "(if g then v\<lparr>tlsCurvePreferences := x\<rparr> else v) =
     v\<lparr>tlsCurvePreferences := if g then x else tlsCurvePreferences v\<rparr>"
  by simp_all

lemma flag_Set_klog:
  fixes klog_flags :: "'k flag_def list"
  assumes "name \<notin> set (map fl_name (sidecar_flag_defs std :: 'k sidecar_flags flag_def list))"
  shows "\<exists>k. flag_Set (sidecar_flag_defs std @ map klog_flag klog_flags) name s v = v\<lparr>klogFlags := k\<rparr>"
proof -
  have "find (\<lambda>fl. fl_name fl = name) (sidecar_flag_defs std :: 'k sidecar_flags flag_def list) = None"
    using assms by (auto simp: find_None_iff)
  then have f: "find (\<lambda>fl. fl_name fl = name) (sidecar_flag_defs std @ map klog_flag klog_flags) =
      find (\<lambda>fl. fl_name fl = name) (map klog_flag klog_flags :: 'k sidecar_flags flag_def list)"
    by (simp add: find_append)
  show ?thesis
  proof (cases "find (\<lambda>fl. fl_name fl = name) (map klog_flag klog_flags :: 'k sidecar_flags flag_def list)")
    case None
    with f show ?thesis by (intro exI [of _ "klogFlags v"]) (simp add: flag_Set_def)
  next
    case (Some fl)
    then obtain kf where "fl = klog_flag kf" by (auto simp: find_Some_iff)
    then have "\<exists>k. (case fl_set fl s v of Inl e \<Rightarrow> v | Inr v' \<Rightarrow> v') = v\<lparr>klogFlags := k\<rparr>"
      by (cases "fl_set kf s (klogFlags v)") (auto simp: klog_flag_def intro: exI [of _ "klogFlags v"])
    with Some f show ?thesis by (simp add: flag_Set_def)
  qed
qed

lemma newSidecarFlagSet_eq:
  "\<exists>k'. newSidecarFlagSet std getenv klog_flags k =
     (sidecar_flag_defs std @ map klog_flag klog_flags, sidecar_flag_defaults getenv k')"
proof -
  let ?f = "sidecar_flag_defs std @ map klog_flag klog_flags"
  have upd: "\<exists>k'. flag_Set ?f name s (sidecar_flag_defaults getenv k1) = sidecar_flag_defaults getenv k'"
    if "name \<in> {''logtostderr'', ''legacy_stderr_threshold_behavior'', ''stderrthreshold''}" for name s k1
  proof -
    have "name \<notin> set (map fl_name (sidecar_flag_defs std :: 'a sidecar_flags flag_def list))"
      using that unfolding sidecar_flag_names by auto
    from flag_Set_klog [OF this, of klog_flags s "sidecar_flag_defaults getenv k1"] show ?thesis
      by (auto simp: sidecar_flag_defaults_def)
  qed
  obtain k1 where 1: "flag_Set ?f ''logtostderr'' ''true'' (sidecar_flag_defaults getenv k) =
      sidecar_flag_defaults getenv k1" using upd by blast
  obtain k2 where 2: "flag_Set ?f ''legacy_stderr_threshold_behavior'' ''false'' (sidecar_flag_defaults getenv k1) =
      sidecar_flag_defaults getenv k2" using upd by blast
  obtain k3 where 3: "flag_Set ?f ''stderrthreshold'' ''INFO'' (sidecar_flag_defaults getenv k2) =
      sidecar_flag_defaults getenv k3" using upd by blast
  show ?thesis by (intro exI [of _ k3]) (simp add: newSidecarFlagSet_def Let_def 1 2 3)
qed

subsection \<open>Facts on the start\<close>

lemma server_NewServer_Inr:
  assumes "server_NewServer table cfg kv = Inr s"
  shows "config s = (if sint (MaxStreamDur cfg) \<le> 0
            then cfg\<lparr>MaxStreamDur := HandlerDefaultMaxStreamDuration\<rparr> else cfg)"
    "healthServer s = newHealthServer" "opNumber s = 0"
  using assms by (auto simp: server_NewServer_def Let_def split: sum.splits if_splits)

lemma server_NewServer_not_ready: "server_NewServer table cfg kv = Inr s \<Longrightarrow> \<not> IsReady s"
  by (drule server_NewServer_Inr(2))
    (simp add: IsReady_def newHealthServer_def health_Check_def health_SetServingStatus_def health_NewServer_def)

lemma server_NewServer_accepts:
  assumes "sc_certwatcher cfg \<noteq> None" "runtime_args_Validate table (sc_args cfg) = None"
  shows "\<exists>s. server_NewServer table cfg kv = Inr s"
  using assms by (auto simp: server_NewServer_def Let_def runtime_args_Validate_None_iff split: sum.splits)

lemma IsReady_iff: "IsReady s = health_ready (healthServer s)"
  by (auto simp: IsReady_def health_ready_def split: sum.splits serving_status.splits)

lemma CSIDriverIsReady_health: "healthServer (CSIDriverIsReady s) =
    health_SetServingStatus '''' SERVING (healthServer s)"
  by (simp add: CSIDriverIsReady_def setReady_def klog_info_def)

lemma server_Stop_health: "healthServer (server_Stop s) = health_Shutdown (healthServer s)"
  by (simp add: server_Stop_def shuttingDown_def klog_info_def)

lemma CSIDriverIsReady_ready: "\<not> hs_shutdown (healthServer s) \<Longrightarrow> IsReady (CSIDriverIsReady s)"
  by (simp add: IsReady_iff CSIDriverIsReady_health health.flag_laws)

lemma server_Stop_not_ready: "\<not> IsReady (server_Stop s)"
  by (simp add: IsReady_iff server_Stop_health health.flag_laws)

lemma runtime_New_valid:
  "runtime_New table env args = Inr rt \<Longrightarrow> runtime_args_Validate table args = None \<and> rt_args rt = args"
  by (auto simp: runtime_New_def elim: runtime_initialize_cases split: option.splits prod.splits sum.splits)

text \<open>Everything that must have succeeded before the sidecar serves with these flags.\<close>

definition started ::
  "('host, 'kube, 'cbt, 'snap, 'conn) sidecar_env \<Rightarrow> nat \<Rightarrow> 'k sidecar_flags \<Rightarrow> server \<Rightarrow> bool" where
  "started env kv v s0 \<longleftrightarrow>
     (\<exists>rt cw. runtime_New (se_cipher_suites env) (se_runtime env) (runtimeArgsFromFlags (se_std env) v) = Inr rt \<and>
        se_NewCertWatcher env (tlsCert v) (tlsKey v) = Inr cw \<and>
        server_NewServer (se_cipher_suites env) (createServerConfig v rt cw) kv = Inr s0 \<and>
        se_listen env ('':'' @ int_dec (sint (grpcPort v))) = None \<and>
        WaitTillCSIDriverIsValidated (se_runtime env) rt = Some (Inr ()))"

lemma WaitTill_never_panics:
  "rt_csi_conn rt \<noteq> None \<Longrightarrow> WaitTillCSIDriverIsValidated env rt \<noteq> Some (Inl (Panicked m))"
  by (auto simp: WaitTillCSIDriverIsValidated_def split: option.splits prod.splits sum.splits if_splits)

lemma startGRPCServer_cases:
  assumes "startGRPCServerAndValidateCSIDriver env kv rt cfg = (r, out)" "rt_csi_conn rt \<noteq> None"
  obtains (failed) x where "r = Some (Inl (Failed x))"
      "\<not> (\<exists>s0. server_NewServer (se_cipher_suites env) cfg kv = Inr s0 \<and>
         se_listen env ('':'' @ int_dec (sint (GRPCPort (sc_args cfg)))) = None \<and>
         WaitTillCSIDriverIsValidated (se_runtime env) rt = Some (Inr ()))"
  | (forever) "r = None" "WaitTillCSIDriverIsValidated (se_runtime env) rt = None"
  | (ok) s0 where "r = Some (Inr (CSIDriverIsReady s0))" "server_NewServer (se_cipher_suites env) cfg kv = Inr s0"
      "se_listen env ('':'' @ int_dec (sint (GRPCPort (sc_args cfg)))) = None"
      "WaitTillCSIDriverIsValidated (se_runtime env) rt = Some (Inr ())"
proof (cases "server_NewServer (se_cipher_suites env) cfg kv")
  case (Inl e)
  with assms have "r = Some (Inl (Failed e))" by (simp add: startGRPCServerAndValidateCSIDriver_def)
  with Inl show thesis by (intro failed) simp_all
next
  case (Inr s0)
  have cfg: "sc_args (config s0) = sc_args cfg" using server_NewServer_Inr(1) [OF Inr] by simp
  show thesis
  proof (cases "se_listen env ('':'' @ int_dec (sint (GRPCPort (sc_args cfg))))")
    case (Some e)
    with Inr cfg assms have "r = Some (Inl (Failed e))"
      by (simp add: startGRPCServerAndValidateCSIDriver_def server_Start_def)
    with Some show thesis by (intro failed) simp_all
  next
    case None
    with Inr cfg assms have "r = (case WaitTillCSIDriverIsValidated (se_runtime env) rt of
        None \<Rightarrow> None | Some (Inl x) \<Rightarrow> Some (Inl x) | Some (Inr _) \<Rightarrow> Some (Inr (CSIDriverIsReady s0)))"
      by (simp add: startGRPCServerAndValidateCSIDriver_def server_Start_def Let_def
          split: option.splits sum.splits)
    with Inr None WaitTill_never_panics [OF assms(2)] show thesis using failed forever ok
      by (auto split: option.splits sum.splits) (metis exn.exhaust)
  qed
qed

text \<open>What \<open>Run\<close> does once the server is ready.\<close>

definition serving_end ::
  "('host, 'kube, 'cbt, 'snap, 'conn) sidecar_env \<Rightarrow> 'k sidecar_flags \<Rightarrow> server \<Rightarrow> run_end \<times> server" where
  "serving_end env v s =
     (if metrics_path_bad env v then (Exit 2, s)
      else if signal_received env = None then (Forever, s)
      else (Exit 0, server_Stop s))"

lemma run_serving_end:
  "run_serving env v s = (e, srv, out) \<Longrightarrow> (\<exists>s1. srv = Some s1 \<and> (e, s1) = serving_end env v s)"
  by (auto simp: run_serving_def serving_end_def shutdownOnTerminationSignal_def Let_def
      split: if_splits option.splits)

text \<open>How \<open>Run\<close> ends, once the flags are parsed.\<close>

definition run_outcome ::
  "('host, 'kube, 'cbt, 'snap, 'conn) sidecar_env \<Rightarrow> nat \<Rightarrow> 'k sidecar_flags \<Rightarrow> run_result \<Rightarrow> bool" where
  "run_outcome env kv v res \<longleftrightarrow>
     (case res of (e, srv, out) \<Rightarrow>
       (\<exists>s0 s. started env kv v s0 \<and> srv = Some s \<and> (e, s) = serving_end env v (CSIDriverIsReady s0)) \<or>
       (\<forall>s0. \<not> started env kv v s0) \<and> srv = None \<and>
         (e = Exit 1 \<and> (\<exists>pre m. out = pre @ [Klog ErrorLog m]) \<or>
          e = Forever \<and> (\<exists>rt. runtime_New (se_cipher_suites env) (se_runtime env)
             (runtimeArgsFromFlags (se_std env) v) = Inr rt \<and>
             WaitTillCSIDriverIsValidated (se_runtime env) rt = None)))"

lemma not_startedI:
  assumes "\<And>rt cw s0. runtime_New (se_cipher_suites env) (se_runtime env)
        (runtimeArgsFromFlags (se_std env) v) = Inr rt \<Longrightarrow>
      se_NewCertWatcher env (tlsCert v) (tlsKey v) = Inr cw \<Longrightarrow>
      server_NewServer (se_cipher_suites env) (createServerConfig v rt cw) kv = Inr s0 \<Longrightarrow>
      se_listen env ('':'' @ int_dec (sint (grpcPort v))) = None \<Longrightarrow>
      WaitTillCSIDriverIsValidated (se_runtime env) rt = Some (Inr ()) \<Longrightarrow> False"
  shows "\<forall>s0. \<not> started env kv v s0"
  using assms unfolding started_def by blast

lemma run_sidecar_outcome: "run_outcome env kv v (run_sidecar env kv v)"
proof (cases "runtime_New (se_cipher_suites env) (se_runtime env) (runtimeArgsFromFlags (se_std env) v)")
  case (Inl x)
  have "x \<noteq> Panicked m" for m
    using runtime_New_spec [of "se_cipher_suites env" "se_runtime env"
        "runtimeArgsFromFlags (se_std env) v" m] Inl by simp
  with Inl show ?thesis by (cases x) (auto simp: run_sidecar_def run_outcome_def started_def)
next
  case new: (Inr rt)
  from runtime_New_valid [OF new]
  have args: "rt_args rt = runtimeArgsFromFlags (se_std env) v" by simp
  have conn: "rt_csi_conn rt \<noteq> None"
    using runtime_New_spec [of "se_cipher_suites env" "se_runtime env" "runtimeArgsFromFlags (se_std env) v" "[]"]
      new by blast
  have cert: "TLSCertFile (rt_args rt) = tlsCert v" "TLSKeyFile (rt_args rt) = tlsKey v"
      "GRPCPort (rt_args rt) = grpcPort v"
    by (simp_all add: args runtimeArgsFromFlags_def)
  show ?thesis
  proof (cases "se_NewCertWatcher env (tlsCert v) (tlsKey v)")
    case (Inl e)
    then have "\<forall>s0. \<not> started env kv v s0" by (intro not_startedI) simp
    with Inl new cert show ?thesis by (simp add: run_sidecar_def run_outcome_def Let_def)
  next
    case cw: (Inr cw)
    obtain r out where go: "startGRPCServerAndValidateCSIDriver env kv rt (createServerConfig v rt cw) = (r, out)"
      by fastforce
    from go conn show ?thesis
    proof (cases rule: startGRPCServer_cases)
      case (failed x)
      have "\<forall>s0. \<not> started env kv v s0"
        by (rule not_startedI) (use failed(2) new cw cert in \<open>auto simp: createServerConfig_def\<close>)
      with failed(1) new cw cert go show ?thesis
        by (simp add: run_sidecar_def run_outcome_def Let_def)
    next
      case forever
      have "\<forall>s0. \<not> started env kv v s0"
        by (rule not_startedI) (use forever(2) new in simp)
      with forever new cw cert go show ?thesis by (simp add: run_sidecar_def run_outcome_def Let_def)
    next
      case (ok s0)
      from ok cert new cw have st: "started env kv v s0"
        unfolding started_def by (simp add: createServerConfig_def)
      obtain e srv out1 where fin: "run_serving env v (CSIDriverIsReady s0) = (e, srv, out1)"
        by (metis prod_cases3)
      have "run_sidecar env kv v =
          (e, srv, [Klog InfoLog (''CSI driver name: '' @ quote (rt_driver_name rt))] @ out @ out1)"
        using new cw cert go ok(1) fin by (simp add: run_sidecar_def Let_def)
      then show ?thesis using run_serving_end [OF fin] st by (auto simp: run_outcome_def)
    qed
  qed
qed

lemma sidecar_main_ends:
  assumes "sidecar_Run env klog_flags k kv argv version = (e, srv, out)"
    and "sidecar_main strike env klog_flags k kv argv version = (e', out')"
  shows "e' = Exit 0 \<longleftrightarrow> e = Exit 0 \<and> interrupted strike out = None"
    "e' = Exit 1 \<longleftrightarrow> (if interrupted strike out = None then e = Exit 1
       else interrupted strike out = Some DriverConnectionLost)"
    "interrupted strike out = None \<Longrightarrow> out' = out"
    "interrupted strike out = Some DriverConnectionLost \<Longrightarrow> \<exists>pre m. out' = pre @ [Klog ErrorLog m]"
proof -
  have main: "(e', out') = (case interrupted strike out of None \<Rightarrow> (e, out)
      | Some i \<Rightarrow> (interruption_end i, take (fst (the strike)) out @ interruption_log i))"
    using assms by (simp add: sidecar_main_def)
  have i: "interruption_end i \<noteq> Exit 0" "interruption_end i = Exit 1 \<longleftrightarrow> i = DriverConnectionLost" for i
    by (cases i; simp add: signal_end_def)+
  show "e' = Exit 0 \<longleftrightarrow> e = Exit 0 \<and> interrupted strike out = None"
    "e' = Exit 1 \<longleftrightarrow> (if interrupted strike out = None then e = Exit 1
       else interrupted strike out = Some DriverConnectionLost)"
    "interrupted strike out = None \<Longrightarrow> out' = out"
    "interrupted strike out = Some DriverConnectionLost \<Longrightarrow> \<exists>pre m. out' = pre @ [Klog ErrorLog m]"
    using main i by (auto split: option.splits)
qed

subsection \<open>Properties\<close>

text \<open>
  C16. The arguments of a runtime, written as a command line by \<open>runtimeArgsToArgv\<close> and parsed by
  the sidecar's flags, come back unchanged with nothing left over, whatever bytes the strings hold and
  also where they start with a dash, under three conditions: the standard library reads the timeout and
  the QPS back from their texts, the default QPS is rounded to its value of 32 bits, and an empty
  certificate or key file is given only where the environment variable \<open>TLS_CERT_PATH\<close> or
  \<open>TLS_KEY_PATH\<close> with its default is not set.
\<close>
theorem runtimeArgsToArgv_roundtrip:
  assumes timeout: "ParseDuration std (Duration_String std (CSITimeout a)) = Some (CSITimeout a)"
    and qps: "ParseFloat std (FormatFloat32 std (KubeAPIQPS a)) = Inr x" "float32_of std x = KubeAPIQPS a"
    and five: "float32_of std defaultKubeAPIQPS = defaultKubeAPIQPS32"
    and cert: "TLSCertFile a = '''' \<Longrightarrow> getenv tlsCertEnvVar = ''''"
    and key: "TLSKeyFile a = '''' \<Longrightarrow> getenv tlsKeyEnvVar = ''''"
    and set: "newSidecarFlagSet std getenv klog_flags k = (formal, v0)"
  shows "\<exists>v. flag_Parse formal (tl (runtimeArgsToArgv std prog a)) v0 = Parsed v [] \<and>
    runtimeArgsFromFlags std v = a"
proof -
  obtain k' where f: "formal = sidecar_flag_defs std @ map klog_flag klog_flags"
      and v0: "v0 = sidecar_flag_defaults getenv k'"
    using newSidecarFlagSet_eq [of std getenv klog_flags k] set by auto
  have d: "read_duration std (Duration_String std (CSITimeout a)) = Inr (CSITimeout a)"
    using timeout by (simp add: read_duration_def)
  have q: "read_float64 std (FormatFloat32 std (KubeAPIQPS a)) = Inr x"
    using qps by (simp add: read_float64_def)
  show ?thesis
    unfolding f runtimeArgsToArgv_def append_Cons append_Nil list.sel
    unfolding sidecar_args(1,2) sidecar_args(3) [OF d] sidecar_args(4-7) sidecar_args(8) [OF q]
      sidecar_args(9-14) flag_Parse_Nil sidecar_conditional_store
    using cert key qps(2) five
    by (simp add: v0 sidecar_flag_defaults_def runtimeArgsFromFlags_def defaultKubeconfig_def)
qed


text \<open>
  C17. Once the flags are accepted by \<open>New\<close>, the construction of the server cannot fail on them: what
  \<open>Args.Validate\<close> checked is what \<open>NewServer\<close> parses again. The new server has a positive limit
  for its streams and is not ready.
\<close>
theorem validated_args_start:
  assumes "runtime_New table renv args = Inr rt"
  shows "\<exists>s. server_NewServer table (createServerConfig v rt cw) kv = Inr s \<and>
    0 < sint (MaxStreamDur (config s)) \<and> \<not> IsReady s"
proof -
  have "\<exists>s. server_NewServer table (createServerConfig v rt cw) kv = Inr s"
    by (rule server_NewServer_accepts)
      (use runtime_New_valid [OF assms] in \<open>simp_all add: createServerConfig_def\<close>)
  then obtain s where s: "server_NewServer table (createServerConfig v rt cw) kv = Inr s" ..
  have "0 < sint HandlerDefaultMaxStreamDuration"
    by (simp add: HandlerDefaultMaxStreamDuration_def time_Minute_def)
  then have "0 < sint (MaxStreamDur (config s))" by (simp add: server_NewServer_Inr(1) [OF s])
  with s server_NewServer_not_ready [OF s] show ?thesis by blast
qed

theorem validated_args_start_witness:
  "\<exists>rt s. runtime_New [] runtime_env_example runtime_args_example = Inr rt \<and>
     server_NewServer [] (createServerConfig (sidecar_flag_defaults (\<lambda>n. '''') ()) rt ()) 0 = Inr s"
  using validated_args_start [OF runtime_New_example] runtime_New_example by blast

text \<open>
  C18. The limit of a stream, for every value of the flag: the minutes in nanoseconds, wrapped to
  64 bits, or ten minutes if that is not positive. So it is always positive; it is the flag
  exactly as long as that fits 64 bits, and ten minutes for zero and negative values down to the
  bound. Beyond the bounds the wrapped product decides: -153722868 minutes are a limit of
  292 years.
\<close>
theorem stream_limit_bounds:
  assumes "server_NewServer table (createServerConfig v rt cw) kv = Inr s"
  shows "(let d = signed_take_bit 63 (sint (maxStreamingDurMin v) * 60000000000) in
       sint (MaxStreamDur (config s)) = (if d \<le> 0 then 600000000000 else d)) \<and>
    0 < sint (MaxStreamDur (config s)) \<and>
    (0 < sint (maxStreamingDurMin v) \<and> sint (maxStreamingDurMin v) \<le> 153722867 \<longrightarrow>
       sint (MaxStreamDur (config s)) = sint (maxStreamingDurMin v) * 60000000000) \<and>
    (- 153722867 \<le> sint (maxStreamingDurMin v) \<and> sint (maxStreamingDurMin v) \<le> 0 \<longrightarrow>
       MaxStreamDur (config s) = HandlerDefaultMaxStreamDuration)"
proof -
  let ?m = "sint (maxStreamingDurMin v)"
  have d: "sint HandlerDefaultMaxStreamDuration = 600000000000"
    by (simp add: HandlerDefaultMaxStreamDuration_def time_Minute_def)
  have wrap: "sint (maxStreamingDurMin v * time_Minute) = signed_take_bit 63 (?m * 60000000000)"
    by (simp add: sint_word_ariths time_Minute_def)
  have fits: "signed_take_bit 63 (?m * 60000000000) = ?m * 60000000000"
    if "- 153722867 \<le> ?m" "?m \<le> 153722867"
    using that by (intro signed_take_bit_int_eq_self) simp_all
  have limit: "MaxStreamDur (config s) = (if signed_take_bit 63 (?m * 60000000000) \<le> 0
      then HandlerDefaultMaxStreamDuration else maxStreamingDurMin v * time_Minute)"
    by (simp add: server_NewServer_Inr(1) [OF assms] createServerConfig_def flip: wrap)
  show ?thesis using d wrap fits by (auto simp: limit Let_def)
qed

theorem stream_limit_bounds_witness:
  "\<exists>s. server_NewServer [] (createServerConfig (sidecar_flag_defaults (\<lambda>n. '''') ()) runtime_example ()) 0 = Inr s \<and>
     sint (MaxStreamDur (config s)) = 600000000000"
proof -
  have "runtime_args_Validate [] (sc_args (createServerConfig (sidecar_flag_defaults (\<lambda>n. '''') ()) runtime_example ())) = None"
    by (simp add: createServerConfig_def runtime_example_def runtime_args_example_valid)
  then obtain s where s: "server_NewServer [] (createServerConfig (sidecar_flag_defaults (\<lambda>n. '''') ())
      runtime_example ()) 0 = Inr s"
    using server_NewServer_accepts [of "createServerConfig (sidecar_flag_defaults (\<lambda>n. '''') ()) runtime_example ()"]
    by (auto simp: createServerConfig_def)
  with stream_limit_bounds [OF s] show ?thesis
    by (simp add: sidecar_flag_defaults_def defaultMaxStreamingDurationMin_def)
qed

text \<open>
  A limit of 307445735 minutes, five hundred years, is one of 26 seconds, and one of -153722868
  minutes is one of 292 years.
\<close>

lemma stream_limit_wraps:
  "sint ((307445735 :: int64) * time_Minute) = 26290448384"
  "sint ((- 153722868 :: int64) * time_Minute) = 9223371993709551616"
  by (simp_all add: time_Minute_def)


text \<open>
  C14. The exit codes of the sidecar, for every command line. A help request gives code 0 and a
  flag that is not accepted code 2, both with nothing logged; the version flag prints one line and
  gives code 0. Otherwise \<open>Run\<close> first logs the version, and what it does is decided by whether the
  arguments were valid, the clients, the certificate and the port were there and the driver was
  validated. If so there is a server: code 2 for a metrics path that cannot be registered, code 0
  with the server no longer ready after a termination signal, and no end without one. If not,
  there is none: code 1 with an error as the last log entry, or no end because the wait for the
  driver has none. The process exits with 0 only if nothing else ended it before, and with 1
  exactly if \<open>Run\<close> returned 1 or the connection to the driver was lost, and then an error is the
  last log entry.
\<close>
theorem sidecar_Run_spec:
  assumes "sidecar_Run env klog_flags k kv (name # args) version = (e, srv, out)"
    and "newSidecarFlagSet (se_std env) (se_getenv env) klog_flags k = (formal, v0)"
    and "sidecar_main strike env klog_flags k kv (name # args) version = (e', out')"
  shows "(case flag_Parse formal args v0 of
       HelpRequested \<Rightarrow> e = Exit 0 \<and> srv = None \<and> out = []
     | ParseFailed x \<Rightarrow> e = Exit 2 \<and> srv = None \<and> out = []
     | Parsed v rest \<Rightarrow>
         if showVersion v
         then e = Exit 0 \<and> srv = None \<and> out = [Stdout (name @ '' '' @ version @ [CHR 0x0A])]
         else (\<exists>out1. out = Klog InfoLog (''Version: '' @ version) # out1 \<and>
           run_outcome env (kv (klogFlags v)) v (e, srv, out1))) \<and>
     (e' = Exit 0 \<longleftrightarrow> e = Exit 0 \<and> interrupted strike out = None) \<and>
     (e' = Exit 1 \<longleftrightarrow> (if interrupted strike out = None then e = Exit 1
        else interrupted strike out = Some DriverConnectionLost)) \<and>
     (e' = Exit 1 \<longrightarrow> (\<exists>pre m. out' = pre @ [Klog ErrorLog m]))"
proof -
  let ?run = "case flag_Parse formal args v0 of
       HelpRequested \<Rightarrow> e = Exit 0 \<and> srv = None \<and> out = []
     | ParseFailed x \<Rightarrow> e = Exit 2 \<and> srv = None \<and> out = []
     | Parsed v rest \<Rightarrow>
         if showVersion v
         then e = Exit 0 \<and> srv = None \<and> out = [Stdout (name @ '' '' @ version @ [CHR 0x0A])]
         else (\<exists>out1. out = Klog InfoLog (''Version: '' @ version) # out1 \<and>
           run_outcome env (kv (klogFlags v)) v (e, srv, out1))"
  note parse_defs = sidecar_Run_def parseFlagsAndHandleShowVersion_def FlagSet_Parse_def
      sidecarFlagSetErrorHandling_def
  have run: ?run
  proof (cases "flag_Parse formal args v0")
    case (Parsed v rest)
    show ?thesis
    proof (cases "showVersion v")
      case True
      with Parsed assms(1,2) show ?thesis by (simp add: parse_defs)
    next
      case False
      obtain e1 s1 out1 where r: "run_sidecar env (kv (klogFlags v)) v = (e1, s1, out1)"
        by (metis prod_cases3)
      with Parsed assms(1,2) False show ?thesis
        using run_sidecar_outcome [of env "kv (klogFlags v)" v] by (auto simp: parse_defs)
    qed
  qed (use assms(1,2) in \<open>simp_all add: parse_defs\<close>)
  have "\<exists>pre m. out = pre @ [Klog ErrorLog m]" if "e = Exit 1"
  proof (cases "flag_Parse formal args v0")
    case (Parsed v rest)
    with run that obtain out1 where o: "out = Klog InfoLog (''Version: '' @ version) # out1"
        "run_outcome env (kv (klogFlags v)) v (Exit 1, srv, out1)"
      by (auto split: if_splits)
    then obtain pre m where "out1 = pre @ [Klog ErrorLog m]"
      by (auto simp: run_outcome_def serving_end_def split: if_splits)
    with o(1) show ?thesis by (intro exI [of _ "Klog InfoLog (''Version: '' @ version) # pre"]) simp
  qed (use run that in simp_all)
  with run sidecar_main_ends [OF assms(1,3)] show ?thesis by (auto split: if_splits)
qed

subsection \<open>Examples\<close>

definition go_std_example :: go_std where
  "go_std_example =
     \<lparr>ParseDuration = (\<lambda>s. if s = ''1m0s'' then Some time_Minute else None),
      Duration_String = (\<lambda>d. ''1m0s''),
      ParseFloat = (\<lambda>s. if s = ''5'' then Inr defaultKubeAPIQPS else Inl ErrSyntax),
      FormatFloat32 = (\<lambda>x. ''5''), float32_of = (\<lambda>x. defaultKubeAPIQPS32)\<rparr>"

definition sidecar_env_example :: "(nat, unit, unit, unit, unit) sidecar_env" where
  "sidecar_env_example =
     \<lparr>se_std = go_std_example, se_getenv = (\<lambda>n. ''''), se_cipher_suites = [],
      se_runtime = runtime_env_example, se_NewCertWatcher = (\<lambda>c k. Inr ()),
      se_listen = (\<lambda>a. None), se_bad_pattern = (\<lambda>p. False), se_signals = [(''window changed'', 28), (''terminated'', 15)]\<rparr>"

theorem runtimeArgsToArgv_roundtrip_witness:
  "\<exists>v. flag_Parse (sidecar_flag_defs go_std_example)
      (tl (runtimeArgsToArgv go_std_example ''sidecar'' runtime_args_example))
      (sidecar_flag_defaults (\<lambda>n. '''') ()) = Parsed v [] \<and>
    runtimeArgsFromFlags go_std_example v = runtime_args_example"
proof -
  have "newSidecarFlagSet go_std_example (\<lambda>n. '''') [] () =
      (sidecar_flag_defs go_std_example, sidecar_flag_defaults (\<lambda>n. '''') ())"
    using newSidecarFlagSet_eq [of go_std_example "\<lambda>n. ''''" "[]" "()"] by simp
  then show ?thesis
    by (rule runtimeArgsToArgv_roundtrip [rotated -1])
      (simp_all add: go_std_example_def runtime_args_example_def time_Minute_def defaultKubeAPIQPS32_def)
qed



definition sidecar_args_example :: runtime_args where
  "sidecar_args_example =
     \<lparr>CSIAddress = ''/run/csi/socket'', CSITimeout = time_Minute, KubeAPIBurst = 10,
      KubeAPIQPS = defaultKubeAPIQPS32, Kubeconfig = '''', GRPCPort = 50051, TLSCertFile = ''cert'',
      TLSKeyFile = ''key'', HttpEndpoint = '':8080'', MetricsPath = ''/metrics'',
      Audience = '''', TLSMinVersion = '''', TLSCipherSuites = '''', TLSCurvePreferences = ''''\<rparr>"

lemma sidecar_args_example_valid: "runtime_args_Validate [] sidecar_args_example = None"
  by (simp add: runtime_args_Validate_None_iff sidecar_args_example_def ParseTLSVersion_def
      ciphers.parse_ok_iff curves.parse_ok_iff time_Minute_def)

lemma runtime_New_sidecar_example:
  "\<exists>rt. runtime_New [] runtime_env_example sidecar_args_example = Inr rt \<and>
     rt_args rt = sidecar_args_example \<and> rt_csi_conn rt = Some ()"
  unfolding runtime_New_def sidecar_args_example_valid
  by (simp add: runtime_initialize_def kubeConnect_def csiConnect_def io_run
      Let_def runtime_env_example_def sidecar_args_example_def GetDriverName_def)

lemma sidecar_parse_example:
  "flag_Parse (sidecar_flag_defs std) [''-tls-cert'', ''cert'', ''-tls-key'', ''key''] v =
     Parsed (v\<lparr>tlsCert := ''cert'', tlsKey := ''key''\<rparr>) []"
  using sidecar_args(5) [of std "[]" True "''cert''" "opt_arg True ''tls-key'' ''key'' @ []" v]
    sidecar_args(6) [of std "[]" True "''key''" "[]" "v\<lparr>tlsCert := ''cert''\<rparr>"]
  by (simp add: flag_Parse_Nil)

lemma run_sidecar_example:
  fixes v :: "unit sidecar_flags"
  assumes "v = sidecar_flag_defaults (\<lambda>n. '''') ()\<lparr>tlsCert := ''cert'', tlsKey := ''key''\<rparr>"
  shows "\<exists>s out. run_sidecar sidecar_env_example 0 v = (Exit 0, Some s, out)"
proof -
  have args: "runtimeArgsFromFlags go_std_example v = sidecar_args_example"
    by (simp add: assms sidecar_flag_defaults_def runtimeArgsFromFlags_def sidecar_args_example_def
        go_std_example_def defaultCSISocket_def defaultCSITimeout_def defaultKubeAPIBurst_def
        defaultKubeconfig_def defaultGRPCPort_def defaultHTTPEndpoint_def defaultMetricsPath_def)
  have path: "metricsPath v \<noteq> defaultHealthPath"
    by (simp add: assms sidecar_flag_defaults_def defaultMetricsPath_def defaultHealthPath_def)
  obtain rt where rt: "runtime_New [] runtime_env_example sidecar_args_example = Inr rt"
      "rt_args rt = sidecar_args_example" "rt_csi_conn rt = Some ()"
    using runtime_New_sidecar_example by blast
  obtain s0 where s0: "server_NewServer [] (createServerConfig v rt ()) 0 = Inr s0"
    using server_NewServer_accepts [of "createServerConfig v rt ()" "[]" 0] rt(2) sidecar_args_example_valid
    by (auto simp: createServerConfig_def)
  show ?thesis
    using args rt path s0 wait_example [OF rt(3)]
    by (simp add: run_sidecar_def sidecar_env_example_def Let_def startGRPCServerAndValidateCSIDriver_def
        server_Start_def run_serving_def metrics_path_bad_def signal_received_def terminationSignals_def
        shutdownOnTerminationSignal_def)
qed

theorem sidecar_Run_spec_witness:
  "(\<exists>s out. sidecar_Run sidecar_env_example [] () (\<lambda>k. 0)
     [''sidecar'', ''-tls-cert'', ''cert'', ''-tls-key'', ''key''] ''v1'' = (Exit 0, Some s, out) \<and> \<not> IsReady s) \<and>
   fst (sidecar_main (Some (1, DriverConnectionLost)) sidecar_env_example [] () (\<lambda>k. 0)
     [''sidecar'', ''-tls-cert'', ''cert'', ''-tls-key'', ''key''] ''v1'') = Exit 1"
proof -
  let ?v = "sidecar_flag_defaults (\<lambda>n. '''') ()\<lparr>tlsCert := ''cert'', tlsKey := ''key''\<rparr>"
  let ?args = "[''-tls-cert'', ''cert'', ''-tls-key'', ''key'']"
  have set: "newSidecarFlagSet go_std_example (\<lambda>n. '''') [] () =
      (sidecar_flag_defs go_std_example, sidecar_flag_defaults (\<lambda>n. '''') ())"
    using newSidecarFlagSet_eq [of go_std_example "\<lambda>n. ''''" "[]" "()"] by simp
  have env: "se_std sidecar_env_example = go_std_example" "se_getenv sidecar_env_example = (\<lambda>n. [])"
    by (simp_all add: sidecar_env_example_def)
  have v: "\<not> showVersion ?v" by (simp add: sidecar_flag_defaults_def)
  obtain s out where run: "run_sidecar sidecar_env_example 0 ?v = (Exit 0, Some s, out)"
    using run_sidecar_example by blast
  have Run: "sidecar_Run sidecar_env_example [] () (\<lambda>k. 0) (''sidecar'' # ?args) ''v1'' =
      (Exit 0, Some s, Klog InfoLog (''Version: '' @ ''v1'') # out)"
    using set v run env
    by (simp add: sidecar_Run_def parseFlagsAndHandleShowVersion_def FlagSet_Parse_def
        sidecar_parse_example)
  obtain e' out' where Main: "sidecar_main (Some (1, DriverConnectionLost)) sidecar_env_example [] ()
      (\<lambda>k. 0) (''sidecar'' # ?args) ''v1'' = (e', out')" by fastforce
  from sidecar_Run_spec [OF Run set [folded env] Main]
  have "run_outcome sidecar_env_example 0 ?v (Exit 0, Some s, out)" "e' = Exit 1"
    using v by (simp_all add: sidecar_parse_example env interrupted_def)
  then have "\<not> IsReady s"
    by (auto simp: run_outcome_def serving_end_def server_Stop_not_ready split: if_splits)
  with Run Main \<open>e' = Exit 1\<close> show ?thesis by auto
qed


end
