(* ===== verification/Lifecycle.thy ===== *)
theory Lifecycle
  imports Sidecar
begin

text \<open>
  The life of the sidecar process from the start of its gRPC server on, as a step relation: the
  main goroutine of \<open>startGRPCServerAndValidateCSIDriver\<close> and \<open>Run\<close>, the requests that the gRPC
  server handles meanwhile, the health endpoints, and the ways the process ends.

  A request is not one step: it begins, which takes its operation number, it reads the
  readiness of the server, and it finishes, with everything else between these. What the handlers
  share is the operation counter, which is incremented atomically, and the health server, which has
  a lock and which a handler reads once; otherwise requests that overlap only mix their events,
  which are added here when a request finishes. A request that is in flight when a signal arrives
  goes on: \<open>Stop\<close> first sets the server not ready and then waits, in \<open>GracefulStop\<close>, for the
  requests in flight. The gRPC server does not recover a panic of a handler: it ends the process. So
  does the loss of the connection to the driver, by the callback that \<open>csiConnect\<close> passes, and, until
  the main goroutine asks for it, a termination signal.
\<close>

subsection \<open>State\<close>

datatype sidecar_phase = Validating | Serving | Stopping | Exited nat | Killed nat

fun running :: "sidecar_phase \<Rightarrow> bool" where
  "running (Exited c) = False"
| "running (Killed n) = False"
| "running p = True"

text \<open>A request in flight: its operation number, and the health server it saw when it looked.\<close>

datatype rpc_request =
  AllocatedRequest get_metadata_allocated_request
| DeltaRequest get_metadata_delta_request

record rpc_call =
  rc_request :: rpc_request
  rc_opNumber :: int64
  rc_health :: "health_server option"

fun serve_rpc :: "cluster \<Rightarrow> client_stream \<Rightarrow> rpc_request \<Rightarrow> server \<Rightarrow> ((exn + unit) \<times> server) option" where
  "serve_rpc cl send (AllocatedRequest req) s = GetMetadataAllocated cl send req s"
| "serve_rpc cl send (DeltaRequest req) s = GetMetadataDelta cl send req s"

text \<open>
  \<open>sp_http\<close> says that the goroutine of the HTTP server was started, \<open>sp_notify\<close> that the process has
  asked for the termination signals; \<open>sp_calls\<close> are the requests in flight.
\<close>

record sidecar_process =
  sp_phase :: sidecar_phase
  sp_server :: server
  sp_http :: bool
  sp_notify :: bool
  sp_calls :: "nat \<rightharpoonup> rpc_call"

text \<open>The phases are ordered in time; a step never goes back.\<close>

fun phase_rank :: "sidecar_phase \<Rightarrow> nat" where
  "phase_rank Validating = 0"
| "phase_rank Serving = 1"
| "phase_rank Stopping = 2"
| "phase_rank (Exited c) = 3 + 2 * c"
| "phase_rank (Killed n) = 4 + 2 * n"

lemma phase_rank_inj: "phase_rank p = phase_rank q \<longleftrightarrow> p = q"
  by (cases p; cases q) (auto, presburger+)

instantiation sidecar_phase :: linorder
begin

definition less_eq_sidecar_phase :: "sidecar_phase \<Rightarrow> sidecar_phase \<Rightarrow> bool" where
  "less_eq_sidecar_phase p q \<longleftrightarrow> phase_rank p \<le> phase_rank q"

definition less_sidecar_phase :: "sidecar_phase \<Rightarrow> sidecar_phase \<Rightarrow> bool" where
  "less_sidecar_phase p q \<longleftrightarrow> phase_rank p < phase_rank q"

instance
  by intro_classes
    (auto simp: less_eq_sidecar_phase_def less_sidecar_phase_def phase_rank_inj)

end

subsection \<open>Steps\<close>

datatype sidecar_action =
  DriverValidated
| ValidationFailed
| ValidationPanicked
| MetricsPathRejected
| HttpStarted
| SignalsAskedFor
| SignalReceived
| StopComplete
| RpcBegin nat rpc_request
| RpcCheck nat
| RpcFinish nat "exn + unit"
| HealthRpc "gerr + serving_status"
| HttpHealth "nat \<times> string"
| ServeFailed
| ConnectionLost
| SignalDied nat

text \<open>
  The phase after a request: unchanged, or exit code 2 of the Go runtime after a panic. \<open>klog.Fatalf\<close>
  exits with code 255, after a failure of the listening socket of one of the two servers. A
  signal that was not asked for kills the process or makes it exit with code 2.
\<close>

definition after_rpc :: "exn + unit \<Rightarrow> sidecar_phase \<Rightarrow> sidecar_phase" where
  "after_rpc r p = (case r of Inl (Panicked m) \<Rightarrow> Exited 2 | _ \<Rightarrow> p)"

definition signal_phase :: "nat \<Rightarrow> sidecar_phase" where
  "signal_phase n = (if n \<in> set dumping_signals then Exited 2 else Killed n)"

definition fatal_signal :: "bool \<Rightarrow> nat \<Rightarrow> bool" where
  "fatal_signal asked n \<longleftrightarrow> n \<in> set killing_signals \<union> set dumping_signals \<and>
     (asked \<longrightarrow> n \<notin> set terminationSignals)"

inductive sidecar_step ::
  "('host, 'kube, 'cbt, 'snap, 'conn) sidecar_env \<Rightarrow> 'k sidecar_flags \<Rightarrow>
     ('host, 'kube, 'cbt, 'snap, 'conn) runtime \<Rightarrow>
     sidecar_process \<Rightarrow> sidecar_action \<Rightarrow> sidecar_process \<Rightarrow> bool"
  for env v rt where
  validated: "sp_phase p = Validating \<Longrightarrow>
    WaitTillCSIDriverIsValidated (se_runtime env) rt = Some (Inr ()) \<Longrightarrow>
    sidecar_step env v rt p DriverValidated
      (p\<lparr>sp_phase := Serving, sp_server := CSIDriverIsReady (sp_server p)\<rparr>)"
| validation_failed: "sp_phase p = Validating \<Longrightarrow>
    WaitTillCSIDriverIsValidated (se_runtime env) rt = Some (Inl (Failed err)) \<Longrightarrow>
    sidecar_step env v rt p ValidationFailed (p\<lparr>sp_phase := Exited 1\<rparr>)"
| validation_panicked: "sp_phase p = Validating \<Longrightarrow>
    WaitTillCSIDriverIsValidated (se_runtime env) rt = Some (Inl (Panicked m)) \<Longrightarrow>
    sidecar_step env v rt p ValidationPanicked (p\<lparr>sp_phase := Exited 2\<rparr>)"
| metrics_path_rejected: "sp_phase p = Serving \<Longrightarrow> \<not> sp_http p \<Longrightarrow> metrics_path_bad env v \<Longrightarrow>
    sidecar_step env v rt p MetricsPathRejected (p\<lparr>sp_phase := Exited 2\<rparr>)"
| http_started: "sp_phase p = Serving \<Longrightarrow> \<not> sp_http p \<Longrightarrow> \<not> metrics_path_bad env v \<Longrightarrow>
    sidecar_step env v rt p HttpStarted (p\<lparr>sp_http := True\<rparr>)"
| signals_asked_for: "sp_phase p = Serving \<Longrightarrow> sp_http p \<Longrightarrow>
    sidecar_step env v rt p SignalsAskedFor (p\<lparr>sp_notify := True\<rparr>)"
| signal: "sp_phase p = Serving \<Longrightarrow> sp_notify p \<Longrightarrow>
    sidecar_step env v rt p SignalReceived
      (p\<lparr>sp_phase := Stopping, sp_server := server_Stop (sp_server p)\<rparr>)"
| stop_complete: "sp_phase p = Stopping \<Longrightarrow> sp_calls p = Map.empty \<Longrightarrow>
    sidecar_step env v rt p StopComplete (p\<lparr>sp_phase := Exited 0\<rparr>)"
| rpc_begin: "running (sp_phase p) \<Longrightarrow> sp_calls p k = None \<Longrightarrow>
    sidecar_step env v rt p (RpcBegin k req)
      (p\<lparr>sp_server := (sp_server p)\<lparr>opNumber := opNumber (sp_server p) + 1\<rparr>,
         sp_calls := (sp_calls p)(k \<mapsto> \<lparr>rc_request = req, rc_opNumber = opNumber (sp_server p),
           rc_health = None\<rparr>)\<rparr>)"
| rpc_check: "running (sp_phase p) \<Longrightarrow> sp_calls p k = Some c \<Longrightarrow> rc_health c = None \<Longrightarrow>
    sidecar_step env v rt p (RpcCheck k)
      (p\<lparr>sp_calls := (sp_calls p)(k \<mapsto> c\<lparr>rc_health := Some (healthServer (sp_server p))\<rparr>)\<rparr>)"
| rpc_finish: "running (sp_phase p) \<Longrightarrow> sp_calls p k = Some c \<Longrightarrow> rc_health c = Some h \<Longrightarrow>
    serve_rpc cl send (rc_request c) ((sp_server p)\<lparr>opNumber := rc_opNumber c, healthServer := h\<rparr>) =
      Some (r, t) \<Longrightarrow>
    sidecar_step env v rt p (RpcFinish k r)
      (p\<lparr>sp_phase := after_rpc r (sp_phase p), sp_server := (sp_server p)\<lparr>events := events t\<rparr>,
         sp_calls := (sp_calls p)(k := None)\<rparr>)"
| health_rpc: "running (sp_phase p) \<Longrightarrow>
    sidecar_step env v rt p (HealthRpc (health_Check (healthServer (sp_server p)) service)) p"
| http_health: "running (sp_phase p) \<Longrightarrow> sp_http p \<Longrightarrow>
    sidecar_step env v rt p (HttpHealth (health_response (sp_server p))) p"
| serve_failed: "running (sp_phase p) \<Longrightarrow>
    sidecar_step env v rt p ServeFailed (p\<lparr>sp_phase := Exited 255\<rparr>)"
| connection_lost: "running (sp_phase p) \<Longrightarrow> rt_on_loss rt = Some f \<Longrightarrow>
    sidecar_step env v rt p ConnectionLost (p\<lparr>sp_phase := Exited (fst (loss_exit f))\<rparr>)"
| signal_died: "running (sp_phase p) \<Longrightarrow> fatal_signal (sp_notify p) n \<Longrightarrow>
    sidecar_step env v rt p (SignalDied n) (p\<lparr>sp_phase := signal_phase n\<rparr>)"

inductive_cases validated_step: "sidecar_step env v rt p DriverValidated q"
inductive_cases rpc_begin_step: "sidecar_step env v rt p (RpcBegin k req) q"
inductive_cases rpc_check_step: "sidecar_step env v rt p (RpcCheck k) q"
inductive_cases rpc_finish_step: "sidecar_step env v rt p (RpcFinish k r) q"
inductive_cases http_health_step: "sidecar_step env v rt p (HttpHealth h) q"
inductive_cases any_step: "sidecar_step env v rt p a q"

text \<open>A run, from the state in which \<open>Start\<close> has returned nil.\<close>

definition sidecar_initial ::
  "('host, 'kube, 'cbt, 'snap, 'conn) sidecar_env \<Rightarrow> server_config \<Rightarrow> nat \<Rightarrow> sidecar_process \<Rightarrow> bool" where
  "sidecar_initial env cfg kv p \<longleftrightarrow>
     (\<exists>s0 s. server_NewServer (se_cipher_suites env) cfg kv = Inr s0 \<and>
        server_Start (se_listen env) s0 = (None, s) \<and>
        p = \<lparr>sp_phase = Validating, sp_server = s, sp_http = False, sp_notify = False, sp_calls = Map.empty\<rparr>)"

inductive sidecar_runs ::
  "('host, 'kube, 'cbt, 'snap, 'conn) sidecar_env \<Rightarrow> 'k sidecar_flags \<Rightarrow>
     ('host, 'kube, 'cbt, 'snap, 'conn) runtime \<Rightarrow>
     sidecar_process \<Rightarrow> sidecar_action list \<Rightarrow> sidecar_process \<Rightarrow> bool"
  for env v rt p0 where
  runs_start: "sidecar_runs env v rt p0 [] p0"
| runs_step: "sidecar_runs env v rt p0 as p \<Longrightarrow> sidecar_step env v rt p a q \<Longrightarrow>
    sidecar_runs env v rt p0 (as @ [a]) q"

lemma runs_snoc:
  assumes "sidecar_runs env v rt p0 (as @ [a]) q"
  obtains p where "sidecar_runs env v rt p0 as p" "sidecar_step env v rt p a q"
  using assms by (cases rule: sidecar_runs.cases) auto


subsection \<open>Readiness is a function of the history\<close>

fun flag_ops :: "sidecar_action \<Rightarrow> flag_op list" where
  "flag_ops DriverValidated = [RaiseF]"
| "flag_ops SignalReceived = [CloseF]"
| "flag_ops a = []"

fun rpc_count :: "sidecar_action list \<Rightarrow> nat" where
  "rpc_count [] = 0"
| "rpc_count (RpcBegin k req # as) = Suc (rpc_count as)"
| "rpc_count (a # as) = rpc_count as"

lemma rpc_count_append [simp]: "rpc_count (as @ bs) = rpc_count as + rpc_count bs"
  by (induction as rule: rpc_count.induct) auto

lemma step_server:
  assumes "sidecar_step env v rt p a q"
  shows "healthServer (sp_server q) = health.run_ops (flag_ops a) (healthServer (sp_server p))"
    "opNumber (sp_server q) = opNumber (sp_server p) + of_nat (rpc_count [a])"
    "config (sp_server q) = config (sp_server p)"
  using assms
  by (induction rule: sidecar_step.induct)
    (auto simp: CSIDriverIsReady_health server_Stop_health CSIDriverIsReady_def setReady_def
      server_Stop_def shuttingDown_def klog_info_def)

lemma runs_server:
  assumes "sidecar_runs env v rt p0 as p"
  shows "healthServer (sp_server p) = health.run_ops (concat (map flag_ops as)) (healthServer (sp_server p0))"
    "opNumber (sp_server p) = opNumber (sp_server p0) + of_nat (rpc_count as)"
    "config (sp_server p) = config (sp_server p0)"
  using assms
  by (induction rule: sidecar_runs.induct) (simp_all add: step_server health.run_ops_append)

lemma initial_server:
  assumes "sidecar_initial env cfg kv p0"
  shows "sp_phase p0 = Validating" "healthServer (sp_server p0) = newHealthServer"
    "opNumber (sp_server p0) = 0" "sp_calls p0 = Map.empty" "\<not> sp_http p0" "\<not> sp_notify p0"
  using assms
  by (auto simp: sidecar_initial_def server_Start_def dest: server_NewServer_Inr split: option.splits)

lemma flag_ops_set:
  "RaiseF \<in> set (concat (map flag_ops as)) \<longleftrightarrow> DriverValidated \<in> set as"
  "CloseF \<in> set (concat (map flag_ops as)) \<longleftrightarrow> SignalReceived \<in> set as"
  "LowerF \<notin> set (concat (map flag_ops as))"
proof (induction as)
  case (Cons a as)
  { case 1 with Cons show ?case by (cases a) auto }
  { case 2 with Cons show ?case by (cases a) auto }
  { case 3 with Cons show ?case by (cases a) auto }
qed simp_all

text \<open>The readiness a history leaves behind.\<close>

definition ready_after :: "sidecar_action list \<Rightarrow> bool" where
  "ready_after as \<longleftrightarrow> DriverValidated \<in> set as \<and> SignalReceived \<notin> set as"

lemma runs_ready:
  assumes "sidecar_initial env cfg kv p0" "sidecar_runs env v rt p0 as p"
  shows "health_ready (healthServer (sp_server p)) \<longleftrightarrow> ready_after as"
proof -
  let ?ops = "concat (map flag_ops as)"
  have "health_ready (healthServer (sp_server p)) \<longleftrightarrow> CloseF \<notin> set ?ops \<and> ?ops \<noteq> [] \<and> last ?ops = RaiseF"
    using runs_server(1) [OF assms(2)] health.ready_run_ops [OF newHealthServer_low]
    by (simp add: initial_server(2) [OF assms(1)])
  also have "\<dots> \<longleftrightarrow> RaiseF \<in> set ?ops \<and> CloseF \<notin> set ?ops"
    using flag_ops_set(3) [of as] last_in_set [of ?ops] flag_op.exhaust [of "last ?ops"]
    by (metis empty_iff list.set(1))
  finally show ?thesis by (simp only: flag_ops_set ready_after_def)
qed

subsection \<open>What the phase of a run says of its actions\<close>

definition exit_reason :: "nat \<Rightarrow> sidecar_action list \<Rightarrow> sidecar_action \<Rightarrow> bool" where
  "exit_reason c pre a \<longleftrightarrow>
     (case a of
        StopComplete \<Rightarrow> c = 0 \<and> SignalReceived \<in> set pre
      | ValidationFailed \<Rightarrow> c = 1 \<and> DriverValidated \<notin> set pre
      | ConnectionLost \<Rightarrow> c = 1
      | RpcFinish k r \<Rightarrow> c = 2 \<and> (\<exists>m. r = Inl (Panicked m))
      | MetricsPathRejected \<Rightarrow> c = 2 \<and> DriverValidated \<in> set pre \<and> HttpStarted \<notin> set pre
      | ValidationPanicked \<Rightarrow> c = 2 \<and> DriverValidated \<notin> set pre
      | SignalDied n \<Rightarrow> c = 2 \<and> n \<in> set dumping_signals \<and> fatal_signal (SignalsAskedFor \<in> set pre) n
      | ServeFailed \<Rightarrow> c = 255
      | _ \<Rightarrow> False)"

fun phase_history :: "sidecar_phase \<Rightarrow> sidecar_action list \<Rightarrow> bool" where
  "phase_history Validating as \<longleftrightarrow> DriverValidated \<notin> set as \<and> SignalReceived \<notin> set as"
| "phase_history Serving as \<longleftrightarrow> DriverValidated \<in> set as \<and> SignalReceived \<notin> set as"
| "phase_history Stopping as \<longleftrightarrow> DriverValidated \<in> set as \<and> SignalReceived \<in> set as"
| "phase_history (Exited c) as \<longleftrightarrow> (\<exists>pre a. as = pre @ [a] \<and> exit_reason c pre a)"
| "phase_history (Killed n) as \<longleftrightarrow>
     (\<exists>pre. as = pre @ [SignalDied n] \<and> fatal_signal (SignalsAskedFor \<in> set pre) n)"

definition process_history :: "sidecar_process \<Rightarrow> sidecar_action list \<Rightarrow> bool" where
  "process_history p as \<longleftrightarrow> phase_history (sp_phase p) as \<and>
     (sp_http p \<longleftrightarrow> HttpStarted \<in> set as) \<and> (sp_notify p \<longleftrightarrow> SignalsAskedFor \<in> set as)"

lemma phase_history_other:
  "running p \<Longrightarrow> phase_history p as \<Longrightarrow> a \<notin> {DriverValidated, SignalReceived} \<Longrightarrow> phase_history p (as @ [a])"
  by (cases p) auto

lemma phase_history_rpc:
  assumes "running p" "phase_history p as"
  shows "phase_history (after_rpc r p) (as @ [RpcFinish k r])"
  using phase_history_other [OF assms]
  by (auto simp: after_rpc_def exit_reason_def split: sum.split exn.split)

lemma step_history:
  assumes "sidecar_step env v rt p a q" "process_history p as"
  shows "process_history q (as @ [a])"
  using assms
proof (induction rule: sidecar_step.induct)
  case (connection_lost p f)
  then show ?case by (cases f) (auto simp: process_history_def exit_reason_def)
qed (auto simp: process_history_def exit_reason_def signal_phase_def phase_history_rpc phase_history_other)

lemma runs_history:
  assumes "sidecar_initial env cfg kv p0" "sidecar_runs env v rt p0 as p"
  shows "process_history p as"
  using assms(2)
proof (induction rule: sidecar_runs.induct)
  case runs_start
  with initial_server [OF assms(1)] show ?case by (simp add: process_history_def)
qed (rule step_history)

lemma phase_advances:
  "Validating \<le> p" "running p \<Longrightarrow> p \<le> Exited c" "running p \<Longrightarrow> p \<le> Killed n"
  "running p \<Longrightarrow> p \<le> after_rpc r p" "running p \<Longrightarrow> p \<le> signal_phase n"
  "Validating \<le> Serving" "Serving \<le> Stopping"
  by (cases p; auto simp: less_eq_sidecar_phase_def after_rpc_def signal_phase_def split: sum.split exn.split)+

lemma step_phase: "sidecar_step env v rt p a q \<Longrightarrow> sp_phase p \<le> sp_phase q"
  by (induction rule: sidecar_step.induct) (simp_all add: phase_advances)

lemma runs_phase: "sidecar_runs env v rt p0 as p \<Longrightarrow> sp_phase p0 \<le> sp_phase p"
  by (induction rule: sidecar_runs.induct) (auto dest: step_phase intro: order_trans)

text \<open>A driver is validated in a run only when the wait for it has succeeded.\<close>

lemma runs_validated:
  assumes "sidecar_runs env v rt p0 as p" "DriverValidated \<in> set as"
  shows "WaitTillCSIDriverIsValidated (se_runtime env) rt = Some (Inr ())"
  using assms by (induction rule: sidecar_runs.induct) (auto elim: validated_step)

subsection \<open>Requests in flight\<close>

text \<open>The actions of one request, and the requests that have begun and not finished.\<close>

fun of_call :: "nat \<Rightarrow> sidecar_action \<Rightarrow> bool" where
  "of_call k (RpcBegin j req) \<longleftrightarrow> j = k"
| "of_call k (RpcCheck j) \<longleftrightarrow> j = k"
| "of_call k (RpcFinish j r) \<longleftrightarrow> j = k"
| "of_call k a \<longleftrightarrow> False"

fun in_flight :: "nat \<Rightarrow> sidecar_action list \<Rightarrow> bool" where
  "in_flight k [] \<longleftrightarrow> False"
| "in_flight k (RpcBegin j req # as) \<longleftrightarrow> j = k \<or> in_flight k as"
| "in_flight k (RpcFinish j r # as) \<longleftrightarrow> j \<noteq> k \<and> in_flight k as"
| "in_flight k (a # as) \<longleftrightarrow> in_flight k as"

text \<open>The look at the readiness by the request \<open>k\<close>, which is still in flight.\<close>

definition checked_in :: "nat \<Rightarrow> sidecar_action list \<Rightarrow> sidecar_action list \<Rightarrow> bool" where
  "checked_in k pre as \<longleftrightarrow> (\<exists>post. as = pre @ [RpcCheck k] @ post \<and> list_all (\<lambda>a. \<not> of_call k a) post)"

definition call_seen :: "rpc_call option \<Rightarrow> nat \<Rightarrow> sidecar_action list \<Rightarrow> bool" where
  "call_seen call k as \<longleftrightarrow>
     (\<forall>c h. call = Some c \<longrightarrow> rc_health c = Some h \<longrightarrow>
        (\<exists>pre. checked_in k pre as \<and> (health_ready h \<longleftrightarrow> ready_after pre)))"

definition calls_history :: "sidecar_process \<Rightarrow> sidecar_action list \<Rightarrow> bool" where
  "calls_history p as \<longleftrightarrow>
     (\<forall>k. (sp_calls p k \<noteq> None) = in_flight k (rev as) \<and> call_seen (sp_calls p k) k as)"

lemma call_seen_snoc: "call_seen call k as \<Longrightarrow> \<not> of_call k a \<Longrightarrow> call_seen call k (as @ [a])"
  unfolding call_seen_def checked_in_def by fastforce

lemma call_seen_now:
  "health_ready h = ready_after as \<Longrightarrow> call_seen (Some (c\<lparr>rc_health := Some h\<rparr>)) k (as @ [RpcCheck k])"
  unfolding call_seen_def checked_in_def
  by (intro allI impI exI [of _ as] conjI exI [of _ "[]"]) auto

lemma call_seen_new [simp]: "call_seen None k as" "rc_health c = None \<Longrightarrow> call_seen (Some c) k as"
  by (simp_all add: call_seen_def)

lemma calls_history_other:
  assumes "calls_history p as" "sp_calls q = sp_calls p" "\<And>k. \<not> of_call k a"
  shows "calls_history q (as @ [a])"
proof -
  have "in_flight k (a # rev as) = in_flight k (rev as)" for k
    using assms(3) by (cases a) auto
  with assms show ?thesis by (simp add: calls_history_def call_seen_snoc)
qed

lemma step_calls:
  assumes "sidecar_step env v rt p a q" "calls_history p as"
    and "health_ready (healthServer (sp_server p)) \<longleftrightarrow> ready_after as"
  shows "calls_history q (as @ [a])"
  using assms
  by (induction rule: sidecar_step.induct)
    (auto simp: calls_history_def call_seen_snoc call_seen_now intro: calls_history_other)

lemma runs_calls:
  assumes "sidecar_initial env cfg kv p0" "sidecar_runs env v rt p0 as p"
  shows "calls_history p as"
  using assms(2)
proof (induction rule: sidecar_runs.induct)
  case runs_start
  with initial_server [OF assms(1)] show ?case by (simp add: calls_history_def)
next
  case (runs_step as p a q)
  from runs_step(2,3) runs_ready [OF assms(1) runs_step(1)] show ?case by (rule step_calls)
qed

lemma serve_rpc_not_ready:
  "serve_rpc cl send req s = Some (r, t) \<Longrightarrow> \<not> IsReady s \<Longrightarrow> r \<noteq> Inr ()"
  by (cases req) (auto dest: allocated_rpc.handler_not_ready delta_rpc.handler_not_ready)

subsection \<open>Properties\<close>

text \<open>
  C9. Readiness is a matter of history alone: at every point of every run, however requests,
  health checks and failures are interleaved, the server is ready exactly when the driver has
  been validated and no termination signal has arrived; and as long as the process runs this is
  exactly the serving phase. The phase only advances, so a server that has stopped serving never
  serves again.
\<close>
theorem readiness_invariant:
  assumes "sidecar_initial env cfg kv p0" "sidecar_runs env v rt p0 as p"
  shows "(IsReady (sp_server p) \<longleftrightarrow> DriverValidated \<in> set as \<and> SignalReceived \<notin> set as) \<and>
    (running (sp_phase p) \<longrightarrow> (IsReady (sp_server p) \<longleftrightarrow> sp_phase p = Serving)) \<and>
    (\<forall>bs q. sidecar_runs env v rt p bs q \<longrightarrow> sp_phase p \<le> sp_phase q)"
proof (intro conjI allI impI)
  show ready: "IsReady (sp_server p) \<longleftrightarrow> DriverValidated \<in> set as \<and> SignalReceived \<notin> set as"
    using runs_ready [OF assms] by (simp add: IsReady_iff ready_after_def)
  show "IsReady (sp_server p) \<longleftrightarrow> sp_phase p = Serving" if "running (sp_phase p)"
    using that ready runs_history [OF assms] by (cases "sp_phase p") (auto simp: process_history_def)
  show "sp_phase p \<le> sp_phase q" if "sidecar_runs env v rt p bs q" for bs q
    using that by (rule runs_phase)
qed

text \<open>
  C10. A request is served only if the sidecar was ready when the request looked: every request
  that succeeds, however requests overlap, looked at the readiness at a point of the run at which
  the driver had been validated and no termination signal had arrived. It may finish after
  the signal, while the server stops. The HTTP health endpoint says ok only between these two
  events, and neither happens unless the driver was found to support the service.
\<close>
theorem served_only_while_ready:
  assumes "sidecar_initial env cfg kv p0" "sidecar_runs env v rt p0 (as @ [a]) q"
  shows "(a = RpcFinish k (Inr ()) \<longrightarrow>
      (\<exists>pre post. as = pre @ [RpcCheck k] @ post \<and> list_all (\<lambda>a. \<not> of_call k a) post \<and>
         DriverValidated \<in> set pre \<and> SignalReceived \<notin> set pre)) \<and>
    (a = HttpHealth (200, b) \<longrightarrow> DriverValidated \<in> set as \<and> SignalReceived \<notin> set as) \<and>
    (a = RpcFinish k (Inr ()) \<or> a = HttpHealth (200, b) \<longrightarrow>
       WaitTillCSIDriverIsValidated (se_runtime env) rt = Some (Inr ()))"
proof -
  obtain p where p: "sidecar_runs env v rt p0 as p" "sidecar_step env v rt p a q"
    using assms(2) by (rule runs_snoc)
  have rpc: "\<exists>pre. checked_in k pre as \<and> ready_after pre" if fin: "a = RpcFinish k (Inr ())"
  proof -
    obtain c h cl send t where c: "sp_calls p k = Some c" "rc_health c = Some h"
        "serve_rpc cl send (rc_request c) ((sp_server p)\<lparr>opNumber := rc_opNumber c, healthServer := h\<rparr>) =
           Some (Inr (), t)"
      using p(2) [unfolded fin] by (auto elim!: rpc_finish_step)
    from serve_rpc_not_ready [OF c(3)] have "health_ready h" by (auto simp: IsReady_iff)
    moreover have "call_seen (Some c) k as"
      using runs_calls [OF assms(1) p(1)] c(1) unfolding calls_history_def by metis
    ultimately show ?thesis using c(2) by (auto simp: call_seen_def)
  qed
  have http: "ready_after as" if "a = HttpHealth (200, b)"
  proof -
    have "IsReady (sp_server p)"
      using p(2) [unfolded that] by (auto simp: health_response_def elim!: http_health_step split: if_splits)
    then show ?thesis using runs_ready [OF assms(1) p(1)] by (simp add: IsReady_iff)
  qed
  have "DriverValidated \<in> set as" if "a = RpcFinish k (Inr ()) \<or> a = HttpHealth (200, b)"
    using that rpc http by (auto simp: checked_in_def ready_after_def)
  with rpc http runs_validated [OF p(1)] show ?thesis
    by (auto simp: checked_in_def ready_after_def)
qed


text \<open>
  The operation identifiers of two requests of a run differ, for fewer than \<open>2 ^ 64\<close> requests
  between them, although the counter wraps around.
\<close>
theorem operation_ids_distinct:
  assumes "sidecar_runs env v rt p as q" "0 < rpc_count as" "rpc_count as < 2 ^ 64"
  shows "fst (OperationID op (sp_server p)) \<noteq> fst (OperationID op (sp_server q))"
proof -
  have "(of_nat (rpc_count as) :: int64) \<noteq> 0"
    using assms(2,3) by (auto simp: word_of_nat_eq_0_iff dest!: dvd_imp_le)
  then have "opNumber (sp_server p) + 1 \<noteq> opNumber (sp_server q) + 1"
    using runs_server(2) [OF assms(1)] by simp
  then have "sint (opNumber (sp_server p) + 1) \<noteq> sint (opNumber (sp_server q) + 1)"
    using signed_word_eqI by blast
  then show ?thesis by (simp add: OperationID_def Let_def)
qed

subsection \<open>Examples\<close>

definition flags_example :: "unit sidecar_flags" where
  "flags_example = sidecar_flag_defaults (\<lambda>n. '''') ()"

lemma flags_example_path [simp]: "\<not> metrics_path_bad sidecar_env_example flags_example"
  by (simp add: metrics_path_bad_def flags_example_def sidecar_flag_defaults_def defaultMetricsPath_def
      defaultHealthPath_def sidecar_env_example_def)

lemma initial_example:
  "\<exists>p. sidecar_initial sidecar_env_example server_config_example 0 p"
proof -
  obtain s where s: "server_NewServer [] server_config_example 0 = Inr s"
    using server_NewServer_accepts [of server_config_example "[]" 0] runtime_args_example_valid
    by (auto simp: server_config_example_def)
  then show ?thesis
    by (simp add: sidecar_initial_def sidecar_env_example_def server_Start_def)
qed

text \<open>
  A run in which a request looks at the readiness before the termination signal and is served after
  it, while the server stops.
\<close>

definition late_run :: "sidecar_action list" where
  "late_run = [DriverValidated, HttpStarted, SignalsAskedFor, RpcBegin 7 (AllocatedRequest allocated_request_example),
     RpcCheck 7, SignalReceived] @ [RpcFinish 7 (Inr ())]"

lemma allocated_late_example:
  assumes "sc_args (config s) = runtime_args_example" "sc_driver_name (config s) = ''driver''" "IsReady s"
  shows "\<exists>t. GetMetadataAllocated cluster_example accepts_all allocated_request_example s = Some (Inr (), t)"
proof -
  obtain ctx where ctx: "getMetadataAllocatedContextWithLogger allocated_request_example s =
      (Inr ctx, s\<lparr>opNumber := opNumber s + 1\<rparr>)"
    using allocated_rpc.logger_eq by blast
  have "\<exists>t. openMetadataAllocated cluster_example ctx allocated_request_example (session_start s) =
      (Inr csi_stream_example, t)"
    using assms by (simp add: driverName_def runtime_args_example_def server_audience_def handler_defs
      io_run Let_def cluster_example_def allocated_request_example_def
      session_start_def csi_stream_example_def fun_eq_iff)
  then obtain t where "openMetadataAllocated cluster_example ctx allocated_request_example
      (session_start s) = (Inr csi_stream_example, t)" ..
  with ctx csi_stream_example_relay(1) [of ctx stream_init t] show ?thesis
    by (auto simp: GetMetadataAllocated_def Let_def session_start_def)
qed

abbreviation example_runs :: "sidecar_process \<Rightarrow> sidecar_action list \<Rightarrow> sidecar_process \<Rightarrow> bool" where
  "example_runs \<equiv> sidecar_runs sidecar_env_example flags_example runtime_example"

lemma example_wait: "WaitTillCSIDriverIsValidated (se_runtime sidecar_env_example) runtime_example = Some (Inr ())"
  using wait_example by (simp add: sidecar_env_example_def runtime_example_def)

lemma runs_cons:
  "sidecar_step env v rt p a q \<Longrightarrow> sidecar_runs env v rt q as r \<Longrightarrow> sidecar_runs env v rt p (a # as) r"
proof (rotate_tac, induction rule: sidecar_runs.induct)
  case runs_start
  from sidecar_runs.runs_step [OF sidecar_runs.runs_start this] show ?case by simp
next
  case (runs_step as r b u)
  then show ?case using sidecar_runs.runs_step [of env v rt p "a # as" r b u] by simp
qed

lemmas example_step = runs_cons [OF validated [OF _ example_wait]] runs_cons [OF http_started]
  runs_cons [OF signals_asked_for] runs_cons [OF rpc_begin] runs_cons [OF rpc_check]
  runs_cons [OF signal] runs_cons [OF stop_complete]

lemma validated_example:
  assumes "sidecar_initial sidecar_env_example cfg kv p0"
  shows "\<exists>p. example_runs p0 [DriverValidated, HttpStarted] p \<and> sp_phase p = Serving \<and> sp_http p \<and>
    sp_server p = CSIDriverIsReady (sp_server p0)"
  by (intro exI conjI) (rule example_step runs_start | simp add: initial_server [OF assms])+

lemma late_run_example:
  assumes "sidecar_initial sidecar_env_example server_config_example 0 p0"
  shows "\<exists>p. example_runs p0 late_run p \<and> sp_phase p = Stopping \<and> sp_calls p = Map.empty"
proof -
  let ?s = "CSIDriverIsReady (sp_server p0)"
  have cfg: "sc_args (config (sp_server p0)) = runtime_args_example"
      "sc_driver_name (config (sp_server p0)) = ''driver''"
    using assms by (auto simp: sidecar_initial_def server_Start_def server_config_example_def
        dest!: server_NewServer_Inr(1) split: option.splits)
  have ready: "IsReady ?s"
    by (rule CSIDriverIsReady_ready) (simp add: initial_server(2) [OF assms] newHealthServer_def
        health_NewServer_def health_SetServingStatus_def)
  let ?stopped = "server_Stop (?s\<lparr>opNumber := opNumber ?s + 1\<rparr>)"
  let ?seen = "?stopped\<lparr>opNumber := opNumber ?s, healthServer := healthServer ?s\<rparr>"
  have "IsReady ?seen" using ready by (simp add: IsReady_iff)
  then obtain t where t: "GetMetadataAllocated cluster_example accepts_all allocated_request_example ?seen =
      Some (Inr (), t)"
    using allocated_late_example [of ?seen] cfg
    by (auto simp: CSIDriverIsReady_def setReady_def server_Stop_def shuttingDown_def klog_info_def)
  show ?thesis
    unfolding late_run_def append_Cons append_Nil
    by (intro exI conjI)
      (rule example_step runs_start runs_cons [OF rpc_finish [where cl = cluster_example
            and send = accepts_all]] | simp add: initial_server [OF assms] t after_rpc_def)+
qed

theorem readiness_invariant_witness:
  "\<exists>p0 p. sidecar_initial sidecar_env_example server_config_example 0 p0 \<and>
     example_runs p0 [DriverValidated, HttpStarted] p \<and> IsReady (sp_server p) \<and> sp_phase p = Serving"
proof -
  obtain p0 where p0: "sidecar_initial sidecar_env_example server_config_example 0 p0"
    using initial_example by blast
  obtain p where p: "example_runs p0 [DriverValidated, HttpStarted] p" "sp_phase p = Serving"
    using validated_example [OF p0] by blast
  from readiness_invariant [OF p0 p(1)] p p0 show ?thesis by auto
qed

theorem served_only_while_ready_witness:
  "(\<exists>p0 p pre post. example_runs p0 late_run p \<and> butlast late_run = pre @ [RpcCheck 7] @ post \<and>
     DriverValidated \<in> set pre \<and> SignalReceived \<notin> set pre) \<and>
   WaitTillCSIDriverIsValidated (se_runtime sidecar_env_example) runtime_example = Some (Inr ())"
proof -
  obtain p0 where p0: "sidecar_initial sidecar_env_example server_config_example 0 p0"
    using initial_example by blast
  obtain p where p: "example_runs p0 late_run p"
    using late_run_example [OF p0] by blast
  from p have "example_runs p0 (butlast late_run @ [RpcFinish 7 (Inr ())]) p"
    by (simp add: late_run_def)
  from served_only_while_ready [OF p0 this, of 7] p show ?thesis by blast
qed


theorem operation_ids_distinct_witness:
  "\<exists>p q. example_runs p late_run q \<and>
     fst (OperationID ''op'' (sp_server p)) \<noteq> fst (OperationID ''op'' (sp_server q))"
proof -
  obtain p0 where p0: "sidecar_initial sidecar_env_example server_config_example 0 p0"
    using initial_example by blast
  obtain p where p: "example_runs p0 late_run p" using late_run_example [OF p0] by blast
  have "rpc_count late_run = 1" by (simp add: late_run_def)
  with operation_ids_distinct [OF p, of "''op''"] p show ?thesis by auto
qed

end
