(* ===== verification/Clients.thy ===== *)
theory Clients
  imports Api
begin

text \<open>
  \<open>clients.go\<close> of \<open>pkg/iterator\<close>: the three API clients of the iterator. An interface value is an
  \<open>option\<close>, nil being \<open>None\<close>; the constructors of the client packages are an argument.
\<close>

record 'h clients =
  KubeClient :: "'h option"
  SnapshotClient :: "'h option"
  SmsCRClient :: "'h option"

definition no_clients :: "'h clients" where
  "no_clients = \<lparr>KubeClient = None, SnapshotClient = None, SmsCRClient = None\<rparr>"

definition invalid_args :: "string \<Rightarrow> gerr" where
  "invalid_args post = errorf_w [] (Sentinel ErrInvalidArgs) post"

definition Clients_Validate :: "'h clients \<Rightarrow> gerr option" where
  "Clients_Validate c =
     (if KubeClient c = None then Some (invalid_args '': missing KubeClient'')
      else if SnapshotClient c = None then Some (invalid_args '': missing SnapshotClient'')
      else if SmsCRClient c = None then Some (invalid_args '': missing SmsCRClient'')
      else None)"

record ('cfg, 'h) client_packages =
  kubernetes_NewForConfig :: "'cfg \<Rightarrow> gerr + 'h"
  snapshot_NewForConfig :: "'cfg \<Rightarrow> gerr + 'h"
  smsCR_NewForConfig :: "'cfg \<Rightarrow> gerr + 'h"

definition clients_kubeClient :: "('cfg, 'h) client_packages \<Rightarrow> 'cfg \<Rightarrow> gerr + 'h" where
  "clients_kubeClient pk config = (case kubernetes_NewForConfig pk config of
     Inl err \<Rightarrow> Inl (errorf_w ''kubernetes.NewForConfig: '' err []) | Inr c \<Rightarrow> Inr c)"

definition clients_snapshotClient :: "('cfg, 'h) client_packages \<Rightarrow> 'cfg \<Rightarrow> gerr + 'h" where
  "clients_snapshotClient pk config = (case snapshot_NewForConfig pk config of
     Inl err \<Rightarrow> Inl (errorf_w ''snapshot.NewForConfig: '' err []) | Inr c \<Rightarrow> Inr c)"

definition clients_smsCRClient :: "('cfg, 'h) client_packages \<Rightarrow> 'cfg \<Rightarrow> gerr + 'h" where
  "clients_smsCRClient pk config = (case smsCR_NewForConfig pk config of
     Inl err \<Rightarrow> Inl (errorf_w ''SnapshotMetadataServiceCR.NewForConfig: '' err []) | Inr c \<Rightarrow> Inr c)"

text \<open>The receiver is a pointer: on an error the clients made before it stay set.\<close>

definition makeAllClients ::
  "('cfg, 'h) client_packages \<Rightarrow> 'cfg \<Rightarrow> ('h clients, unit) io" where
  "makeAllClients pk config =
     io_then (\<lambda>c. if KubeClient c = None
         then (case clients_kubeClient pk config of
                 Inl err \<Rightarrow> (Inl (Failed err), c)
               | Inr k \<Rightarrow> (Inr (), c\<lparr>KubeClient := Some k\<rparr>))
         else (Inr (), c))
    (io_then (\<lambda>c. if SnapshotClient c = None
         then (case clients_snapshotClient pk config of
                 Inl err \<Rightarrow> (Inl (Failed err), c)
               | Inr k \<Rightarrow> (Inr (), c\<lparr>SnapshotClient := Some k\<rparr>))
         else (Inr (), c))
      (\<lambda>c. if SmsCRClient c = None
         then (case clients_smsCRClient pk config of
                 Inl err \<Rightarrow> (Inl (Failed err), c)
               | Inr k \<Rightarrow> (Inr (), c\<lparr>SmsCRClient := Some k\<rparr>))
         else (Inr (), c)))"

definition BuildClients :: "('cfg, 'h) client_packages \<Rightarrow> 'cfg \<Rightarrow> exn + 'h clients" where
  "BuildClients pk config =
     (case makeAllClients pk config no_clients of
        (Inl err, c) \<Rightarrow> Inl err
      | (Inr _, c) \<Rightarrow> Inr c)"

text \<open>
  \<open>BuildClients\<close> returns either the first failure of the three constructors, in the order
  Kubernetes, snapshot, custom resource and wrapped so that \<open>errors.Is\<close> still finds it, or three
  clients that pass \<open>Validate\<close>; \<open>makeAllClients\<close> replaces no client that is already set.
\<close>
theorem BuildClients_spec:
  "(case BuildClients pk config of
      Inr c \<Rightarrow> Clients_Validate c = None
    | Inl x \<Rightarrow> \<exists>err cause. x = Failed err \<and> errors_is err cause \<and>
        (kubernetes_NewForConfig pk config = Inl cause \<or>
         \<not> isl (kubernetes_NewForConfig pk config) \<and>
           (snapshot_NewForConfig pk config = Inl cause \<or>
            \<not> isl (snapshot_NewForConfig pk config) \<and> smsCR_NewForConfig pk config = Inl cause))) \<and>
   (\<forall>k. KubeClient c = Some k \<longrightarrow> KubeClient (snd (makeAllClients pk config c)) = Some k)"
proof (intro conjI allI impI)
  note defs = BuildClients_def makeAllClients_def no_clients_def io_run clients_kubeClient_def
        clients_snapshotClient_def clients_smsCRClient_def Clients_Validate_def
  show "case BuildClients pk config of
      Inr c \<Rightarrow> Clients_Validate c = None
    | Inl x \<Rightarrow> \<exists>err cause. x = Failed err \<and> errors_is err cause \<and>
        (kubernetes_NewForConfig pk config = Inl cause \<or>
         \<not> isl (kubernetes_NewForConfig pk config) \<and>
           (snapshot_NewForConfig pk config = Inl cause \<or>
            \<not> isl (snapshot_NewForConfig pk config) \<and> smsCR_NewForConfig pk config = Inl cause))"
  proof (cases "kubernetes_NewForConfig pk config")
    case (Inl e)
    then show ?thesis by (auto simp: defs)
  next
    case k: (Inr k)
    show ?thesis
    proof (cases "snapshot_NewForConfig pk config")
      case (Inl e)
      with k show ?thesis by (auto simp: defs)
    next
      case s: (Inr s)
      show ?thesis
      proof (cases "smsCR_NewForConfig pk config")
        case (Inl e)
        with k s show ?thesis by (auto simp: defs)
      qed (use k s in \<open>simp add: defs\<close>)
    qed
  qed
  fix k assume "KubeClient c = Some k"
  then show "KubeClient (snd (makeAllClients pk config c)) = Some k"
    by (simp add: makeAllClients_def io_run split: sum.split)
qed

definition client_packages_example :: "(unit, nat) client_packages" where
  "client_packages_example =
     \<lparr>kubernetes_NewForConfig = \<lambda>_. Inr 1, snapshot_NewForConfig = \<lambda>_. Inr 2,
      smsCR_NewForConfig = \<lambda>_. Inr 3\<rparr>"

theorem BuildClients_spec_witness:
  "(\<exists>c. BuildClients client_packages_example () = Inr c \<and> Clients_Validate c = None) \<and>
   KubeClient (snd (makeAllClients client_packages_example ()
     (no_clients\<lparr>KubeClient := Some 7\<rparr>))) = Some 7"
proof
  have ok: "BuildClients client_packages_example () =
      Inr \<lparr>KubeClient = Some 1, SnapshotClient = Some 2, SmsCRClient = Some 3\<rparr>"
    by (simp add: BuildClients_def makeAllClients_def no_clients_def io_run clients_kubeClient_def
        clients_snapshotClient_def clients_smsCRClient_def client_packages_example_def)
  from BuildClients_spec [of client_packages_example "()" no_clients] ok
  show "\<exists>c. BuildClients client_packages_example () = Inr c \<and> Clients_Validate c = None" by simp
  show "KubeClient (snd (makeAllClients client_packages_example ()
     (no_clients\<lparr>KubeClient := Some 7\<rparr>))) = Some 7"
    using BuildClients_spec [of client_packages_example "()" "no_clients\<lparr>KubeClient := Some 7\<rparr>"]
    by simp
qed

end
