(* ===== verification/Iterator.thy ===== *)
theory Iterator
  imports Clients
begin

text \<open>
  \<open>iter.go\<close> of \<open>pkg/iterator\<close>: the client side enumeration of the metadata of a snapshot. The API
  server, the certificate pool, the gRPC connection and the snapshot metadata service are an
  argument (\<open>iter_env\<close>), whose answers depend on everything that happened before; the emitter is
  the other argument, a state with the two operations of the interface.
\<close>

subsection \<open>Arguments\<close>

definition DefaultTokenExpirySeconds :: int64 where "DefaultTokenExpirySeconds = 600"

definition K8sServiceAccountUserNamePrefix :: string where
  "K8sServiceAccountUserNamePrefix = ''system:serviceaccount:''"

record iterator_metadata =
  im_BlockMetadataType :: block_metadata_type
  im_VolumeCapacityBytes :: int64
  im_BlockMetadata :: "block_metadata list"

record 'e emitter_ops =
  SnapshotMetadataIteratorRecord :: "int64 \<Rightarrow> iterator_metadata \<Rightarrow> 'e \<Rightarrow> gerr option \<times> 'e"
  SnapshotMetadataIteratorDone :: "int64 \<Rightarrow> 'e \<Rightarrow> gerr option \<times> 'e"

record ('e, 'h) iter_args =
  ia_Clients :: "'h clients"
  Emitter :: "'e emitter_ops option"
  Namespace :: string
  SnapshotName :: string
  PrevSnapshotID :: string
  PrevSnapshotName :: string
  StartingOffset :: int64
  MaxResults :: int32
  CSIDriver :: string
  SANamespace :: string
  SAName :: string
  TokenExpirySecs :: int64

definition Args_Validate :: "('e, 'h) iter_args \<Rightarrow> gerr option" where
  "Args_Validate a =
     (if Emitter a = None then Some (invalid_args '': missing Emitter'')
      else if Namespace a = [] then Some (invalid_args '': missing Namespace'')
      else if SnapshotName a = [] then Some (invalid_args '': missing SnapshotName'')
      else if sint (TokenExpirySecs a) < 0 then Some (invalid_args '': invalid TokenExpirySecs'')
      else if sint (MaxResults a) < 0 then Some (invalid_args '': invalid MaxResults'')
      else if SANamespace a = [] \<and> SAName a \<noteq> []
      then Some (invalid_args '': SAName provided but SANamespace missing'')
      else if SANamespace a \<noteq> [] \<and> SAName a = []
      then Some (invalid_args '': SANamespace provided but SAName missing'')
      else (case Clients_Validate (ia_Clients a) of Some err \<Rightarrow> Some err | None \<Rightarrow> None))"

subsection \<open>Environment and state\<close>

datatype iter_event =
  SelfSubjectReview "gerr + string"
| GetSnapshot string string "gerr + volume_snapshot"
| GetContent string "gerr + volume_snapshot_content"
| GetService string "gerr + sms_cr"
| CreateToken string string string int64 "gerr + string"
| NewGRPCClient "8 word list" string "gerr + unit"
| CallAllocated get_metadata_allocated_request "gerr option"
| CallDelta get_metadata_delta_request "gerr option"
| Receive "metadata_response recv"
| EmitRecord int64 iterator_metadata "gerr option"
| EmitDone int64 "gerr option"

type_synonym response_stream = "nat \<Rightarrow> metadata_response recv"

record iter_env =
  ie_self_subject_review :: "iter_event list \<Rightarrow> gerr + string"
  ie_snapshot_get :: "iter_event list \<Rightarrow> string \<Rightarrow> string \<Rightarrow> gerr + volume_snapshot"
  ie_content_get :: "iter_event list \<Rightarrow> string \<Rightarrow> gerr + volume_snapshot_content"
  ie_service_get :: "iter_event list \<Rightarrow> string \<Rightarrow> gerr + sms_cr"
  ie_create_token :: "iter_event list \<Rightarrow> string \<Rightarrow> string \<Rightarrow> string \<Rightarrow> int64 \<Rightarrow> gerr + string"
  ie_append_certs :: "8 word list \<Rightarrow> bool"
  ie_grpc_new_client :: "8 word list \<Rightarrow> string \<Rightarrow> gerr option"
  ie_allocated :: "iter_event list \<Rightarrow> get_metadata_allocated_request \<Rightarrow> gerr + response_stream"
  ie_delta :: "iter_event list \<Rightarrow> get_metadata_delta_request \<Rightarrow> gerr + response_stream"

record ('e, 'h) iter_state =
  it_args :: "('e, 'h) iter_args"
  recordNum :: int64
  it_emitter :: 'e
  it_events :: "iter_event list"

definition newIterator :: "('e, 'h) iter_args \<Rightarrow> 'e \<Rightarrow> ('e, 'h) iter_state" where
  "newIterator args e =
     \<lparr>it_args = (if TokenExpirySecs args = 0
                 then args\<lparr>TokenExpirySecs := DefaultTokenExpirySeconds\<rparr> else args),
      recordNum = 0, it_emitter = e, it_events = []\<rparr>"

definition it_emit :: "iter_event \<Rightarrow> (('e, 'h) iter_state, unit) io" where
  "it_emit ev = (\<lambda>s. (Inr (), s\<lparr>it_events := it_events s @ [ev]\<rparr>))"

text \<open>A request, whose error goes through \<open>wrap\<close>.\<close>

definition it_call ::
  "(gerr + 'a \<Rightarrow> iter_event) \<Rightarrow> (iter_event list \<Rightarrow> gerr + 'a) \<Rightarrow> (gerr \<Rightarrow> gerr) \<Rightarrow>
     (('e, 'h) iter_state, 'a) io" where
  "it_call ev f wrap = (\<lambda>s. let r = f (it_events s) in
     (case r of Inl e \<Rightarrow> Inl (Failed (wrap e)) | Inr x \<Rightarrow> Inr x,
      s\<lparr>it_events := it_events s @ [ev r]\<rparr>))"

definition it_get :: "(('e, 'h) iter_args \<Rightarrow> 'a) \<Rightarrow> (('e, 'h) iter_state, 'a) io" where
  "it_get f = (\<lambda>s. (Inr (f (it_args s)), s))"

lemma it_runs [io_run]:
  "it_emit ev s = (Inr (), s\<lparr>it_events := it_events s @ [ev]\<rparr>)"
  "it_get f s = (Inr (f (it_args s)), s)"
  "it_call c g wrap s = (case g (it_events s) of
      Inl e \<Rightarrow> (Inl (Failed (wrap e)), s\<lparr>it_events := it_events s @ [c (Inl e)]\<rparr>)
    | Inr x \<Rightarrow> (Inr x, s\<lparr>it_events := it_events s @ [c (Inr x)]\<rparr>))"
  by (simp_all add: it_emit_def it_get_def it_call_def Let_def split: sum.split)

subsection \<open>Requests\<close>

definition slash :: "string \<Rightarrow> string \<Rightarrow> string" where
  "slash a b = a @ ''/'' @ b"

definition getDefaultServiceAccount :: "iter_env \<Rightarrow> (('e, 'h) iter_state, string \<times> string) io" where
  "getDefaultServiceAccount env =
     io_bind (it_call SelfSubjectReview (ie_self_subject_review env)
                (\<lambda>err. errorf_w ''SelfSubjectReviews.Create(): '' err []))
       (\<lambda>username.
        let fields = split_on (CHR '':'') username in
        if has_prefix username K8sServiceAccountUserNamePrefix \<and> length fields = 4
        then io_ret (fields ! 2, fields ! 3)
        else io_fail (invalid_args '': ServiceAccount unspecified and default cannot be determined''))"

definition getCSIDriverFromPrimarySnapshot :: "iter_env \<Rightarrow> (('e, 'h) iter_state, string) io" where
  "getCSIDriverFromPrimarySnapshot env =
     io_bind (it_get Namespace) (\<lambda>ns.
     io_bind (it_get SnapshotName) (\<lambda>name.
     io_bind (it_call (GetSnapshot ns name) (\<lambda>h. ie_snapshot_get env h ns name)
                (\<lambda>err. errorf_w (''VolumeSnapshots.Get('' @ slash ns name @ ''): '') err []))
       (\<lambda>vs.
        case vs_status vs of
          None \<Rightarrow> io_fail (Plain (''VolumeSnapshot('' @ slash (vs_namespace vs) (vs_name vs) @
                    '') has no bound VolumeSnapshotContent''))
        | Some st \<Rightarrow>
       (case vss_bound_content_name st of
          None \<Rightarrow> io_fail (Plain (''VolumeSnapshot('' @ slash (vs_namespace vs) (vs_name vs) @
                    '') has no bound VolumeSnapshotContent''))
        | Some content \<Rightarrow>
            io_bind (it_call (GetContent content) (\<lambda>h. ie_content_get env h content)
                (\<lambda>err. errorf_w (''VolumeSnapshotContents.Get('' @ content @ '') for VolumeSnapshot('' @
                   slash (vs_namespace vs) (vs_name vs) @ ''): '') err []))
              (\<lambda>vsc. io_ret (vsc_driver vsc))))))"

definition getSnapshotMetadataServiceCR :: "iter_env \<Rightarrow> string \<Rightarrow> (('e, 'h) iter_state, sms_cr) io" where
  "getSnapshotMetadataServiceCR env csiDriver =
     it_call (GetService csiDriver) (\<lambda>h. ie_service_get env h csiDriver)
       (\<lambda>err. errorf_w (''SnapshotMetadataServices.Get('' @ csiDriver @ ''): '') err [])"

text \<open>The error of \<open>CreateToken\<close> is formatted with \<open>%v\<close>, so it is not wrapped.\<close>

definition createSecurityToken ::
  "iter_env \<Rightarrow> string \<Rightarrow> string \<Rightarrow> string \<Rightarrow> (('e, 'h) iter_state, string) io" where
  "createSecurityToken env saNamespace sa audience =
     io_bind (it_get TokenExpirySecs) (\<lambda>expiry.
       it_call (CreateToken saNamespace sa audience expiry)
         (\<lambda>h. ie_create_token env h saNamespace sa audience expiry)
         (\<lambda>err. Plain (''ServiceAccounts.CreateToken('' @ slash saNamespace sa @ ''): '' @ error_text err)))"

definition getGRPCClient :: "iter_env \<Rightarrow> 8 word list \<Rightarrow> string \<Rightarrow> (('e, 'h) iter_state, unit) io" where
  "getGRPCClient env caCert url =
     (if \<not> ie_append_certs env caCert then io_fail (Sentinel ErrCACert)
      else it_call (NewGRPCClient caCert url)
        (\<lambda>h. case ie_grpc_new_client env caCert url of Some err \<Rightarrow> Inl err | None \<Rightarrow> Inr ())
        (\<lambda>err. errorf_w (''grpc.NewClient('' @ url @ ''): '') err []))"

definition iter_getVolumeSnapshot ::
  "iter_env \<Rightarrow> string \<Rightarrow> string \<Rightarrow> (('e, 'h) iter_state, volume_snapshot) io" where
  "iter_getVolumeSnapshot env namespace vsName =
     io_bind (it_call (GetSnapshot namespace vsName) (\<lambda>h. ie_snapshot_get env h namespace vsName)
                (\<lambda>err. errorf_w (''VolumeSnapshots.Get('' @ slash namespace vsName @ ''): '') err []))
       (\<lambda>vs.
        if (\<exists>st \<in> set_option (vs_status vs). vss_ready_to_use st = Some False)
        then io_fail (Plain (''VolumeSnapshot '' @ slash namespace vsName @ '' is not yet ready''))
        else if \<not> (\<exists>st \<in> set_option (vs_status vs). vss_bound_content_name st \<noteq> None)
        then io_fail (Plain (''VolumeSnapshot '' @ slash namespace vsName @
               '' boundVolumeSnapshotContentName not set''))
        else io_ret vs)"

definition iter_getVolumeSnapshotContent ::
  "iter_env \<Rightarrow> volume_snapshot \<Rightarrow> (('e, 'h) iter_state, volume_snapshot_content) io" where
  "iter_getVolumeSnapshotContent env vs =
     io_bind (deref (vs_status vs)) (\<lambda>st.
     io_bind (deref (vss_bound_content_name st)) (\<lambda>vscName.
     io_bind (it_call (GetContent vscName) (\<lambda>h. ie_content_get env h vscName)
                (\<lambda>err. errorf_w (''VolumeSnapshotContent.Get('' @ vscName @ ''): '') err []))
       (\<lambda>vsc.
        let ref = vsc_ref vsc;
            ident = ''VolumeSnapshot('' @ slash (vs_namespace vs) (vs_name vs) @ '')'' in
        if or_uid ref \<noteq> [] \<and> or_uid ref \<noteq> vs_uid vs
        then io_fail (Plain (''VolumeSnapshotContent('' @ vscName @
               '') volumeSnapshotRef.UID does not identify '' @ ident))
        else if or_namespace ref \<noteq> vs_namespace vs \<or> or_name ref \<noteq> vs_name vs
        then io_fail (Plain (''VolumeSnapshotContent('' @ vscName @
               '') volumeSnapshotRef does not identify '' @ ident))
        else if (\<exists>cst \<in> set_option (vsc_status vsc). vscs_ready_to_use cst = Some False)
        then io_fail (Plain (''VolumeSnapshotContent('' @ vscName @ '') is not yet ready''))
        else if \<not> (\<exists>cst \<in> set_option (vsc_status vsc). vscs_snapshot_handle cst \<noteq> None)
        then io_fail (Plain (''VolumeSnapshotContent('' @ vscName @ '') snapshot handle not set''))
        else io_ret vsc)))"

definition getPrevSnapshotID :: "iter_env \<Rightarrow> (('e, 'h) iter_state, string) io" where
  "getPrevSnapshotID env =
     io_bind (it_get Namespace) (\<lambda>ns.
     io_bind (it_get PrevSnapshotName) (\<lambda>prev.
     io_bind (iter_getVolumeSnapshot env ns prev) (\<lambda>vs.
     io_bind (iter_getVolumeSnapshotContent env vs) (\<lambda>vsc.
     io_bind (deref (vsc_status vsc)) (\<lambda>cst. deref (vscs_snapshot_handle cst))))))"

subsection \<open>Enumeration\<close>

definition metadata_of :: "metadata_response \<Rightarrow> iterator_metadata" where
  "metadata_of resp =
     \<lparr>im_BlockMetadataType = block_metadata_type resp,
      im_VolumeCapacityBytes = volume_capacity_bytes resp,
      im_BlockMetadata = block_metadata resp\<rparr>"

text \<open>\<open>iter.recordNum++\<close> and the call of the emitter with its record.\<close>

definition emit_record :: "metadata_response \<Rightarrow> (('e, 'h) iter_state, unit) io" where
  "emit_record resp = (\<lambda>s.
     (case Emitter (it_args s) of
        None \<Rightarrow> (Inl (Panicked ''nil pointer dereference''), s)
      | Some ops \<Rightarrow>
          let num = recordNum s + 1;
              (err, e) = SnapshotMetadataIteratorRecord ops num (metadata_of resp) (it_emitter s);
              t = s\<lparr>recordNum := num, it_emitter := e,
                    it_events := it_events s @ [EmitRecord num (metadata_of resp) err]\<rparr> in
          (case err of Some x \<Rightarrow> (Inl (Failed x), t) | None \<Rightarrow> (Inr (), t))))"

text \<open>The receive loop of \<open>getAllocatedBlocks\<close> and \<open>getChangedBlocks\<close>, which differ in the text of
  the error only.\<close>

partial_function (option) recv_loop ::
  "string \<Rightarrow> response_stream \<Rightarrow> nat \<Rightarrow> ('e, 'h) iter_state \<Rightarrow>
     ((exn + unit) \<times> ('e, 'h) iter_state) option" where
  [code]: "recv_loop text stream n s =
     (let s1 = s\<lparr>it_events := it_events s @ [Receive (stream n)]\<rparr> in
      case stream n of
        RecvEOF \<Rightarrow> Some (Inr (), s1)
      | RecvErr err \<Rightarrow> Some (Inl (Failed (errorf_w (text @ ''.Recv: '') err [])), s1)
      | RecvMsg resp \<Rightarrow>
          (case emit_record resp s1 of
             (Inl x, s2) \<Rightarrow> Some (Inl x, s2)
           | (Inr _, s2) \<Rightarrow> recv_loop text stream (Suc n) s2))"

definition getAllocatedBlocks ::
  "iter_env \<Rightarrow> string \<Rightarrow> ('e, 'h) iter_state \<Rightarrow> ((exn + unit) \<times> ('e, 'h) iter_state) option" where
  "getAllocatedBlocks env securityToken s =
     (let a = it_args s;
          text = ''GetMetadataAllocated('' @ Namespace a @ '','' @ SnapshotName a @ '')'';
          req = \<lparr>gma_security_token = securityToken, gma_namespace = Namespace a,
                 gma_snapshot_name = SnapshotName a, gma_starting_offset = StartingOffset a,
                 gma_max_results = MaxResults a\<rparr> in
      case it_call (\<lambda>r. CallAllocated req (case r of Inl err \<Rightarrow> Some err | Inr _ \<Rightarrow> None))
             (\<lambda>h. ie_allocated env h req) (\<lambda>err. errorf_w (text @ '': '') err []) s of
        (Inl x, t) \<Rightarrow> Some (Inl x, t)
      | (Inr stream, t) \<Rightarrow> recv_loop text stream 0 t)"

definition getChangedBlocks ::
  "iter_env \<Rightarrow> string \<Rightarrow> ('e, 'h) iter_state \<Rightarrow> ((exn + unit) \<times> ('e, 'h) iter_state) option" where
  "getChangedBlocks env securityToken s =
     (let a = it_args s;
          text = ''GetMetadataDelta('' @ Namespace a @ '','' @ PrevSnapshotID a @ '','' @
                   SnapshotName a @ '')'';
          req = \<lparr>gmd_security_token = securityToken, gmd_namespace = Namespace a,
                 gmd_base_snapshot_id = PrevSnapshotID a, gmd_target_snapshot_name = SnapshotName a,
                 gmd_starting_offset = StartingOffset a, gmd_max_results = MaxResults a\<rparr> in
      case it_call (\<lambda>r. CallDelta req (case r of Inl err \<Rightarrow> Some err | Inr _ \<Rightarrow> None))
             (\<lambda>h. ie_delta env h req) (\<lambda>err. errorf_w (text @ '': '') err []) s of
        (Inl x, t) \<Rightarrow> Some (Inl x, t)
      | (Inr stream, t) \<Rightarrow> recv_loop text stream 0 t)"

text \<open>\<open>run\<close> up to the gRPC client: it returns the security token.\<close>

definition iter_connect :: "iter_env \<Rightarrow> (('e, 'h) iter_state, string) io" where
  "iter_connect env =
     io_bind (it_get SAName) (\<lambda>sa.
     io_bind (it_get SANamespace) (\<lambda>sans.
     io_bind (if sa = [] then getDefaultServiceAccount env else io_ret (sans, sa)) (\<lambda>(saNamespace, saName).
     io_bind (it_get CSIDriver) (\<lambda>driver.
     io_bind (if driver = [] then getCSIDriverFromPrimarySnapshot env else io_ret driver) (\<lambda>csiDriver.
     io_bind (getSnapshotMetadataServiceCR env csiDriver) (\<lambda>smsCR.
     io_bind (createSecurityToken env saNamespace saName (sms_audience (sms_spec smsCR))) (\<lambda>securityToken.
     io_bind (getGRPCClient env (sms_caCert (sms_spec smsCR)) (sms_address (sms_spec smsCR))) (\<lambda>_.
     io_ret securityToken))))))))"

definition iter_blocks ::
  "iter_env \<Rightarrow> string \<Rightarrow> ('e, 'h) iter_state \<Rightarrow> ((exn + unit) \<times> ('e, 'h) iter_state) option" where
  "iter_blocks env securityToken s =
     (let a = it_args s in
      if PrevSnapshotID a = [] \<and> PrevSnapshotName a = [] then getAllocatedBlocks env securityToken s
      else if PrevSnapshotID a = [] \<and> PrevSnapshotName a \<noteq> []
      then (case getPrevSnapshotID env s of
              (Inl x, t) \<Rightarrow> Some (Inl x, t)
            | (Inr prevID, t) \<Rightarrow>
                getChangedBlocks env securityToken (t\<lparr>it_args := (it_args t)\<lparr>PrevSnapshotID := prevID\<rparr>\<rparr>))
      else getChangedBlocks env securityToken s)"

definition emit_done :: "(('e, 'h) iter_state, unit) io" where
  "emit_done = (\<lambda>s.
     (case Emitter (it_args s) of
        None \<Rightarrow> (Inl (Panicked ''nil pointer dereference''), s)
      | Some ops \<Rightarrow>
          let (err, e) = SnapshotMetadataIteratorDone ops (recordNum s) (it_emitter s);
              t = s\<lparr>it_emitter := e, it_events := it_events s @ [EmitDone (recordNum s) err]\<rparr> in
          (case err of Some x \<Rightarrow> (Inl (Failed x), t) | None \<Rightarrow> (Inr (), t))))"

definition iter_run ::
  "iter_env \<Rightarrow> ('e, 'h) iter_state \<Rightarrow> ((exn + unit) \<times> ('e, 'h) iter_state) option" where
  "iter_run env s =
     (case iter_connect env s of
        (Inl x, t) \<Rightarrow> Some (Inl x, t)
      | (Inr securityToken, t) \<Rightarrow>
          (case iter_blocks env securityToken t of
             None \<Rightarrow> None
           | Some (Inl x, u) \<Rightarrow> Some (Inl x, u)
           | Some (Inr _, u) \<Rightarrow> Some (emit_done u)))"

definition GetSnapshotMetadata ::
  "iter_env \<Rightarrow> ('e, 'h) iter_args \<Rightarrow> 'e \<Rightarrow> ((exn + unit) \<times> ('e, 'h) iter_state) option" where
  "GetSnapshotMetadata env args e =
     (case Args_Validate args of
        Some err \<Rightarrow> Some (Inl (Failed err), newIterator args e)
      | None \<Rightarrow> iter_run env (newIterator args e))"

subsection \<open>What the receive loop does\<close>

text \<open>The emitter accepts records, numbered from \<open>k + 1\<close>, one after the other.\<close>

fun feeds :: "'e emitter_ops \<Rightarrow> int64 \<Rightarrow> iterator_metadata list \<Rightarrow> 'e \<Rightarrow> 'e option" where
  "feeds ops k [] e = Some e"
| "feeds ops k (m # ms) e =
     (case SnapshotMetadataIteratorRecord ops (k + 1) m e of
        (None, e') \<Rightarrow> feeds ops (k + 1) ms e'
      | (Some err, e') \<Rightarrow> None)"

text \<open>How an enumeration from the \<open>n\<close>-th message ends: with the stream, with its error, or with the
  error of the emitter.\<close>

inductive enumerates ::
  "'e emitter_ops \<Rightarrow> string \<Rightarrow> response_stream \<Rightarrow> nat \<Rightarrow> int64 \<Rightarrow> 'e \<Rightarrow> exn + unit \<Rightarrow> int64 \<Rightarrow> 'e \<Rightarrow> bool"
  for ops lbl stream where
  eof: "stream n = RecvEOF \<Longrightarrow> enumerates ops lbl stream n k e (Inr ()) k e"
| failure: "stream n = RecvErr err \<Longrightarrow>
    enumerates ops lbl stream n k e (Inl (Failed (errorf_w (lbl @ ''.Recv: '') err []))) k e"
| abort: "stream n = RecvMsg m \<Longrightarrow>
    SnapshotMetadataIteratorRecord ops (k + 1) (metadata_of m) e = (Some err, e') \<Longrightarrow>
    enumerates ops lbl stream n k e (Inl (Failed err)) (k + 1) e'"
| next_record: "stream n = RecvMsg m \<Longrightarrow>
    SnapshotMetadataIteratorRecord ops (k + 1) (metadata_of m) e = (None, e1) \<Longrightarrow>
    enumerates ops lbl stream (Suc n) (k + 1) e1 r k' e' \<Longrightarrow>
    enumerates ops lbl stream n k e r k' e'"

fun loop_event :: "iter_event \<Rightarrow> bool" where
  "loop_event (Receive r) \<longleftrightarrow> True"
| "loop_event (EmitRecord n m r) \<longleftrightarrow> True"
| "loop_event ev \<longleftrightarrow> False"

text \<open>The records that the emitter was called with.\<close>

fun fed :: "iter_event list \<Rightarrow> iterator_metadata list" where
  "fed [] = []"
| "fed (EmitRecord n m r # es) = m # fed es"
| "fed (e # es) = fed es"

lemma fed_append [simp]: "fed (es @ fs) = fed es @ fed fs"
  by (induction es rule: fed.induct) simp_all

text \<open>The events of a loop over a stream from its \<open>n\<close>-th message.\<close>

definition loop_trace :: "response_stream \<Rightarrow> nat \<Rightarrow> iter_event list \<Rightarrow> bool" where
  "loop_trace stream n es \<longleftrightarrow> list_all loop_event es \<and>
     (\<exists>resps. fed es = map metadata_of resps \<and>
        (\<forall>i < length resps. stream (n + i) = RecvMsg (resps ! i)))"

lemma loop_trace_stop: "loop_trace stream n [Receive x]"
  by (auto simp: loop_trace_def intro!: exI [of _ "[]"])

lemma loop_trace_abort:
  "stream n = RecvMsg m \<Longrightarrow> loop_trace stream n [Receive x, EmitRecord k (metadata_of m) err]"
  by (auto simp: loop_trace_def intro!: exI [of _ "[m]"])

lemma loop_trace_next:
  assumes "stream n = RecvMsg m" "loop_trace stream (Suc n) es"
  shows "loop_trace stream n (Receive x # EmitRecord k (metadata_of m) err # es)"
proof -
  from assms(2) obtain resps where "list_all loop_event es" "fed es = map metadata_of resps"
      "\<forall>i < length resps. stream (Suc n + i) = RecvMsg (resps ! i)"
    unfolding loop_trace_def by blast
  with assms(1) show ?thesis unfolding loop_trace_def
    by (intro conjI exI [of _ "m # resps"]) (auto simp: less_Suc_eq_0_disj)
qed

definition loop_result ::
  "'e emitter_ops \<Rightarrow> string \<Rightarrow> response_stream \<Rightarrow> nat \<Rightarrow> ('e, 'h) iter_state \<Rightarrow>
     (exn + unit) \<times> ('e, 'h) iter_state \<Rightarrow> bool" where
  "loop_result ops lbl stream n s ret \<longleftrightarrow>
     (\<exists>es. it_events (snd ret) = it_events s @ es \<and> loop_trace stream n es) \<and>
     it_args (snd ret) = it_args s \<and>
     enumerates ops lbl stream n (recordNum s) (it_emitter s) (fst ret)
       (recordNum (snd ret)) (it_emitter (snd ret))"

lemma loop_result_next:
  assumes msg: "stream n = RecvMsg m" and ops: "Emitter (it_args s) = Some ops"
    and emit: "emit_record m (s\<lparr>it_events := it_events s @ [Receive (stream n)]\<rparr>) = (Inr u, s2)"
    and rest: "loop_result ops lbl stream (Suc n) s2 ret"
  shows "loop_result ops lbl stream n s ret \<and> Emitter (it_args s2) = Some ops"
proof -
  obtain e1 where rec: "SnapshotMetadataIteratorRecord ops (recordNum s + 1) (metadata_of m) (it_emitter s) = (None, e1)"
      and s2: "s2 = s\<lparr>recordNum := recordNum s + 1, it_emitter := e1,
        it_events := it_events s @ [Receive (stream n), EmitRecord (recordNum s + 1) (metadata_of m) None]\<rparr>"
    using emit ops by (auto simp: emit_record_def Let_def split: prod.splits option.splits)
  obtain es where "it_events (snd ret) = it_events s2 @ es" "loop_trace stream (Suc n) es"
      "it_args (snd ret) = it_args s2"
      "enumerates ops lbl stream (Suc n) (recordNum s2) (it_emitter s2) (fst ret)
         (recordNum (snd ret)) (it_emitter (snd ret))"
    using rest unfolding loop_result_def by blast
  with rec s2 msg ops show ?thesis
    by (auto simp: loop_result_def intro: enumerates.next_record loop_trace_next
        intro!: exI [of _ "Receive _ # EmitRecord _ _ _ # es"])
qed

lemma loop_result_abort:
  assumes msg: "stream n = RecvMsg m" and ops: "Emitter (it_args s) = Some ops"
    and emit: "emit_record m (s\<lparr>it_events := it_events s @ [Receive (stream n)]\<rparr>) = (Inl x, s2)"
  shows "loop_result ops lbl stream n s (Inl x, s2)"
proof -
  obtain e1 err where rec: "SnapshotMetadataIteratorRecord ops (recordNum s + 1) (metadata_of m) (it_emitter s) = (Some err, e1)"
      and s2: "x = Failed err" "s2 = s\<lparr>recordNum := recordNum s + 1, it_emitter := e1,
        it_events := it_events s @ [Receive (stream n), EmitRecord (recordNum s + 1) (metadata_of m) (Some err)]\<rparr>"
    using emit ops by (auto simp: emit_record_def Let_def split: prod.splits option.splits)
  with msg show ?thesis
    by (auto simp: loop_result_def intro: enumerates.abort loop_trace_abort)
qed

lemma recv_loop_enumerates:
  assumes "recv_loop lbl stream n s = Some ret" "Emitter (it_args s) = Some ops"
  shows "loop_result ops lbl stream n s ret"
proof -
  have "Emitter (it_args s) = Some ops \<longrightarrow> loop_result ops lbl stream n s ret"
    if "recv_loop lbl stream n s = Some ret" for lbl stream n s ret
  proof (rule recv_loop.raw_induct
      [where P = "\<lambda>lbl stream n s ret. Emitter (it_args s) = Some ops \<longrightarrow> loop_result ops lbl stream n s ret",
       OF _ that], goal_cases)
    case (1 loop lbl stream n s ret)
    show ?case
    proof (intro impI)
      assume ops: "Emitter (it_args s) = Some ops"
      show "loop_result ops lbl stream n s ret"
      proof (cases "stream n")
        case RecvEOF
        with 1(2) show ?thesis by (auto simp: loop_result_def intro: enumerates.eof loop_trace_stop)
      next
        case (RecvErr err)
        with 1(2) show ?thesis by (auto simp: loop_result_def intro: enumerates.failure loop_trace_stop)
      next
        case (RecvMsg m)
        obtain x s2 where emit: "emit_record m (s\<lparr>it_events := it_events s @ [Receive (stream n)]\<rparr>) = (x, s2)"
          by fastforce
        show ?thesis
        proof (cases x)
          case (Inl y)
          with 1(2) emit RecvMsg have "ret = (Inl y, s2)" by simp
          with loop_result_abort [of stream n m s ops y s2 lbl] RecvMsg ops emit Inl show ?thesis by simp
        next
          case (Inr u)
          have "loop lbl stream (Suc n) s2 = Some ret" using 1(2) emit RecvMsg Inr by simp
          moreover have "Emitter (it_args s2) = Some ops"
            using emit ops Inr by (auto simp: emit_record_def Let_def split: prod.splits option.splits)
          ultimately have "loop_result ops lbl stream (Suc n) s2 ret" using 1(1) by blast
          with loop_result_next [of stream n m s ops u s2 lbl ret] RecvMsg ops emit Inr show ?thesis by simp
        qed
      qed
    qed
  qed
  with assms show ?thesis by blast
qed

lemma enumerates_ok:
  assumes "enumerates ops lbl stream n k e r k' e'" "r = Inr ()"
  shows "\<exists>msgs. (\<forall>i < length msgs. stream (n + i) = RecvMsg (msgs ! i)) \<and>
    stream (n + length msgs) = RecvEOF \<and> feeds ops k (map metadata_of msgs) e = Some e' \<and>
    k' = k + of_nat (length msgs)"
  using assms
proof (induction rule: enumerates.induct)
  case (eof n k e)
  then show ?case by (intro exI [of _ "[]"]) simp
next
  case (next_record n m k e e1 r k' e')
  then obtain msgs where "\<forall>i < length msgs. stream (Suc n + i) = RecvMsg (msgs ! i)"
      "stream (Suc n + length msgs) = RecvEOF" "feeds ops (k + 1) (map metadata_of msgs) e1 = Some e'"
      "k' = k + 1 + of_nat (length msgs)" by blast
  with next_record show ?case
    by (intro exI [of _ "m # msgs"]) (auto simp: less_Suc_eq_0_disj algebra_simps)
qed simp_all

lemma recv_loop_returns:
  assumes "\<not> (\<exists>m. stream (n + k) = RecvMsg m)"
  shows "\<exists>ret. recv_loop lbl stream n s = Some ret"
  using assms
proof (induction k arbitrary: n s)
  case 0
  then show ?case
    by (subst recv_loop.simps) (cases "stream n", auto simp: Let_def)
next
  case (Suc k)
  show ?case
  proof (cases "stream n")
    case (RecvMsg m)
    obtain x s2 where "emit_record m (s\<lparr>it_events := it_events s @ [Receive (stream n)]\<rparr>) = (x, s2)"
      by fastforce
    with RecvMsg Suc.IH [of "Suc n" s2] Suc.prems show ?thesis
      by (subst recv_loop.simps) (simp add: Let_def split: sum.split)
  qed (subst recv_loop.simps, simp add: Let_def)+
qed

subsection \<open>Computations that only add events\<close>

text \<open>They call servers; the emitter is not among them.\<close>

definition it_appends :: "(('e, 'h) iter_state, 'a) io \<Rightarrow> bool" where
  "it_appends m \<longleftrightarrow> (\<forall>s. \<exists>es. snd (m s) = s\<lparr>it_events := it_events s @ es\<rparr> \<and> fed es = [])"

named_theorems it_rules \<open>computations that only add events\<close>

lemma it_appends_same: "(\<And>s. snd (m s) = s) \<Longrightarrow> it_appends m"
  unfolding it_appends_def by (auto intro: exI [of _ "[]"])

lemma it_appends_basic [it_rules]:
  "it_appends (io_ret x)" "it_appends (io_fail err)" "it_appends (deref p)" "it_appends (it_get f)"
  by (rule it_appends_same, simp add: io_run split: option.split)+

lemma it_appends_call [it_rules]:
  assumes "\<And>x. fed [ev x] = []"
  shows "it_appends (it_call ev f wrap)"
  unfolding it_appends_def
proof
  fix s
  show "\<exists>es. snd (it_call ev f wrap s) = s\<lparr>it_events := it_events s @ es\<rparr> \<and> fed es = []"
    using assms by (cases "f (it_events s)") (auto simp: io_run)
qed

lemma it_appends_bind [it_rules]:
  assumes "it_appends m" "\<And>x. it_appends (f x)"
  shows "it_appends (io_bind m f)"
  unfolding it_appends_def
proof
  fix s
  obtain r t where m: "m s = (r, t)" by fastforce
  with assms(1) obtain es where es: "t = s\<lparr>it_events := it_events s @ es\<rparr>" "fed es = []"
    unfolding it_appends_def by (metis snd_conv)
  show "\<exists>es. snd (io_bind m f s) = s\<lparr>it_events := it_events s @ es\<rparr> \<and> fed es = []"
  proof (cases r)
    case (Inl x)
    with m es show ?thesis by (auto simp: io_run)
  next
    case (Inr x)
    obtain fs where "snd (f x t) = t\<lparr>it_events := it_events t @ fs\<rparr>" "fed fs = []"
      using assms(2) unfolding it_appends_def by blast
    with m es Inr show ?thesis by (intro exI [of _ "es @ fs"]) (simp add: io_run)
  qed
qed

lemma it_appends_cases [it_rules]:
  "it_appends m \<Longrightarrow> it_appends k \<Longrightarrow> it_appends (if b then m else k)"
  "it_appends m \<Longrightarrow> (\<And>x. it_appends (f x)) \<Longrightarrow> it_appends (case p of None \<Rightarrow> m | Some x \<Rightarrow> f x)"
  "(\<And>x y. it_appends (g x y)) \<Longrightarrow> it_appends (case q of (x, y) \<Rightarrow> g x y)"
  "(\<And>x. it_appends (f x)) \<Longrightarrow> it_appends (let x = v in f x)"
  by (simp_all split: option.split prod.split)

lemma it_appendsD:
  assumes "it_appends m" "m s = (r, t)"
  obtains es where "t = s\<lparr>it_events := it_events s @ es\<rparr>" "fed es = []"
  using assms unfolding it_appends_def by (metis snd_conv)

lemma it_appends_requests [it_rules]:
  "it_appends (getDefaultServiceAccount env)"
  "it_appends (getCSIDriverFromPrimarySnapshot env)"
  "it_appends (getSnapshotMetadataServiceCR env d)"
  "it_appends (createSecurityToken env ns sa aud)"
  "it_appends (getGRPCClient env ca url)"
  "it_appends (iter_getVolumeSnapshot env ns n)"
  "it_appends (iter_getVolumeSnapshotContent env vs)"
  unfolding getDefaultServiceAccount_def getCSIDriverFromPrimarySnapshot_def
    getSnapshotMetadataServiceCR_def createSecurityToken_def getGRPCClient_def
    iter_getVolumeSnapshot_def iter_getVolumeSnapshotContent_def Let_def
  by (intro it_rules; simp)+

lemma it_appends_connect: "it_appends (iter_connect env)"
  unfolding iter_connect_def by (intro it_rules)

lemma it_appends_prev: "it_appends (getPrevSnapshotID env)"
  unfolding getPrevSnapshotID_def by (intro it_rules)

lemma it_events_eq [simp]: "s\<lparr>it_events := a\<rparr> = s\<lparr>it_events := b\<rparr> \<longleftrightarrow> a = b"
  by (auto dest: arg_cong [where f = it_events])

text \<open>The token was made for the audience of the service the client connects to, whose
  certificate it trusts alone.\<close>

definition connected :: "iter_env \<Rightarrow> ('e, 'h) iter_args \<Rightarrow> iter_event list \<Rightarrow> string \<Rightarrow> bool" where
  "connected env a es token \<longleftrightarrow>
     (\<exists>pre driver sms saNs sa.
        es = pre @ [GetService driver (Inr sms),
          CreateToken saNs sa (sms_audience (sms_spec sms)) (TokenExpirySecs a) (Inr token),
          NewGRPCClient (sms_caCert (sms_spec sms)) (sms_address (sms_spec sms)) (Inr ())] \<and>
        ie_append_certs env (sms_caCert (sms_spec sms)) \<and>
        (SAName a \<noteq> [] \<longrightarrow> saNs = SANamespace a \<and> sa = SAName a) \<and>
        (CSIDriver a \<noteq> [] \<longrightarrow> driver = CSIDriver a))"

lemma iter_connect_ok:
  assumes run: "iter_connect env s = (Inr token, t)"
  shows "\<exists>es. t = s\<lparr>it_events := it_events s @ es\<rparr> \<and> connected env (it_args s) es token"
proof -
  let ?a = "it_args s"
  obtain saNs sa s1 where sa: "(if SAName ?a = [] then getDefaultServiceAccount env
      else io_ret (SANamespace ?a, SAName ?a)) s = (Inr (saNs, sa), s1)"
    and run1: "io_bind (it_get CSIDriver) (\<lambda>driver.
     io_bind (if driver = [] then getCSIDriverFromPrimarySnapshot env else io_ret driver) (\<lambda>csiDriver.
     io_bind (getSnapshotMetadataServiceCR env csiDriver) (\<lambda>smsCR.
     io_bind (createSecurityToken env saNs sa (sms_audience (sms_spec smsCR))) (\<lambda>securityToken.
     io_bind (getGRPCClient env (sms_caCert (sms_spec smsCR)) (sms_address (sms_spec smsCR))) (\<lambda>_.
     io_ret securityToken))))) s1 = (Inr token, t)"
    using run unfolding iter_connect_def by (auto simp: io_bind_Inr it_runs)
  have "it_appends (if SAName ?a = [] then getDefaultServiceAccount env
      else io_ret (SANamespace ?a, SAName ?a))" by (intro it_rules)
  then obtain e1 where e1: "s1 = s\<lparr>it_events := it_events s @ e1\<rparr>" using sa by (rule it_appendsD)
  have sa': "SAName ?a \<noteq> [] \<longrightarrow> saNs = SANamespace ?a \<and> sa = SAName ?a" using sa by (auto simp: io_run)
  obtain driver s2 where d: "(if CSIDriver ?a = [] then getCSIDriverFromPrimarySnapshot env
      else io_ret (CSIDriver ?a)) s1 = (Inr driver, s2)"
    and run2: "io_bind (getSnapshotMetadataServiceCR env driver) (\<lambda>smsCR.
     io_bind (createSecurityToken env saNs sa (sms_audience (sms_spec smsCR))) (\<lambda>securityToken.
     io_bind (getGRPCClient env (sms_caCert (sms_spec smsCR)) (sms_address (sms_spec smsCR))) (\<lambda>_.
     io_ret securityToken))) s2 = (Inr token, t)"
    using run1 e1 by (auto simp: io_bind_Inr it_runs)
  have "it_appends (if CSIDriver ?a = [] then getCSIDriverFromPrimarySnapshot env
      else io_ret (CSIDriver ?a))" by (intro it_rules)
  then obtain e2 where e2: "s2 = s1\<lparr>it_events := it_events s1 @ e2\<rparr>" using d by (rule it_appendsD)
  have d': "CSIDriver ?a \<noteq> [] \<longrightarrow> driver = CSIDriver ?a" using d by (auto simp: io_run)
  from run2 obtain sms where
    "t = s2\<lparr>it_events := it_events s2 @ [GetService driver (Inr sms),
        CreateToken saNs sa (sms_audience (sms_spec sms)) (TokenExpirySecs (it_args s2)) (Inr token),
        NewGRPCClient (sms_caCert (sms_spec sms)) (sms_address (sms_spec sms)) (Inr ())]\<rparr>"
    "ie_append_certs env (sms_caCert (sms_spec sms))"
    by (auto simp: io_run getSnapshotMetadataServiceCR_def createSecurityToken_def getGRPCClient_def
        split: sum.splits if_splits)
  with e1 e2 sa' d' show ?thesis
    unfolding connected_def
    by (intro exI [of _ "e1 @ e2 @ [GetService driver (Inr sms),
        CreateToken saNs sa (sms_audience (sms_spec sms)) (TokenExpirySecs (it_args s2)) (Inr token),
        NewGRPCClient (sms_caCert (sms_spec sms)) (sms_address (sms_spec sms)) (Inr ())]"]
      conjI exI [of _ "e1 @ e2"] exI [of _ driver] exI [of _ sms] exI [of _ saNs] exI [of _ sa]) simp_all
qed

lemma emit_record_args: "emit_record m s = (r, t) \<Longrightarrow> it_args t = it_args s"
  by (auto simp: emit_record_def Let_def split: option.splits prod.splits)

text \<open>A stream that ends, with the messages before its end.\<close>

definition received :: "(nat \<Rightarrow> 'm recv) \<Rightarrow> 'm list \<Rightarrow> bool" where
  "received stream msgs \<longleftrightarrow> (\<forall>i < length msgs. stream i = RecvMsg (msgs ! i)) \<and>
     stream (length msgs) = RecvEOF"

lemma received_unique:
  assumes "received stream xs" "received stream ys"
  shows "xs = ys"
proof -
  have "length xs = length ys"
  proof (rule linorder_cases [of "length xs" "length ys"])
    assume "length xs < length ys"
    with assms show ?thesis by (auto simp: received_def)
  next
    assume "length ys < length xs"
    with assms show ?thesis by (auto simp: received_def)
  qed
  with assms show ?thesis by (auto simp: received_def intro: nth_equalityI)
qed

text \<open>The call of the service for the arguments, after the trace \<open>pre\<close>, answered by a stream. With
  only a name for the base, the base is what \<open>getPrevSnapshotID\<close> found.\<close>

definition called ::
  "iter_env \<Rightarrow> ('e, 'h) iter_args \<Rightarrow> string \<Rightarrow> iter_event list \<Rightarrow> iter_event \<Rightarrow> response_stream \<Rightarrow> bool" where
  "called env a token pre call stream \<longleftrightarrow>
     (if PrevSnapshotID a = [] \<and> PrevSnapshotName a = []
      then (let req = \<lparr>gma_security_token = token, gma_namespace = Namespace a,
              gma_snapshot_name = SnapshotName a, gma_starting_offset = StartingOffset a,
              gma_max_results = MaxResults a\<rparr> in
            call = CallAllocated req None \<and> ie_allocated env pre req = Inr stream)
      else (\<exists>base. (PrevSnapshotID a \<noteq> [] \<longrightarrow> base = PrevSnapshotID a) \<and>
           (let req = \<lparr>gmd_security_token = token, gmd_namespace = Namespace a,
              gmd_base_snapshot_id = base, gmd_target_snapshot_name = SnapshotName a,
              gmd_starting_offset = StartingOffset a, gmd_max_results = MaxResults a\<rparr> in
            call = CallDelta req None \<and> ie_delta env pre req = Inr stream)))"

text \<open>The outcome of a stream that was opened from \<open>s\<close>.\<close>

definition streamed ::
  "iter_env \<Rightarrow> ('e, 'h) iter_args \<Rightarrow> 'e emitter_ops \<Rightarrow> string \<Rightarrow> ('e, 'h) iter_state \<Rightarrow>
     exn + unit \<Rightarrow> ('e, 'h) iter_state \<Rightarrow> bool" where
  "streamed env a ops token s r t \<longleftrightarrow>
     (\<exists>pre call es stream lbl.
        it_events t = it_events s @ pre @ [call] @ es \<and> fed (pre @ [call]) = [] \<and>
        loop_trace stream 0 es \<and>
        called env a token (it_events s @ pre) call stream \<and>
        Emitter (it_args t) = Emitter a \<and>
        enumerates ops lbl stream 0 (recordNum s) (it_emitter s) r (recordNum t) (it_emitter t))"

definition it_untouched :: "('e, 'h) iter_state \<Rightarrow> ('e, 'h) iter_state \<Rightarrow> bool" where
  "it_untouched s t \<longleftrightarrow> recordNum t = recordNum s \<and> it_emitter t = it_emitter s \<and>
     (\<exists>es. it_events t = it_events s @ es \<and> fed es = [])"

lemma getAllocatedBlocks_cases:
  assumes run: "getAllocatedBlocks env token s = Some (r, t)"
    and ops: "Emitter (it_args s) = Some ops"
    and mode: "PrevSnapshotID (it_args s) = [] \<and> PrevSnapshotName (it_args s) = []"
  shows "streamed env (it_args s) ops token s r t \<or> (\<exists>err. r = Inl (Failed err)) \<and> it_untouched s t"
proof -
  let ?req = "\<lparr>gma_security_token = token, gma_namespace = Namespace (it_args s),
    gma_snapshot_name = SnapshotName (it_args s), gma_starting_offset = StartingOffset (it_args s),
    gma_max_results = MaxResults (it_args s)\<rparr>"
  let ?lbl = "''GetMetadataAllocated('' @ Namespace (it_args s) @ '','' @ SnapshotName (it_args s) @ '')''"
  show ?thesis
  proof (cases "ie_allocated env (it_events s) ?req")
    case (Inl err)
    with run show ?thesis
      by (auto simp: getAllocatedBlocks_def Let_def io_run it_untouched_def)
  next
    case (Inr stream)
    let ?s1 = "s\<lparr>it_events := it_events s @ [CallAllocated ?req None]\<rparr>"
    have "recv_loop ?lbl stream 0 ?s1 = Some (r, t)"
      using run Inr by (simp add: getAllocatedBlocks_def Let_def io_run)
    then have "loop_result ops ?lbl stream 0 ?s1 (r, t)" using ops by (intro recv_loop_enumerates) simp_all
    then obtain es where "it_events t = it_events s @ [CallAllocated ?req None] @ es" "loop_trace stream 0 es"
        "it_args t = it_args s"
        "enumerates ops ?lbl stream 0 (recordNum s) (it_emitter s) r (recordNum t) (it_emitter t)"
      by (auto simp: loop_result_def)
    with Inr mode show ?thesis
      unfolding streamed_def called_def
      by (intro disjI1 exI [of _ "[]"] exI [of _ "CallAllocated ?req None"] exI [of _ es]
          exI [of _ stream] exI [of _ ?lbl]) simp
  qed
qed

lemma getChangedBlocks_cases:
  assumes run: "getChangedBlocks env token s = Some (r, t)"
    and ops: "Emitter (it_args s) = Some ops"
    and a: "it_args s = a\<lparr>PrevSnapshotID := base\<rparr>" "PrevSnapshotID a \<noteq> [] \<or> PrevSnapshotName a \<noteq> []"
      "PrevSnapshotID a \<noteq> [] \<longrightarrow> base = PrevSnapshotID a"
  shows "streamed env a ops token s r t \<or> (\<exists>err. r = Inl (Failed err)) \<and> it_untouched s t"
proof -
  let ?req = "\<lparr>gmd_security_token = token, gmd_namespace = Namespace a,
    gmd_base_snapshot_id = base, gmd_target_snapshot_name = SnapshotName a,
    gmd_starting_offset = StartingOffset a, gmd_max_results = MaxResults a\<rparr>"
  let ?lbl = "''GetMetadataDelta('' @ Namespace a @ '','' @ base @ '','' @ SnapshotName a @ '')''"
  show ?thesis
  proof (cases "ie_delta env (it_events s) ?req")
    case (Inl err)
    with run a show ?thesis
      by (auto simp: getChangedBlocks_def Let_def io_run it_untouched_def)
  next
    case (Inr stream)
    let ?s1 = "s\<lparr>it_events := it_events s @ [CallDelta ?req None]\<rparr>"
    have "recv_loop ?lbl stream 0 ?s1 = Some (r, t)"
      using run Inr a(1) by (simp add: getChangedBlocks_def Let_def io_run)
    then have "loop_result ops ?lbl stream 0 ?s1 (r, t)" using ops by (intro recv_loop_enumerates) simp_all
    then obtain es where "it_events t = it_events s @ [CallDelta ?req None] @ es" "loop_trace stream 0 es"
        "it_args t = it_args s"
        "enumerates ops ?lbl stream 0 (recordNum s) (it_emitter s) r (recordNum t) (it_emitter t)"
      by (auto simp: loop_result_def)
    moreover have "called env a token (it_events s @ []) (CallDelta ?req None) stream"
      using Inr a(2,3) by (auto simp: called_def Let_def)
    ultimately show ?thesis
      unfolding streamed_def using a(1)
      by (intro disjI1 exI [of _ "[]"] exI [of _ "CallDelta ?req None"] exI [of _ es]
          exI [of _ stream] exI [of _ ?lbl]) simp
  qed
qed

lemma streamed_prefix:
  assumes "streamed env a ops token s' r t" "it_events s' = it_events s @ as" "fed as = []"
    "recordNum s' = recordNum s" "it_emitter s' = it_emitter s"
  shows "streamed env a ops token s r t"
proof -
  from assms(1,2,4,5) obtain pre call es stream lbl where
    "it_events t = it_events s @ as @ pre @ [call] @ es" "fed (pre @ [call]) = []"
    "loop_trace stream 0 es" "called env a token (it_events s @ as @ pre) call stream"
    "Emitter (it_args t) = Emitter a"
    "enumerates ops lbl stream 0 (recordNum s) (it_emitter s) r (recordNum t) (it_emitter t)"
    unfolding streamed_def by auto
  with assms(3) show ?thesis unfolding streamed_def
    by (intro exI [of _ "as @ pre"] exI [of _ call] exI [of _ es] exI [of _ stream] exI [of _ lbl]) simp
qed

lemma iter_blocks_cases:
  assumes run: "iter_blocks env token s = Some (r, t)" and ops: "Emitter (it_args s) = Some ops"
  shows "streamed env (it_args s) ops token s r t \<or> (\<exists>x. r = Inl x) \<and> it_untouched s t"
proof -
  let ?a = "it_args s"
  consider "PrevSnapshotID ?a = []" "PrevSnapshotName ?a = []"
    | "PrevSnapshotID ?a = []" "PrevSnapshotName ?a \<noteq> []" | "PrevSnapshotID ?a \<noteq> []" by blast
  then show ?thesis
  proof cases
    case 1
    then have "getAllocatedBlocks env token s = Some (r, t)" using run by (simp add: iter_blocks_def Let_def)
    from getAllocatedBlocks_cases [OF this ops] 1 show ?thesis by blast
  next
    case 3
    then have "getChangedBlocks env token s = Some (r, t)" using run by (simp add: iter_blocks_def Let_def)
    from getChangedBlocks_cases [OF this ops, of "PrevSnapshotID ?a" ?a] 3 show ?thesis by auto
  next
    case 2
    obtain x u where prev: "getPrevSnapshotID env s = (x, u)" by fastforce
    obtain es where u: "u = s\<lparr>it_events := it_events s @ es\<rparr>" "fed es = []"
      using it_appends_prev prev by (rule it_appendsD)
    show ?thesis
    proof (cases x)
      case (Inl e)
      with 2 run prev u show ?thesis by (auto simp: iter_blocks_def Let_def it_untouched_def)
    next
      case (Inr base)
      let ?u = "u\<lparr>it_args := (it_args u)\<lparr>PrevSnapshotID := base\<rparr>\<rparr>"
      have "getChangedBlocks env token ?u = Some (r, t)"
        using 2 run prev Inr by (simp add: iter_blocks_def Let_def)
      from getChangedBlocks_cases [OF this, of ops base ?a] ops 2 u
      have "streamed env ?a ops token ?u r t \<or> (\<exists>err. r = Inl (Failed err)) \<and> it_untouched ?u t"
        by simp
      moreover have "it_untouched s t" if "it_untouched ?u t"
        using that u by (auto simp: it_untouched_def)
      ultimately show ?thesis using streamed_prefix [of env ?a ops token ?u r t s es] u by auto
    qed
  qed
qed

definition enumerated ::
  "iter_env \<Rightarrow> ('e, 'h) iter_args \<Rightarrow> 'e emitter_ops \<Rightarrow> 'e \<Rightarrow> metadata_response list \<Rightarrow>
     ('e, 'h) iter_state \<Rightarrow> bool" where
  "enumerated env args ops e msgs t \<longleftrightarrow>
     (\<exists>con token pre call es stream e1.
        it_events t = con @ pre @ [call] @ es @ [EmitDone (of_nat (length msgs)) None] \<and>
        list_all loop_event es \<and>
        connected env (it_args (newIterator args e)) con token \<and>
        called env args token (con @ pre) call stream \<and>
        (\<forall>i < length msgs. stream i = RecvMsg (msgs ! i)) \<and> stream (length msgs) = RecvEOF \<and>
        feeds ops 0 (map metadata_of msgs) e = Some e1 \<and>
        SnapshotMetadataIteratorDone ops (of_nat (length msgs)) e1 = (None, it_emitter t))"

lemma newIterator_simps [simp]:
  "recordNum (newIterator args e) = 0" "it_emitter (newIterator args e) = e"
  "it_events (newIterator args e) = []"
  "it_args (newIterator args e) = args \<lparr>TokenExpirySecs := (if TokenExpirySecs args = 0
     then DefaultTokenExpirySeconds else TokenExpirySecs args)\<rparr>"
  by (simp_all add: newIterator_def)

lemma called_expiry [simp]:
  "called env (args\<lparr>TokenExpirySecs := n\<rparr>) token pre call stream = called env args token pre call stream"
  unfolding called_def by simp

lemma Args_Validate_emitter: "Args_Validate args = None \<Longrightarrow> \<exists>ops. Emitter args = Some ops"
  by (auto simp: Args_Validate_def split: if_splits)

lemma streamed_args:
  "it_args s = it_args (newIterator args e) \<Longrightarrow>
     streamed env (it_args (newIterator args e)) ops token s r t = streamed env args ops token s r t"
  by (simp add: streamed_def)

lemma GetSnapshotMetadata_enumerates:
  assumes run: "GetSnapshotMetadata env args e = Some (Inr (), t)"
  shows "\<exists>ops msgs. Args_Validate args = None \<and> Emitter args = Some ops \<and> enumerated env args ops e msgs t"
proof -
  let ?s = "newIterator args e"
  have valid: "Args_Validate args = None" and run1: "iter_run env ?s = Some (Inr (), t)"
    using run by (simp_all add: GetSnapshotMetadata_def split: option.splits)
  then obtain ops where ops: "Emitter args = Some ops" using Args_Validate_emitter by blast
  from run1 obtain token s1 where con: "iter_connect env ?s = (Inr token, s1)"
    by (auto simp: iter_run_def split: prod.splits sum.splits)
  from iter_connect_ok [OF con] obtain es1 where s1: "s1 = ?s\<lparr>it_events := es1\<rparr>"
      "connected env (it_args ?s) es1 token" by auto
  from run1 con obtain u where blocks: "iter_blocks env token s1 = Some (Inr (), u)"
      and fin: "emit_done u = (Inr (), t)"
    by (auto simp: iter_run_def split: option.splits prod.splits sum.splits)
  have "streamed env args ops token s1 (Inr ()) u"
    using iter_blocks_cases [OF blocks, of ops] s1 ops streamed_args [of s1 args e env ops token]
    by auto
  then obtain pre call es stream lbl where st:
      "it_events u = es1 @ pre @ [call] @ es" "loop_trace stream 0 es"
      "called env args token (es1 @ pre) call stream" "Emitter (it_args u) = Some ops"
      "enumerates ops lbl stream 0 0 e (Inr ()) (recordNum u) (it_emitter u)"
    using s1 ops by (auto simp: streamed_def)
  from enumerates_ok [OF st(5)] obtain msgs where msgs:
      "\<forall>i < length msgs. stream i = RecvMsg (msgs ! i)" "stream (length msgs) = RecvEOF"
      "feeds ops 0 (map metadata_of msgs) e = Some (it_emitter u)" "recordNum u = of_nat (length msgs)"
    by auto
  have "SnapshotMetadataIteratorDone ops (recordNum u) (it_emitter u) = (None, it_emitter t)"
      "it_events t = it_events u @ [EmitDone (recordNum u) None]"
    using fin st(4) by (auto simp: emit_done_def Let_def split: prod.splits option.splits)
  moreover have "list_all loop_event es" using st(2) by (simp add: loop_trace_def)
  ultimately show ?thesis using st msgs s1 ops valid
    unfolding enumerated_def
    by (intro exI [of _ ops] exI [of _ msgs] conjI exI [of _ es1] exI [of _ token] exI [of _ pre]
        exI [of _ call] exI [of _ es] exI [of _ stream] exI [of _ "it_emitter u"]) simp_all
qed

text \<open>However it ends, the emitter was called with the beginning of the stream of the one call.\<close>

lemma emit_done_trace:
  "emit_done u = (r, t) \<Longrightarrow> fed (it_events t) = fed (it_events u) \<and> (\<exists>fs. it_events t = it_events u @ fs)"
  by (auto simp: emit_done_def Let_def split: option.splits prod.splits)

lemma GetSnapshotMetadata_fed:
  assumes run: "GetSnapshotMetadata env args e = Some (r, t)"
  shows "\<exists>resps. fed (it_events t) = map metadata_of resps \<and>
    (resps \<noteq> [] \<longrightarrow> (\<exists>con token pre call stream rest.
       it_events t = con @ pre @ [call] @ rest \<and>
       connected env (it_args (newIterator args e)) con token \<and>
       called env args token (con @ pre) call stream \<and>
       (\<forall>i < length resps. stream i = RecvMsg (resps ! i))))"
proof (cases "Args_Validate args")
  case (Some err)
  with run show ?thesis by (auto simp: GetSnapshotMetadata_def intro!: exI [of _ "[]"])
next
  case None
  let ?s = "newIterator args e"
  have run1: "iter_run env ?s = Some (r, t)" using run None by (simp add: GetSnapshotMetadata_def)
  obtain ops where ops: "Emitter args = Some ops" using None Args_Validate_emitter by blast
  obtain x s1 where con: "iter_connect env ?s = (x, s1)" by fastforce
  obtain es1 where s1: "s1 = ?s\<lparr>it_events := es1\<rparr>" "fed es1 = []"
    using it_appends_connect con by (rule it_appendsD) simp
  show ?thesis
  proof (cases x)
    case (Inl y)
    with run1 con s1 show ?thesis by (auto simp: iter_run_def intro!: exI [of _ "[]"])
  next
    case (Inr token)
    have conn: "connected env (it_args ?s) es1 token"
      using iter_connect_ok [OF con [unfolded Inr]] s1 by auto
    obtain y u where blocks: "iter_blocks env token s1 = Some (y, u)"
        "(r, t) = (Inl (projl y), u) \<or> (r, t) = emit_done u"
      using run1 con Inr by (auto simp: iter_run_def split: option.splits prod.splits sum.splits)
    then have fin: "fed (it_events t) = fed (it_events u)" "\<exists>fs. it_events t = it_events u @ fs"
      using emit_done_trace [of u r t] by auto
    from iter_blocks_cases [OF blocks(1), of ops] s1 ops streamed_args [of s1 args e env ops token]
    have "streamed env args ops token s1 y u \<or> it_untouched s1 u" by auto
    then show ?thesis
    proof
      assume "it_untouched s1 u"
      with fin s1 show ?thesis by (auto simp: it_untouched_def intro!: exI [of _ "[]"])
    next
      assume "streamed env args ops token s1 y u"
      then obtain pre call es stream where st: "it_events u = es1 @ pre @ [call] @ es"
          "fed (pre @ [call]) = []" "loop_trace stream 0 es" "called env args token (es1 @ pre) call stream"
        using s1 by (auto simp: streamed_def)
      then obtain resps where resps: "fed es = map metadata_of resps"
          "\<forall>i < length resps. stream i = RecvMsg (resps ! i)"
        unfolding loop_trace_def by auto
      have "fed (it_events t) = map metadata_of resps"
        using fin(1) st(1,2) s1(2) resps(1) fed_append [of "[call]" es] by simp
      moreover obtain fs where "it_events t = es1 @ pre @ [call] @ es @ fs" using fin(2) st(1) by auto
      ultimately show ?thesis using conn st(4) resps(2) by blast
    qed
  qed
qed

subsection \<open>The contract of an emitter\<close>

text \<open>
  What the iterator relies on is nothing; what an emitter promises is told by an invariant on
  the records it has accepted, which every accepted record keeps when the numbers count the
  records, and by what it has established when \<open>SnapshotMetadataIteratorDone\<close> returns nil. The
  record number is an \<open>int\<close>, so the promise is for fewer than 2 to the 63 records.
\<close>

locale iterator_emitter =
  fixes ops :: "'e emitter_ops" and start :: "'e \<Rightarrow> bool"
    and inv :: "'e \<Rightarrow> iterator_metadata list \<Rightarrow> 'e \<Rightarrow> bool"
    and post :: "'e \<Rightarrow> iterator_metadata list \<Rightarrow> 'e \<Rightarrow> bool"
  assumes inv_start: "start e0 \<Longrightarrow> inv e0 [] e0"
    and inv_record: "start e0 \<Longrightarrow> inv e0 ms e \<Longrightarrow> length ms + 1 < 2 ^ 63 \<Longrightarrow>
      SnapshotMetadataIteratorRecord ops (of_nat (length ms) + 1) m e = (None, e') \<Longrightarrow>
      inv e0 (ms @ [m]) e'"
    and post_done: "start e0 \<Longrightarrow> inv e0 ms e \<Longrightarrow>
      SnapshotMetadataIteratorDone ops (of_nat (length ms)) e = (None, e') \<Longrightarrow> post e0 ms e'"
begin

lemma feeds_inv:
  assumes "feeds ops (of_nat (length ms)) ns e = Some e'" "start e0" "inv e0 ms e"
    "length ms + length ns < 2 ^ 63"
  shows "inv e0 (ms @ ns) e'"
  using assms
proof (induction ns arbitrary: ms e)
  case Nil
  then show ?case by simp
next
  case (Cons n ns)
  obtain e1 where e1: "SnapshotMetadataIteratorRecord ops (of_nat (length ms) + 1) n e = (None, e1)"
      "feeds ops (of_nat (length ms) + 1) ns e1 = Some e'"
    using Cons.prems(1) by (auto split: prod.splits option.splits)
  have "inv e0 (ms @ [n]) e1" using Cons.prems e1(1) by (intro inv_record) simp_all
  moreover have "feeds ops (of_nat (length (ms @ [n]))) ns e1 = Some e'" using e1(2) by (simp add: add.commute)
  ultimately show ?case using Cons.IH [of "ms @ [n]" e1] Cons.prems by simp
qed

lemma enumerated_post:
  assumes "enumerated env args ops e msgs t" "start e" "length msgs < 2 ^ 63"
  shows "post e (map metadata_of msgs) (it_emitter t)"
proof -
  obtain e1 where e1: "feeds ops 0 (map metadata_of msgs) e = Some e1"
      "SnapshotMetadataIteratorDone ops (of_nat (length msgs)) e1 = (None, it_emitter t)"
    using assms(1) unfolding enumerated_def by blast
  have "inv e (map metadata_of msgs) e1"
    using feeds_inv [of "[]" "map metadata_of msgs" e e1 e] e1(1) assms(2,3) inv_start by simp
  with post_done [OF assms(2), of "map metadata_of msgs" e1 "it_emitter t"] e1(2) show ?thesis by simp
qed

end

subsection \<open>Properties\<close>

text \<open>
  \<open>Args.Validate\<close> accepts exactly the arguments with an emitter, a namespace, a snapshot
  name, non-negative expiry and limit, a service account given by both or neither of its two
  names, and three clients; every rejection is an ErrInvalidArgs for \<open>errors.Is\<close>.
\<close>
theorem Args_Validate_spec:
  "(Args_Validate a = None) = (Emitter a \<noteq> None \<and> Namespace a \<noteq> [] \<and> SnapshotName a \<noteq> [] \<and>
     0 \<le> sint (TokenExpirySecs a) \<and> 0 \<le> sint (MaxResults a) \<and>
     ((SANamespace a = []) = (SAName a = [])) \<and>
     KubeClient (ia_Clients a) \<noteq> None \<and> SnapshotClient (ia_Clients a) \<noteq> None \<and>
     SmsCRClient (ia_Clients a) \<noteq> None) \<and>
   list_all (\<lambda>err. errors_is err (Sentinel ErrInvalidArgs)) (case Args_Validate a of None \<Rightarrow> [] | Some e \<Rightarrow> [e])"
  by (auto simp: Args_Validate_def Clients_Validate_def invalid_args_def not_less)

text \<open>
  C8. \<open>GetSnapshotMetadata\<close> returns nil only after the whole exchange: a token for the audience
  in the custom resource of the driver, made for the given account if one is given; a client
  that trusts the certificate of that resource; one call of the service for the allocated or
  the changed blocks with the arguments' fields; every message of its stream handed to the
  emitter in order, numbered from 1 and accepted; and at the end one accepted
  \<open>SnapshotMetadataIteratorDone\<close> with their number.
\<close>
theorem GetSnapshotMetadata_ok:
  assumes "GetSnapshotMetadata env args e = Some (Inr (), t)"
  shows "Args_Validate args = None \<and>
    (\<exists>ops msgs. Emitter args = Some ops \<and> enumerated env args ops e msgs t)"
  using GetSnapshotMetadata_enumerates [OF assms] by blast

lemma split_on_prefix:
  "split_on (CHR '':'') (K8sServiceAccountUserNamePrefix @ r) =
     ''system'' # ''serviceaccount'' # split_on (CHR '':'') r"
  by (simp add: K8sServiceAccountUserNamePrefix_def)

lemma split_on_two:
  "split_on c r = [a, b] \<longleftrightarrow> r = a @ c # b \<and> c \<notin> set a \<and> c \<notin> set b"
proof
  assume s: "split_on c r = [a, b]"
  have "r = join_with [c] [a, b]" using join_split_on [of c r] s by simp
  moreover have "c \<notin> set a" "c \<notin> set b" using split_on_parts [of _ c r] s by auto
  ultimately show "r = a @ c # b \<and> c \<notin> set a \<and> c \<notin> set b" by simp
qed (auto simp: split_on_append split_on_no_sep)

text \<open>
  The default service account is the one the client authenticates as: it is found exactly
  when the reviewed user name is \<open>system:serviceaccount:\<close>, a namespace, a colon and a name,
  neither of which has a colon, and the result is that namespace and name; any other user name
  is an ErrInvalidArgs.
\<close>
theorem getDefaultServiceAccount_spec:
  assumes "ie_self_subject_review env (it_events s) = Inr username"
  shows "(fst (getDefaultServiceAccount env s) = Inr (ns, n)) =
      (username = ''system:serviceaccount:'' @ ns @ '':'' @ n \<and> CHR '':'' \<notin> set ns \<and> CHR '':'' \<notin> set n) \<and>
    (\<exists>p. fst (getDefaultServiceAccount env s) = Inr p \<or>
       fst (getDefaultServiceAccount env s) = Inl (Failed (invalid_args
         '': ServiceAccount unspecified and default cannot be determined'')))"
proof
  let ?f = "split_on (CHR '':'') username"
  have r: "fst (getDefaultServiceAccount env s) =
      (if has_prefix username K8sServiceAccountUserNamePrefix \<and> length ?f = 4
       then Inr (?f ! 2, ?f ! 3)
       else Inl (Failed (invalid_args '': ServiceAccount unspecified and default cannot be determined'')))"
    using assms by (simp add: getDefaultServiceAccount_def io_run Let_def)
  then show "\<exists>p. fst (getDefaultServiceAccount env s) = Inr p \<or>
       fst (getDefaultServiceAccount env s) = Inl (Failed (invalid_args
         '': ServiceAccount unspecified and default cannot be determined''))" by (metis prod.collapse)
  show "(fst (getDefaultServiceAccount env s) = Inr (ns, n)) =
      (username = ''system:serviceaccount:'' @ ns @ '':'' @ n \<and> CHR '':'' \<notin> set ns \<and> CHR '':'' \<notin> set n)"
  proof (cases "has_prefix username K8sServiceAccountUserNamePrefix")
    case False
    then have "username \<noteq> K8sServiceAccountUserNamePrefix @ x" for x by auto
    with False r show ?thesis by (auto simp: K8sServiceAccountUserNamePrefix_def)
  next
    case True
    then obtain rest where u: "username = K8sServiceAccountUserNamePrefix @ rest"
      unfolding has_prefix_iff by blast
    have f: "?f = ''system'' # ''serviceaccount'' # split_on (CHR '':'') rest"
      unfolding u by (rule split_on_prefix)
    have "(fst (getDefaultServiceAccount env s) = Inr (ns, n)) = (split_on (CHR '':'') rest = [ns, n])"
      unfolding r f using True by (auto simp: length_Suc_conv eval_nat_numeral)
    also have "\<dots> = (rest = ns @ '':'' @ n \<and> CHR '':'' \<notin> set ns \<and> CHR '':'' \<notin> set n)"
      by (simp add: split_on_two)
    finally show ?thesis unfolding u by (simp add: K8sServiceAccountUserNamePrefix_def)
  qed
qed

text \<open>
  \<open>getPrevSnapshotID\<close> never panics, although it dereferences four pointers; and a handle it
  returns is that of a content which the named snapshot is bound to, which points back at this
  very snapshot by namespace, name and, if set, identifier, and neither of the two is marked
  as not ready.
\<close>
theorem getPrevSnapshotID_spec:
  "fst (getPrevSnapshotID env s) \<noteq> Inl (Panicked p) \<and>
   (fst (getPrevSnapshotID env s) = Inr handle \<longrightarrow>
     (\<exists>vs st c vsc cst.
        ie_snapshot_get env (it_events s) (Namespace (it_args s)) (PrevSnapshotName (it_args s)) = Inr vs \<and>
        vs_status vs = Some st \<and> vss_ready_to_use st \<noteq> Some False \<and> vss_bound_content_name st = Some c \<and>
        ie_content_get env (it_events s @ [GetSnapshot (Namespace (it_args s))
          (PrevSnapshotName (it_args s)) (Inr vs)]) c = Inr vsc \<and>
        or_namespace (vsc_ref vsc) = vs_namespace vs \<and> or_name (vsc_ref vsc) = vs_name vs \<and>
        (or_uid (vsc_ref vsc) = [] \<or> or_uid (vsc_ref vsc) = vs_uid vs) \<and>
        vsc_status vsc = Some cst \<and> vscs_ready_to_use cst \<noteq> Some False \<and>
        vscs_snapshot_handle cst = Some handle))"
proof -
  let ?ns = "Namespace (it_args s)" and ?n = "PrevSnapshotName (it_args s)"
  show ?thesis
  proof (cases "ie_snapshot_get env (it_events s) ?ns ?n")
    case (Inl err)
    then show ?thesis by (simp add: getPrevSnapshotID_def iter_getVolumeSnapshot_def io_run)
  next
    case vs: (Inr vs)
    show ?thesis
    proof (cases "\<exists>st c. vs_status vs = Some st \<and> vss_ready_to_use st \<noteq> Some False \<and>
        vss_bound_content_name st = Some c")
      case False
      with vs show ?thesis
        by (cases "vs_status vs") (auto simp: getPrevSnapshotID_def iter_getVolumeSnapshot_def io_run)
    next
      case True
      then obtain st c where st: "vs_status vs = Some st" "vss_ready_to_use st \<noteq> Some False"
          "vss_bound_content_name st = Some c" by blast
      show ?thesis
      proof (cases "ie_content_get env (it_events s @ [GetSnapshot ?ns ?n (Inr vs)]) c")
        case (Inl err)
        with vs st show ?thesis
          by (simp add: getPrevSnapshotID_def iter_getVolumeSnapshot_def
              iter_getVolumeSnapshotContent_def io_run)
      next
        case (Inr vsc)
        with vs st show ?thesis
          by (cases "vsc_status vsc"; cases "vscs_snapshot_handle (the (vsc_status vsc))")
            (auto simp: getPrevSnapshotID_def iter_getVolumeSnapshot_def
              iter_getVolumeSnapshotContent_def io_run Let_def)
      qed
    qed
  qed
qed

subsection \<open>Examples\<close>

definition counter_ops :: "nat emitter_ops" where
  "counter_ops = \<lparr>SnapshotMetadataIteratorRecord = \<lambda>k m n. (None, n + length (im_BlockMetadata m)),
     SnapshotMetadataIteratorDone = \<lambda>k n. (None, n)\<rparr>"

definition iter_args_example :: "'e emitter_ops \<Rightarrow> ('e, nat) iter_args" where
  "iter_args_example ops =
     \<lparr>ia_Clients = \<lparr>KubeClient = Some 1, SnapshotClient = Some 2, SmsCRClient = Some 3\<rparr>,
      Emitter = Some ops, Namespace = ''ns'', SnapshotName = ''snap'', PrevSnapshotID = [],
      PrevSnapshotName = [], StartingOffset = 0, MaxResults = 0, CSIDriver = ''driver'',
      SANamespace = ''ns'', SAName = ''sa'', TokenExpirySecs = 0\<rparr>"

definition response_example :: "metadata_response" where
  "response_example = \<lparr>block_metadata_type = 1, volume_capacity_bytes = 100,
     block_metadata = [\<lparr>byte_offset = 0, size_bytes = 10\<rparr>, \<lparr>byte_offset = 20, size_bytes = 10\<rparr>]\<rparr>"

definition iter_env_example :: "iter_env" where
  "iter_env_example =
     \<lparr>ie_self_subject_review = \<lambda>h. Inr ''system:serviceaccount:ns:sa'',
      ie_snapshot_get = \<lambda>h ns n. Inr \<lparr>vs_namespace = ns, vs_name = n, vs_uid = ''uid'',
        vs_source_pvc = None, vs_class_name = None,
        vs_status = Some \<lparr>vss_bound_content_name = Some ''content'', vss_ready_to_use = None\<rparr>\<rparr>,
      ie_content_get = \<lambda>h n. Inr \<lparr>vsc_name = n, vsc_driver = ''driver'',
        vsc_ref = \<lparr>or_namespace = ''ns'', or_name = ''prev'', or_uid = ''uid''\<rparr>,
        vsc_status = Some \<lparr>vscs_snapshot_handle = Some ''handle'', vscs_ready_to_use = Some True\<rparr>\<rparr>,
      ie_service_get = \<lambda>h d. Inr \<lparr>sms_name = d, sms_spec = \<lparr>sms_audience = ''aud'',
        sms_address = ''host'', sms_caCert = [], sms_requireBaseSnapshotForDelta = None\<rparr>\<rparr>,
      ie_create_token = \<lambda>h ns sa aud expiry. Inr ''token'',
      ie_append_certs = \<lambda>ca. True,
      ie_grpc_new_client = \<lambda>ca url. None,
      ie_allocated = \<lambda>h req. Inr (\<lambda>n. if n = 0 then RecvMsg response_example else RecvEOF),
      ie_delta = \<lambda>h req. Inl (StatusErr NotFound ''base'')\<rparr>"

lemmas iterator_run_defs = GetSnapshotMetadata_def Args_Validate_def Clients_Validate_def
  iter_args_example_def newIterator_def iter_run_def iter_connect_def getSnapshotMetadataServiceCR_def
  createSecurityToken_def getGRPCClient_def iter_blocks_def getAllocatedBlocks_def
  recv_loop.simps emit_record_def emit_done_def iter_env_example_def io_run Let_def

lemma iterator_example:
  "\<exists>t. GetSnapshotMetadata iter_env_example (iter_args_example counter_ops) 0 = Some (Inr (), t) \<and>
     it_emitter t = 2"
  by (simp add: iterator_run_defs counter_ops_def response_example_def metadata_of_def)

lemma enumerated_msgs:
  assumes "enumerated env args ops e msgs t" "\<And>h req. ie_allocated env h req = Inr stream"
    "\<And>h req. ie_delta env h req = Inl err" "received stream xs"
  shows "msgs = xs"
proof -
  obtain pre token call st where "called env args token pre call st" and st: "received st msgs"
    using assms(1) unfolding enumerated_def received_def by blast
  then have "st = stream" using assms(2,3) by (auto simp: called_def Let_def split: if_splits)
  with st assms(4) show ?thesis by (blast intro: received_unique)
qed

lemma enumerated_example:
  assumes "enumerated iter_env_example args ops e msgs t"
  shows "msgs = [response_example]"
proof (rule enumerated_msgs [OF assms])
  show "ie_allocated iter_env_example h req = Inr (\<lambda>n. if n = 0 then RecvMsg response_example else RecvEOF)"
    "ie_delta iter_env_example h dreq = Inl (StatusErr NotFound ''base'')" for h req dreq
    by (simp_all add: iter_env_example_def)
qed (simp add: received_def)

theorem GetSnapshotMetadata_ok_witness:
  "\<exists>msgs t. enumerated iter_env_example (iter_args_example counter_ops) counter_ops 0 msgs t \<and>
     it_emitter t = 2"
proof -
  obtain t where t: "GetSnapshotMetadata iter_env_example (iter_args_example counter_ops) 0 = Some (Inr (), t)"
      "it_emitter t = 2" using iterator_example by blast
  from GetSnapshotMetadata_ok [OF t(1)] t(2) show ?thesis by (auto simp: iter_args_example_def)
qed

theorem getDefaultServiceAccount_spec_witness:
  "fst (getDefaultServiceAccount iter_env_example
     (newIterator (iter_args_example counter_ops) 0)) = Inr (''ns'', ''sa'')"
  using getDefaultServiceAccount_spec [of iter_env_example "newIterator (iter_args_example counter_ops) 0"
      "''system:serviceaccount:ns:sa''" "''ns''" "''sa''"]
  by (simp add: iter_env_example_def)

theorem getPrevSnapshotID_spec_witness:
  "\<exists>c. fst (getPrevSnapshotID iter_env_example
      (newIterator ((iter_args_example counter_ops)\<lparr>PrevSnapshotName := ''prev''\<rparr>) 0)) = Inr c \<and> c = ''handle'' \<and>
     fst (getPrevSnapshotID iter_env_example
      (newIterator ((iter_args_example counter_ops)\<lparr>PrevSnapshotName := ''prev''\<rparr>) 0)) \<noteq> Inl (Panicked ''p'')"
proof -
  let ?s = "newIterator ((iter_args_example counter_ops)\<lparr>PrevSnapshotName := ''prev''\<rparr>) 0"
  have "fst (getPrevSnapshotID iter_env_example ?s) = Inr ''handle''"
    by (simp add: getPrevSnapshotID_def iter_getVolumeSnapshot_def iter_getVolumeSnapshotContent_def
        io_run Let_def iter_env_example_def iter_args_example_def)
  with getPrevSnapshotID_spec [of iter_env_example ?s "''p''" "''handle''"] show ?thesis by blast
qed

end
