(* ===== verification/Emitters.thy ===== *)
theory Emitters
  imports Iterator
begin

text \<open>
  The listing emitters of \<open>emitters.go\<close>: \<open>JSONEmitter\<close> and \<open>TableEmitter\<close>. The writer is the text
  written to it; errors of the writer are ignored by the code. What \<open>encoding/json\<close> writes for a
  record follows from the fields and their tags: \<open>omitempty\<close> leaves out a zero offset or size,
  and a record without blocks, whose slice is nil, has \<open>null\<close>.
\<close>

subsection \<open>\<open>encoding/json\<close> on the records\<close>

definition json_string :: "string \<Rightarrow> string" where
  "json_string s = [CHR 0x22] @ s @ [CHR 0x22]"

definition json_field :: "string \<Rightarrow> string \<Rightarrow> string" where
  "json_field k v = json_string k @ '':'' @ v"

definition json_object :: "string list \<Rightarrow> string" where
  "json_object fs = ''{'' @ join_with '','' fs @ ''}''"

definition json_block :: "block_metadata \<Rightarrow> string" where
  "json_block b = json_object
     ((if byte_offset b = 0 then [] else [json_field ''byte_offset'' (int_dec (sint (byte_offset b)))]) @
      (if size_bytes b = 0 then [] else [json_field ''size_bytes'' (int_dec (sint (size_bytes b)))]))"

definition json_blocks :: "block_metadata list \<Rightarrow> string" where
  "json_blocks bs = (if bs = [] then ''null'' else ''['' @ join_with '','' (map json_block bs) @ '']'')"

definition json_metadata :: "iterator_metadata \<Rightarrow> string" where
  "json_metadata m = json_object
     [json_field ''block_metadata_type'' (int_dec (sint (im_BlockMetadataType m))),
      json_field ''volume_capacity_bytes'' (int_dec (sint (im_VolumeCapacityBytes m))),
      json_field ''block_metadata'' (json_blocks (im_BlockMetadata m))]"

subsection \<open>\<open>JSONEmitter\<close>\<close>

record json_emitter =
  je_Writer :: string
  listNotEmpty :: bool

definition newline :: string where "newline = [CHR 0x0A]"

definition JSONEmitter_Record ::
  "int64 \<Rightarrow> iterator_metadata \<Rightarrow> json_emitter \<Rightarrow> gerr option \<times> json_emitter" where
  "JSONEmitter_Record recordNumber metadata e =
     (let prefix = (if recordNumber = 1 then ''['' else '','');
          e1 = (if recordNumber = 1 then e\<lparr>listNotEmpty := True\<rparr> else e);
          b = json_metadata metadata @ newline in
      (None, e1\<lparr>je_Writer := je_Writer e1 @ prefix @ trim_suffix b newline\<rparr>))"

definition JSONEmitter_Done :: "int64 \<Rightarrow> json_emitter \<Rightarrow> gerr option \<times> json_emitter" where
  "JSONEmitter_Done n e =
     (if listNotEmpty e then (None, e\<lparr>je_Writer := je_Writer e @ '']''\<rparr>)
      else (None, e\<lparr>je_Writer := je_Writer e @ ''[]''\<rparr>))"

definition JSONEmitter :: "json_emitter emitter_ops" where
  "JSONEmitter = \<lparr>SnapshotMetadataIteratorRecord = JSONEmitter_Record,
     SnapshotMetadataIteratorDone = JSONEmitter_Done\<rparr>"

subsection \<open>\<open>TableEmitter\<close>\<close>

definition tableHeader1 :: string where
  "tableHeader1 = ''Record#   VolCapBytes  BlockMetadataType   ByteOffset     SizeBytes''"
definition tableHeader2 :: string where
  "tableHeader2 = ''------- -------------- ----------------- -------------- --------------''"

definition table_row :: "int64 \<Rightarrow> int64 \<Rightarrow> string \<Rightarrow> block_metadata \<Rightarrow> string" where
  "table_row recordNumber capacity bmt bmd =
     pad_left 7 (int_dec (sint recordNumber)) @ '' '' @
     pad_left 14 (int_dec (sint capacity)) @ '' '' @
     pad_left 17 bmt @ '' '' @
     pad_left 14 (int_dec (sint (byte_offset bmd))) @ '' '' @
     pad_left 14 (int_dec (sint (size_bytes bmd))) @ newline"

definition TableEmitter_Record ::
  "int64 \<Rightarrow> iterator_metadata \<Rightarrow> string \<Rightarrow> gerr option \<times> string" where
  "TableEmitter_Record recordNumber metadata w =
     (let w1 = (if recordNumber = 1 then w @ tableHeader1 @ newline @ tableHeader2 @ newline else w);
          bmt = BlockMetadataType_String (im_BlockMetadataType metadata) in
      (None, foldl (\<lambda>w bmd. w @ table_row recordNumber (im_VolumeCapacityBytes metadata) bmt bmd) w1
               (im_BlockMetadata metadata)))"

definition TableEmitter_Done :: "int64 \<Rightarrow> string \<Rightarrow> gerr option \<times> string" where
  "TableEmitter_Done n w = (None, w)"

definition TableEmitter :: "string emitter_ops" where
  "TableEmitter = \<lparr>SnapshotMetadataIteratorRecord = TableEmitter_Record,
     SnapshotMetadataIteratorDone = TableEmitter_Done\<rparr>"

subsection \<open>What the emitters promise\<close>

definition json_list :: "iterator_metadata list \<Rightarrow> string" where
  "json_list ms = ''['' @ join_with '','' (map json_metadata ms) @ '']''"

lemma join_with_snoc: "xs \<noteq> [] \<Longrightarrow> join_with sep (xs @ [x]) = join_with sep xs @ sep @ x"
  by (induction sep xs rule: join_with.induct) auto

lemma record_number_first:
  "length ms < 9223372036854775807 \<Longrightarrow> ((word_of_nat (length ms) :: int64) = 0) = (ms = [])"
  by (auto simp: word_of_nat_eq_0_iff dest: dvd_imp_le)

definition json_inv :: "json_emitter \<Rightarrow> iterator_metadata list \<Rightarrow> json_emitter \<Rightarrow> bool" where
  "json_inv e0 ms e \<longleftrightarrow> listNotEmpty e = (ms \<noteq> []) \<and>
     je_Writer e = je_Writer e0 @
       (if ms = [] then [] else ''['' @ join_with '','' (map json_metadata ms))"

interpretation json: iterator_emitter JSONEmitter "\<lambda>e. \<not> listNotEmpty e" json_inv
  "\<lambda>e0 ms e. je_Writer e = je_Writer e0 @ json_list ms"
proof unfold_locales
  fix e0 e e' :: json_emitter and ms m
  show "json_inv e0 [] e0" if "\<not> listNotEmpty e0" using that by (simp add: json_inv_def)
  show "json_inv e0 (ms @ [m]) e'"
    if "json_inv e0 ms e" "length ms + 1 < 2 ^ 63"
      "SnapshotMetadataIteratorRecord JSONEmitter (of_nat (length ms) + 1) m e = (None, e')"
    using that
    by (cases "ms = []")
      (auto simp: json_inv_def JSONEmitter_def JSONEmitter_Record_def record_number_first Let_def
        join_with_snoc)
  show "je_Writer e' = je_Writer e0 @ json_list ms"
    if "json_inv e0 ms e" "SnapshotMetadataIteratorDone JSONEmitter (of_nat (length ms)) e = (None, e')"
    using that
    by (auto simp: json_inv_def JSONEmitter_def JSONEmitter_Done_def json_list_def split: if_splits)
qed

text \<open>The table: the header before the first record, then a line for every block.\<close>

fun table_lines :: "nat \<Rightarrow> iterator_metadata list \<Rightarrow> string list" where
  "table_lines n [] = []"
| "table_lines n (m # ms) =
     map (table_row (of_nat n) (im_VolumeCapacityBytes m)
       (BlockMetadataType_String (im_BlockMetadataType m))) (im_BlockMetadata m) @
     table_lines (Suc n) ms"

definition table_of :: "iterator_metadata list \<Rightarrow> string" where
  "table_of ms = (if ms = [] then [] else
     tableHeader1 @ newline @ tableHeader2 @ newline @ concat (table_lines 1 ms))"

lemma table_lines_snoc:
  "table_lines n (ms @ [m]) = table_lines n ms @
     map (table_row (of_nat (n + length ms)) (im_VolumeCapacityBytes m)
       (BlockMetadataType_String (im_BlockMetadataType m))) (im_BlockMetadata m)"
  by (induction ms arbitrary: n) (auto simp: ac_simps)

lemma foldl_append: "foldl (\<lambda>w x. w @ f x) w xs = w @ concat (map f xs)"
  by (induction xs arbitrary: w) auto

interpretation table: iterator_emitter TableEmitter "\<lambda>w. True" "\<lambda>w0 ms w. w = w0 @ table_of ms"
  "\<lambda>w0 ms w. w = w0 @ table_of ms"
proof unfold_locales
  fix w0 w w' :: string and ms m
  show "w0 = w0 @ table_of []" by (simp add: table_of_def)
  show "w' = w0 @ table_of (ms @ [m])"
    if "w = w0 @ table_of ms" "length ms + 1 < 2 ^ 63"
      "SnapshotMetadataIteratorRecord TableEmitter (of_nat (length ms) + 1) m w = (None, w')"
    using that
    by (cases "ms = []")
      (auto simp: TableEmitter_def TableEmitter_Record_def record_number_first Let_def foldl_append
        table_of_def table_lines_snoc add.commute)
  show "w' = w0 @ table_of ms"
    if "w = w0 @ table_of ms" "SnapshotMetadataIteratorDone TableEmitter (of_nat (length ms)) w = (None, w')"
    using that by (simp add: TableEmitter_def TableEmitter_Done_def)
qed

subsection \<open>Reading the JSON back\<close>

text \<open>A reader of the emitter's output: each function reads a prefix of the text and returns the rest.\<close>

definition expect :: "string \<Rightarrow> string \<Rightarrow> string option" where
  "expect p s = (if has_prefix s p then Some (drop (length p) s) else None)"

definition read_nat :: "string \<Rightarrow> (nat \<times> string) option" where
  "read_nat s = (let ds = takeWhile is_digit s in
     if ds = [] then None else Some (dec_val ds, drop (length ds) s))"

definition read_int :: "string \<Rightarrow> (int \<times> string) option" where
  "read_int s = (case expect ''-'' s of
     Some r \<Rightarrow> map_option (\<lambda>(n, q). (- int n, q)) (read_nat r)
   | None \<Rightarrow> map_option (\<lambda>(n, q). (int n, q)) (read_nat s))"

definition read_field :: "string \<Rightarrow> string \<Rightarrow> (int \<times> string) option" where
  "read_field k s = Option.bind (expect (json_string k @ '':'') s) read_int"

text \<open>An integer field that may be left out, and the comma after it.\<close>

definition read_optional :: "string \<Rightarrow> string \<Rightarrow> int \<times> string" where
  "read_optional k s = (case read_field k s of None \<Rightarrow> (0, s) | Some (i, r) \<Rightarrow>
     (case expect '','' r of None \<Rightarrow> (i, r) | Some q \<Rightarrow> (i, q)))"

definition read_block :: "string \<Rightarrow> (block_metadata \<times> string) option" where
  "read_block s = Option.bind (expect ''{'' s) (\<lambda>r.
     let (off, r1) = read_optional ''byte_offset'' r; (size, r2) = read_optional ''size_bytes'' r1 in
     map_option (\<lambda>q. (\<lparr>byte_offset = of_int off, size_bytes = of_int size\<rparr>, q)) (expect ''}'' r2))"

fun read_many :: "nat \<Rightarrow> (string \<Rightarrow> ('a \<times> string) option) \<Rightarrow> string \<Rightarrow> ('a list \<times> string) option" where
  "read_many 0 p s = None"
| "read_many (Suc n) p s = Option.bind (p s) (\<lambda>(x, r).
     case expect '','' r of
       None \<Rightarrow> Some ([x], r)
     | Some r1 \<Rightarrow> map_option (\<lambda>(xs, q). (x # xs, q)) (read_many n p r1))"

definition read_blocks :: "string \<Rightarrow> (block_metadata list \<times> string) option" where
  "read_blocks s = (case expect ''null'' s of
     Some r \<Rightarrow> Some ([], r)
   | None \<Rightarrow> Option.bind (expect ''['' s) (\<lambda>r.
       Option.bind (read_many (length r) read_block r) (\<lambda>(bs, q).
       map_option (\<lambda>q1. (bs, q1)) (expect '']'' q))))"

definition read_metadata :: "string \<Rightarrow> (iterator_metadata \<times> string) option" where
  "read_metadata s =
     Option.bind (expect ''{'' s) (\<lambda>s0.
     Option.bind (read_field ''block_metadata_type'' s0) (\<lambda>(ty, s1).
     Option.bind (expect '','' s1) (\<lambda>s2.
     Option.bind (read_field ''volume_capacity_bytes'' s2) (\<lambda>(cap, s3).
     Option.bind (expect ('','' @ json_string ''block_metadata'' @ '':'') s3) (\<lambda>s4.
     Option.bind (read_blocks s4) (\<lambda>(bs, s5).
     map_option (\<lambda>q. (\<lparr>im_BlockMetadataType = of_int ty, im_VolumeCapacityBytes = of_int cap,
       im_BlockMetadata = bs\<rparr>, q)) (expect ''}'' s5)))))))"

definition read_list :: "string \<Rightarrow> (iterator_metadata list \<times> string) option" where
  "read_list s =
     (case expect ''[]'' s of
        Some r \<Rightarrow> Some ([], r)
      | None \<Rightarrow> Option.bind (expect ''['' s) (\<lambda>r.
          Option.bind (read_many (length r) read_metadata r) (\<lambda>(ms, q).
          map_option (\<lambda>q1. (ms, q1)) (expect '']'' q))))"

lemma expect_append [simp]: "expect p (p @ r) = Some r"
  by (simp add: expect_def)

lemma expect_Cons [simp]:
  "expect (c # p) (d # s) = (if c = d then expect p s else None)"
  "expect [] s = Some s" "expect (c # p) [] = None"
  by (simp_all add: expect_def has_prefix_def)

lemma takeWhile_digits:
  "\<forall>c \<in> set ds. is_digit c \<Longrightarrow> r = [] \<or> \<not> is_digit (hd r) \<Longrightarrow> takeWhile is_digit (ds @ r) = ds"
  by (cases r) (simp_all add: takeWhile_append)

definition no_digit :: "string \<Rightarrow> bool" where
  "no_digit r \<longleftrightarrow> r = [] \<or> \<not> is_digit (hd r)"

lemma read_nat_dec: "no_digit r \<Longrightarrow> read_nat (nat_dec n @ r) = Some (n, r)"
  using takeWhile_digits [of "nat_dec n" r] nat_dec_digits
  by (simp add: read_nat_def Let_def no_digit_def)

lemma read_int_dec: "no_digit r \<Longrightarrow> read_int (int_dec i @ r) = Some (i, r)"
proof (cases "i < 0")
  case True
  assume "no_digit r"
  with True show ?thesis by (simp add: read_int_def int_dec_def read_nat_dec)
next
  case False
  assume r: "no_digit r"
  obtain c ds where cs: "nat_dec (nat i) = c # ds" using nat_dec_Nil by (metis list.exhaust)
  then have "c \<noteq> CHR ''-''" using nat_dec_not_minus [of "nat i" ds] by auto
  then have "expect ''-'' (nat_dec (nat i) @ r) = None" using cs by simp
  with False r show ?thesis by (simp add: read_int_def int_dec_def read_nat_dec)
qed

lemma read_field_json: "no_digit r \<Longrightarrow> read_field k (json_field k (int_dec i) @ r) = Some (i, r)"
proof -
  assume r: "no_digit r"
  have "expect (json_string k @ '':'') (json_field k (int_dec i) @ r) = Some (int_dec i @ r)"
    using expect_append [of "json_string k @ '':''" "int_dec i @ r"] by (simp add: json_field_def)
  with r show ?thesis by (simp add: read_field_def read_int_dec)
qed

lemma no_digit_simps [simp]:
  "no_digit []" "no_digit (CHR '','' # r)" "no_digit (CHR ''}'' # r)" "no_digit (CHR '']'' # r)"
  by (simp_all add: no_digit_def is_digit_def)

lemma read_optional_absent:
  "expect (json_string k @ '':'') s = None \<Longrightarrow> read_optional k s = (0, s)"
  by (simp add: read_optional_def read_field_def)

lemma read_optional_last:
  "read_optional k (json_field k (int_dec i) @ CHR ''}'' # r) = (i, CHR ''}'' # r)"
  by (simp add: read_optional_def read_field_json)

lemma read_optional_comma:
  "read_optional k (json_field k (int_dec i) @ CHR '','' # r) = (i, r)"
  by (simp add: read_optional_def read_field_json)

lemma other_field_absent:
  "expect (json_string ''byte_offset'' @ '':'') (json_field ''size_bytes'' v @ r) = None"
  "expect (json_string k @ '':'') (CHR ''}'' # r) = None"
  by (simp_all add: json_string_def json_field_def)

lemma read_block_json: "read_block (json_block b @ r) = Some (b, r)"
proof (cases "byte_offset b = 0"; cases "size_bytes b = 0")
qed (cases b; simp add: read_block_def json_block_def json_object_def read_optional_last
    read_optional_comma read_optional_absent other_field_absent)+

lemma read_many_json:
  assumes "\<And>x r. x \<in> set xs \<Longrightarrow> p (f x @ r) = Some (x, r)" "xs \<noteq> []" "length xs \<le> n"
    "expect '','' r = None"
  shows "read_many n p (join_with '','' (map f xs) @ r) = Some (xs, r)"
  using assms
proof (induction xs arbitrary: n)
  case Nil
  then show ?case by simp
next
  case (Cons x xs)
  then obtain k where n: "n = Suc k" by (cases n) auto
  show ?case
  proof (cases xs)
    case Nil
    with Cons.prems n show ?thesis by simp
  next
    case (Cons y ys)
    have "read_many k p (join_with '','' (map f xs) @ r) = Some (xs, r)"
      using Cons.prems Cons n by (intro Cons.IH) simp_all
    with Cons Cons.prems n show ?thesis by simp
  qed
qed

lemma length_join_with:
  "(\<And>x. x \<in> set ws \<Longrightarrow> x \<noteq> []) \<Longrightarrow> length ws \<le> length (join_with sep ws)"
proof (induction sep ws rule: join_with.induct)
  case (2 sep w)
  then have "w \<noteq> []" by simp
  then show ?case by (cases w) simp_all
next
  case (3 sep w v ws)
  then have "w \<noteq> []" by simp
  then have "1 \<le> length w" by (cases w) simp_all
  moreover have "length (v # ws) \<le> length (join_with sep (v # ws))" using 3 by simp
  ultimately show ?case by simp
qed simp

lemma read_many_all:
  assumes "\<And>x r. p (f x @ r) = Some (x, r)" "\<And>x. f x \<noteq> []" "xs \<noteq> []" "expect '','' r = None"
  shows "read_many (length (join_with '','' (map f xs) @ r)) p (join_with '','' (map f xs) @ r) = Some (xs, r)"
proof (rule read_many_json)
  have "length (map f xs) \<le> length (join_with '','' (map f xs))"
    by (rule length_join_with) (use assms(2) in auto)
  then show "length xs \<le> length (join_with '','' (map f xs) @ r)" by simp
qed (use assms in simp_all)

lemma json_object_not_Nil [simp]: "json_object fs \<noteq> []"
  by (simp add: json_object_def)

lemma json_not_Nil: "json_block b \<noteq> []" "json_metadata m \<noteq> []"
  by (simp_all add: json_block_def json_metadata_def)

lemma join_with_hd: "xs \<noteq> [] \<Longrightarrow> hd xs \<noteq> [] \<Longrightarrow> hd (join_with sep xs @ r) = hd (hd xs)"
  by (cases "(sep, xs)" rule: join_with.cases) simp_all

lemma read_blocks_json: "read_blocks (json_blocks bs @ r) = Some (bs, r)"
proof (cases "bs = []")
  case True
  then show ?thesis by (simp add: read_blocks_def json_blocks_def)
next
  case False
  let ?t = "join_with '','' (map json_block bs) @ CHR '']'' # r"
  have "read_many (length ?t) read_block ?t = Some (bs, CHR '']'' # r)"
    by (rule read_many_all) (simp_all add: read_block_json json_not_Nil False)
  with False show ?thesis by (simp add: read_blocks_def json_blocks_def)
qed

lemma read_metadata_json: "read_metadata (json_metadata m @ r) = Some (m, r)"
proof -
  let ?ty = "json_field ''block_metadata_type'' (int_dec (sint (im_BlockMetadataType m)))"
  let ?cap = "json_field ''volume_capacity_bytes'' (int_dec (sint (im_VolumeCapacityBytes m)))"
  let ?key = "'','' @ json_string ''block_metadata'' @ '':''"
  have js: "json_metadata m @ r = CHR ''{'' # ?ty @ CHR '','' # ?cap @ ?key @
      json_blocks (im_BlockMetadata m) @ CHR ''}'' # r"
    by (simp add: json_metadata_def json_object_def json_field_def)
  have key: "expect ?key (?key @ s) = Some s" for s by (rule expect_append)
  have ty: "read_field ''block_metadata_type'' (?ty @ CHR '','' # s) =
      Some (sint (im_BlockMetadataType m), CHR '','' # s)" for s by (rule read_field_json) simp
  have cap: "read_field ''volume_capacity_bytes'' (?cap @ ?key @ s) =
      Some (sint (im_VolumeCapacityBytes m), ?key @ s)" for s by (rule read_field_json) simp
  show ?thesis
    unfolding js read_metadata_def
    by (cases m) (use ty cap key read_blocks_json in \<open>simp\<close>)
qed

lemma read_list_json: "read_list (json_list ms @ r) = Some (ms, r)"
proof (cases "ms = []")
  case True
  then show ?thesis by (simp add: read_list_def json_list_def)
next
  case False
  let ?t = "join_with '','' (map json_metadata ms) @ CHR '']'' # r"
  have "hd ?t = CHR ''{''"
    using join_with_hd [of "map json_metadata ms" "'',''"] False
    by (cases ms) (simp_all add: json_metadata_def json_object_def)
  then obtain t where t: "?t = CHR ''{'' # t" by (cases ?t) simp_all
  have "read_many (length ?t) read_metadata ?t = Some (ms, CHR '']'' # r)"
    by (rule read_many_all) (simp_all add: read_metadata_json json_not_Nil False)
  with False t show ?thesis by (simp add: read_list_def json_list_def)
qed

subsection \<open>Properties\<close>

text \<open>
  C22. The JSON listing is lossless: what the emitter has written when \<open>GetSnapshotMetadata\<close>
  returns nil is read back as exactly the records of the stream, in order, with every type,
  capacity, offset and size, also where fields are left out or the block list is null.
\<close>
theorem JSONEmitter_roundtrip:
  assumes "GetSnapshotMetadata env (args\<lparr>Emitter := Some JSONEmitter\<rparr>)
      \<lparr>je_Writer = [], listNotEmpty = False\<rparr> = Some (Inr (), t)"
  shows "\<exists>msgs. enumerated env (args\<lparr>Emitter := Some JSONEmitter\<rparr>) JSONEmitter
      \<lparr>je_Writer = [], listNotEmpty = False\<rparr> msgs t \<and>
    (length msgs < 2 ^ 63 \<longrightarrow>
      read_list (je_Writer (it_emitter t)) = Some (map metadata_of msgs, []))"
proof -
  obtain msgs where m: "enumerated env (args\<lparr>Emitter := Some JSONEmitter\<rparr>) JSONEmitter
      \<lparr>je_Writer = [], listNotEmpty = False\<rparr> msgs t"
    using GetSnapshotMetadata_enumerates [OF assms] by auto
  have "read_list (je_Writer (it_emitter t)) = Some (map metadata_of msgs, [])"
    if "length msgs < 2 ^ 63"
    using json.enumerated_post [OF m _ that] read_list_json [of "map metadata_of msgs" "[]"] by simp
  with m show ?thesis by blast
qed

text \<open>
  The table has the two header lines, if there is a record at all, and then one line for
  every block of every record, in order, with the number of its record.
\<close>
theorem TableEmitter_listing:
  assumes "GetSnapshotMetadata env (args\<lparr>Emitter := Some TableEmitter\<rparr>) w = Some (Inr (), t)"
  shows "\<exists>msgs. enumerated env (args\<lparr>Emitter := Some TableEmitter\<rparr>) TableEmitter w msgs t \<and>
    (length msgs < 2 ^ 63 \<longrightarrow> it_emitter t = w @ table_of (map metadata_of msgs))"
proof -
  obtain msgs where m: "enumerated env (args\<lparr>Emitter := Some TableEmitter\<rparr>) TableEmitter w msgs t"
    using GetSnapshotMetadata_enumerates [OF assms] by auto
  with table.enumerated_post [OF m] show ?thesis by blast
qed

text \<open>
  In the table, a line is never shorter than its columns, and lines whose record number,
  capacity, offset and size fit their columns are exactly 71 bytes with the line feed: the
  columns stay aligned up to 14 digits.
\<close>
theorem table_row_length:
  "71 \<le> length (table_row n cap (BlockMetadataType_String ty) b) \<and>
   (length (int_dec (sint n)) \<le> 7 \<longrightarrow> length (int_dec (sint cap)) \<le> 14 \<longrightarrow>
    length (int_dec (sint (byte_offset b))) \<le> 14 \<longrightarrow> length (int_dec (sint (size_bytes b))) \<le> 14 \<longrightarrow>
    length (BlockMetadataType_String ty) \<le> 17 \<longrightarrow>
    length (table_row n cap (BlockMetadataType_String ty) b) = length tableHeader2 + 1)"
  by (simp add: table_row_def newline_def tableHeader2_def)

lemma iterator_json_example:
  "\<exists>t. GetSnapshotMetadata iter_env_example
     ((iter_args_example JSONEmitter)\<lparr>Emitter := Some JSONEmitter\<rparr>)
     \<lparr>je_Writer = [], listNotEmpty = False\<rparr> = Some (Inr (), t)"
  by (simp add: iterator_run_defs JSONEmitter_def JSONEmitter_Record_def JSONEmitter_Done_def)

lemma iterator_table_example:
  "\<exists>t. GetSnapshotMetadata iter_env_example
     ((iter_args_example TableEmitter)\<lparr>Emitter := Some TableEmitter\<rparr>) [] = Some (Inr (), t)"
  by (simp add: iterator_run_defs TableEmitter_def TableEmitter_Record_def TableEmitter_Done_def)

theorem JSONEmitter_roundtrip_witness:
  "\<exists>t. GetSnapshotMetadata iter_env_example
     ((iter_args_example JSONEmitter)\<lparr>Emitter := Some JSONEmitter\<rparr>)
     \<lparr>je_Writer = [], listNotEmpty = False\<rparr> = Some (Inr (), t) \<and>
     read_list (je_Writer (it_emitter t)) = Some ([metadata_of response_example], [])"
proof -
  obtain t where t: "GetSnapshotMetadata iter_env_example
     ((iter_args_example JSONEmitter)\<lparr>Emitter := Some JSONEmitter\<rparr>)
     \<lparr>je_Writer = [], listNotEmpty = False\<rparr> = Some (Inr (), t)" using iterator_json_example by blast
  with JSONEmitter_roundtrip [OF t] show ?thesis by (auto dest: enumerated_example)
qed

theorem TableEmitter_listing_witness:
  "\<exists>t. GetSnapshotMetadata iter_env_example
     ((iter_args_example TableEmitter)\<lparr>Emitter := Some TableEmitter\<rparr>) [] = Some (Inr (), t) \<and>
     it_emitter t = table_of [metadata_of response_example]"
proof -
  obtain t where t: "GetSnapshotMetadata iter_env_example
     ((iter_args_example TableEmitter)\<lparr>Emitter := Some TableEmitter\<rparr>) [] = Some (Inr (), t)"
    using iterator_table_example by blast
  with TableEmitter_listing [OF t] show ?thesis by (auto dest: enumerated_example)
qed

theorem table_row_length_witness:
  "length (table_row 1 1099511627776 (BlockMetadataType_String BlockMetadataType_VARIABLE_LENGTH)
     \<lparr>byte_offset = 0, size_bytes = 4096\<rparr>) = 71"
  using table_row_length [of 1 1099511627776 BlockMetadataType_VARIABLE_LENGTH
      "\<lparr>byte_offset = 0, size_bytes = 4096\<rparr>"]
  by (simp add: int_dec_def nat_dec.simps tableHeader2_def)

end
