(* ===== verification/Verifier.thy ===== *)
theory Verifier
  imports Iterator
begin

text \<open>
  \<open>VerifierEmitter\<close> of \<open>emitters.go\<close>: it copies the listed blocks from a source device to a target
  device and compares the devices at the end. A device is an \<open>*os.File\<close>: a name, its bytes and
  the file offset. What the operating system decides (failures, short reads, how much of a
  failing write took place) is the argument \<open>file_env\<close>; it sees the number of operations
  done, so it may answer differently each time. As \<open>os.File.Read\<close> documents, a read into a
  buffer that is not empty returns at least one byte, an error, or at the end EOF.
\<close>

subsection \<open>Files\<close>

type_synonym byte = "8 word"

record os_file =
  f_name :: string
  f_data :: "byte list"
  f_pos :: nat
  f_ops :: nat

record file_env =
  fe_seek :: "os_file \<Rightarrow> int64 \<Rightarrow> gerr option"
  fe_read :: "os_file \<Rightarrow> nat \<Rightarrow> gerr + nat"
  fe_write :: "os_file \<Rightarrow> byte list \<Rightarrow> gerr option \<times> nat"

definition file_op :: "os_file \<Rightarrow> os_file" where
  "file_op f = f\<lparr>f_ops := f_ops f + 1\<rparr>"

text \<open>The methods of \<open>os.File\<close> wrap the error of the system call in a \<open>PathError\<close>; EOF is no such
  error.\<close>

definition path_error :: "string \<Rightarrow> os_file \<Rightarrow> gerr \<Rightarrow> gerr" where
  "path_error op f err = errorf_w (op @ '' '' @ f_name f @ '': '') err []"

text \<open>\<open>f.Seek(offset, io.SeekStart)\<close>; a negative offset is EINVAL.\<close>

definition file_Seek :: "file_env \<Rightarrow> int64 \<Rightarrow> os_file \<Rightarrow> gerr option \<times> os_file" where
  "file_Seek env offset f =
     (if sint offset < 0 then (Some (path_error ''seek'' f (Plain ''invalid argument'')), file_op f)
      else (case fe_seek env f offset of
              Some err \<Rightarrow> (Some (path_error ''seek'' f err), file_op f)
            | None \<Rightarrow> (None, (file_op f)\<lparr>f_pos := nat (sint offset)\<rparr>)))"

definition file_Read :: "file_env \<Rightarrow> nat \<Rightarrow> os_file \<Rightarrow> (byte list \<times> gerr option) \<times> os_file" where
  "file_Read env n f =
     (if n = 0 then (([], None), file_op f)
      else (case fe_read env f n of
              Inl err \<Rightarrow> (([], Some (path_error ''read'' f err)), file_op f)
            | Inr k \<Rightarrow>
                let avail = length (f_data f) - f_pos f; m = min (max 1 k) (min n avail) in
                if avail = 0 then (([], Some (Sentinel IoEOF)), file_op f)
                else ((take m (drop (f_pos f) (f_data f)), None),
                      (file_op f)\<lparr>f_pos := f_pos f + m\<rparr>)))"

definition write_at :: "byte list \<Rightarrow> nat \<Rightarrow> byte list \<Rightarrow> byte list" where
  "write_at data pos bs =
     (if bs = [] then data
      else take pos (data @ replicate (pos - length data) 0) @ bs @ drop (pos + length bs) data)"

definition file_Write :: "file_env \<Rightarrow> byte list \<Rightarrow> os_file \<Rightarrow> gerr option \<times> os_file" where
  "file_Write env bs f =
     (let (err, k) = fe_write env f bs; done = (if err = None then bs else take k bs) in
      (map_option (path_error ''write'' f) err, (file_op f)\<lparr>f_data := write_at (f_data f) (f_pos f) done,
                        f_pos := f_pos f + length done\<rparr>))"

subsection \<open>\<open>VerifierEmitter\<close>\<close>

record verifier =
  SourceDevice :: os_file
  TargetDevice :: os_file

definition chunkSize :: nat where "chunkSize = 1024 * 1024"

definition seek_error :: "string \<Rightarrow> string \<Rightarrow> int \<Rightarrow> gerr \<Rightarrow> gerr" where
  "seek_error which name offset err =
     Wrapped (sentinel_text ErrFailedToSeek @ '' ('' @ which @ '' device('' @ quote name @
       ''), offset('' @ int_dec offset @ '')): '' @ error_text err) [Sentinel ErrFailedToSeek, err]"

lemma file_Read_advances:
  assumes "file_Read env n f = ((bs, None), g)" "0 < n"
  shows "f_pos f < length (f_data f) \<and> f_pos f < f_pos g \<and> f_data g = f_data f"
  using assms by (auto simp: file_Read_def file_op_def Let_def split: sum.splits if_splits)

text \<open>
  The loop of \<open>copyBlock\<close>. The buffer has the size of a chunk until less than a chunk remains,
  and from then on the size of what remains; \<open>written\<close> counts the bytes read, so it stays
  between 0 and the size and its \<open>int64\<close> arithmetic does not wrap.
\<close>

function copy_loop :: "file_env \<Rightarrow> int64 \<Rightarrow> int \<Rightarrow> verifier \<Rightarrow> gerr option \<times> verifier" where
  "copy_loop env sizeBytes written v =
     (if written < sint sizeBytes
      then (let remaining = sint sizeBytes - written;
                buffer = (if remaining < int chunkSize then nat remaining else chunkSize) in
            case file_Read env buffer (SourceDevice v) of ((sourceBytes, sourceErr), src) \<Rightarrow>
              (if sourceErr \<noteq> None \<and> sourceErr \<noteq> Some (Sentinel IoEOF)
               then (Some (errorf_w (''failed to read from source device('' @ quote (f_name src) @ ''): '')
                        (the sourceErr) []), v\<lparr>SourceDevice := src\<rparr>)
               else case file_Write env sourceBytes (TargetDevice v) of (targetErr, tgt) \<Rightarrow>
                 (let v1 = v\<lparr>SourceDevice := src, TargetDevice := tgt\<rparr> in
                  if targetErr \<noteq> None
                  then (Some (errorf_w (''failed to write to target device('' @ quote (f_name tgt) @ ''): '')
                           (the targetErr) []), v1)
                  else if sourceErr = Some (Sentinel IoEOF) then (None, v1)
                  else copy_loop env sizeBytes (written + int (length sourceBytes)) v1)))
      else (None, v))"
  by pat_completeness auto
termination
proof (relation "measure (\<lambda>(env, size, written, v). length (f_data (SourceDevice v)) - f_pos (SourceDevice v))",
    simp)
  fix env size written v remaining buffer q src bs err p targetErr tgt v1
  assume w: "written < sint (size :: int64)" and b: "remaining = sint size - written"
      "buffer = (if remaining < int chunkSize then nat remaining else chunkSize)"
    and r: "(q, src) = file_Read env buffer (SourceDevice v)" "(bs, err) = q"
    and e: "\<not> (err \<noteq> None \<and> err \<noteq> Some (Sentinel IoEOF))" "err \<noteq> Some (Sentinel IoEOF)"
    and v1: "v1 = v\<lparr>SourceDevice := src, TargetDevice := tgt\<rparr>"
  have "0 < buffer" using w b by (simp add: chunkSize_def)
  moreover have "file_Read env buffer (SourceDevice v) = ((bs, None), src)" using r e by auto
  ultimately show "((env, size, written + int (length bs), v1), env, size, written, v)
      \<in> measure (\<lambda>(env, size, written, v). length (f_data (SourceDevice v)) - f_pos (SourceDevice v))"
    using file_Read_advances [of env buffer "SourceDevice v" bs src] v1 by auto
qed

declare copy_loop.simps [simp del]

definition copyBlock :: "file_env \<Rightarrow> block_metadata \<Rightarrow> verifier \<Rightarrow> gerr option \<times> verifier" where
  "copyBlock env bmd v =
     (case file_Seek env (byte_offset bmd) (SourceDevice v) of
        (Some err, src) \<Rightarrow>
          (Some (seek_error ''source'' (f_name src) (sint (byte_offset bmd)) err), v\<lparr>SourceDevice := src\<rparr>)
      | (None, src) \<Rightarrow>
     (case file_Seek env (byte_offset bmd) (TargetDevice v) of
        (Some err, tgt) \<Rightarrow>
          (Some (seek_error ''target'' (f_name tgt) (sint (byte_offset bmd)) err),
           v\<lparr>SourceDevice := src, TargetDevice := tgt\<rparr>)
      | (None, tgt) \<Rightarrow>
          copy_loop env (size_bytes bmd) 0 (v\<lparr>SourceDevice := src, TargetDevice := tgt\<rparr>)))"

fun copy_blocks :: "file_env \<Rightarrow> block_metadata list \<Rightarrow> verifier \<Rightarrow> gerr option \<times> verifier" where
  "copy_blocks env [] v = (None, v)"
| "copy_blocks env (bmd # bmds) v =
     (case copyBlock env bmd v of
        (Some err, v1) \<Rightarrow> (Some err, v1)
      | (None, v1) \<Rightarrow> copy_blocks env bmds v1)"

definition VerifierEmitter_Record ::
  "file_env \<Rightarrow> int64 \<Rightarrow> iterator_metadata \<Rightarrow> verifier \<Rightarrow> gerr option \<times> verifier" where
  "VerifierEmitter_Record env n metadata v = copy_blocks env (im_BlockMetadata metadata) v"

text \<open>\<open>%q\<close> of an error that may be nil.\<close>

definition quote_error :: "gerr option \<Rightarrow> string" where
  "quote_error e = (case e of None \<Rightarrow> ''%!q(<nil>)'' | Some err \<Rightarrow> quote (error_text err))"

function compare_loop :: "file_env \<Rightarrow> verifier \<Rightarrow> gerr option \<times> verifier" where
  "compare_loop env v =
     (case file_Read env chunkSize (SourceDevice v) of ((sourceBytes, sourceErr), src) \<Rightarrow>
     (case file_Read env chunkSize (TargetDevice v) of ((targetBytes, targetErr), tgt) \<Rightarrow>
       (let v1 = v\<lparr>SourceDevice := src, TargetDevice := tgt\<rparr> in
        if sourceErr \<noteq> None \<or> targetErr \<noteq> None
        then (if sourceErr = Some (Sentinel IoEOF) \<and> targetErr = Some (Sentinel IoEOF) then (None, v1)
              else if sourceErr = Some (Sentinel IoEOF) \<or> targetErr = Some (Sentinel IoEOF)
              then (Some (Sentinel ErrContentsDoNotMatch), v1)
              else (Some (Plain (''error reading source and target device contents: source('' @
                      quote_error sourceErr @ '') target('' @ quote_error targetErr @ '')'')), v1))
        else if length sourceBytes \<noteq> length targetBytes \<or> sourceBytes \<noteq> targetBytes
        then (Some (Sentinel ErrContentsDoNotMatch), v1)
        else compare_loop env v1)))"
  by pat_completeness auto
termination
proof (relation "measure (\<lambda>(env, v). length (f_data (SourceDevice v)) - f_pos (SourceDevice v))", simp)
  fix env v q src bs err p tgt ct terr v1
  assume r: "(q, src) = file_Read env chunkSize (SourceDevice v)" "(bs, err) = q"
    and e: "\<not> (err \<noteq> None \<or> terr \<noteq> None)" and v1: "v1 = v\<lparr>SourceDevice := src, TargetDevice := tgt\<rparr>"
  have "file_Read env chunkSize (SourceDevice v) = ((bs, None), src)" using r e by auto
  with v1 show "((env, v1), env, v)
      \<in> measure (\<lambda>(env, v). length (f_data (SourceDevice v)) - f_pos (SourceDevice v))"
    using file_Read_advances [of env chunkSize "SourceDevice v" bs src] by (auto simp: chunkSize_def)
qed

declare compare_loop.simps [simp del]

definition VerifierEmitter_Done :: "file_env \<Rightarrow> int64 \<Rightarrow> verifier \<Rightarrow> gerr option \<times> verifier" where
  "VerifierEmitter_Done env n v =
     (case file_Seek env 0 (SourceDevice v) of
        (Some err, src) \<Rightarrow> (Some (seek_error ''source'' (f_name src) 0 err), v\<lparr>SourceDevice := src\<rparr>)
      | (None, src) \<Rightarrow>
     (case file_Seek env 0 (TargetDevice v) of
        (Some err, tgt) \<Rightarrow> (Some (seek_error ''target'' (f_name tgt) 0 err),
          v\<lparr>SourceDevice := src, TargetDevice := tgt\<rparr>)
      | (None, tgt) \<Rightarrow> compare_loop env (v\<lparr>SourceDevice := src, TargetDevice := tgt\<rparr>)))"

definition VerifierEmitter :: "file_env \<Rightarrow> verifier emitter_ops" where
  "VerifierEmitter env = \<lparr>SnapshotMetadataIteratorRecord = VerifierEmitter_Record env,
     SnapshotMetadataIteratorDone = VerifierEmitter_Done env\<rparr>"

subsection \<open>Lemmas\<close>

lemma path_error_not_EOF [simp]: "path_error op f err \<noteq> Sentinel s"
  by (simp add: path_error_def)

lemma file_op_simps [simp]:
  "f_data (file_op f) = f_data f" "f_pos (file_op f) = f_pos f" "f_name (file_op f) = f_name f"
  by (simp_all add: file_op_def)

lemma file_Seek_cases:
  assumes "file_Seek env off f = (r, g)"
  obtains (error) err where "r = Some err" "f_data g = f_data f"
  | (ok) "r = None" "0 \<le> sint off" "f_data g = f_data f" "f_pos g = nat (sint off)"
  using assms by (auto simp: file_Seek_def split: if_splits option.splits)

lemma file_Read_cases:
  assumes "file_Read env n f = ((bs, r), g)" "0 < n"
  obtains (error) err where "bs = []" "r = Some err" "err \<noteq> Sentinel IoEOF" "f_data g = f_data f"
      "f_pos g = f_pos f"
  | (eof) "bs = []" "r = Some (Sentinel IoEOF)" "length (f_data f) \<le> f_pos f" "f_data g = f_data f"
      "f_pos g = f_pos f"
  | (ok) m where "r = None" "0 < m" "m \<le> n" "f_pos f + m \<le> length (f_data f)"
      "bs = take m (drop (f_pos f) (f_data f))" "f_data g = f_data f" "f_pos g = f_pos f + m"
proof (cases "fe_read env f n")
  case (Inl err)
  with assms show ?thesis by (intro error) (auto simp: file_Read_def)
next
  case (Inr k)
  show ?thesis
  proof (cases "length (f_data f) \<le> f_pos f")
    case True
    with Inr assms show ?thesis by (intro eof) (auto simp: file_Read_def)
  next
    case False
    with Inr assms show ?thesis
      by (intro ok [of "min (max 1 k) (min n (length (f_data f) - f_pos f))"])
        (auto simp: file_Read_def Let_def)
  qed
qed

lemma length_read: "f_pos f + m \<le> length (f_data f) \<Longrightarrow> length (take m (drop (f_pos f) (f_data f))) = m"
  by simp

lemma copy_loop_source:
  "f_data (SourceDevice (snd (copy_loop env sz written v))) = f_data (SourceDevice v)"
proof (induction env sz written v rule: copy_loop.induct)
  case (1 env sz written v)
  define buffer where "buffer = (if sint sz - written < int chunkSize
    then nat (sint sz - written) else chunkSize)"
  obtain bs err src where read: "file_Read env buffer (SourceDevice v) = ((bs, err), src)"
    by (metis prod.exhaust)
  have data: "f_data src = f_data (SourceDevice v)"
    using read by (auto simp: file_Read_def Let_def split: if_splits sum.splits)
  obtain terr tgt where wr: "file_Write env bs (TargetDevice v) = (terr, tgt)" by fastforce
  show ?case
  proof (cases "written < sint sz \<and> err = None \<and> terr = None")
    case True
    with read wr data 1 show ?thesis
      by (subst copy_loop.simps) (simp add: Let_def buffer_def [symmetric])
  next
    case False
    with read wr data show ?thesis
      by (subst copy_loop.simps) (auto simp: Let_def buffer_def [symmetric])
  qed
qed

lemma copyBlock_source: "f_data (SourceDevice (snd (copyBlock env b v))) = f_data (SourceDevice v)"
proof -
  obtain r1 src where s: "file_Seek env (byte_offset b) (SourceDevice v) = (r1, src)" by fastforce
  obtain r2 tgt where t: "file_Seek env (byte_offset b) (TargetDevice v) = (r2, tgt)" by fastforce
  have "f_data src = f_data (SourceDevice v)" using s by (cases rule: file_Seek_cases) simp_all
  with s t show ?thesis by (simp add: copyBlock_def copy_loop_source split: option.split)
qed

lemma copy_blocks_source: "f_data (SourceDevice (snd (copy_blocks env bs v))) = f_data (SourceDevice v)"
proof (induction bs arbitrary: v)
  case (Cons b bs)
  obtain r v1 where "copyBlock env b v = (r, v1)" by fastforce
  with Cons.IH [of v1] copyBlock_source [of env b v] show ?case by (simp split: option.split)
qed simp

lemma compare_loop_sound:
  assumes "compare_loop env v = (None, v')" "f_pos (SourceDevice v) = f_pos (TargetDevice v)"
    "take (f_pos (SourceDevice v)) (f_data (SourceDevice v)) =
     take (f_pos (SourceDevice v)) (f_data (TargetDevice v))"
  shows "f_data (TargetDevice v) = f_data (SourceDevice v) \<and>
    f_data (TargetDevice v') = f_data (TargetDevice v) \<and> f_data (SourceDevice v') = f_data (SourceDevice v)"
  using assms
proof (induction env v rule: compare_loop.induct)
  case (1 env v)
  let ?s = "SourceDevice v" and ?t = "TargetDevice v"
  obtain bs err src where s: "file_Read env chunkSize ?s = ((bs, err), src)" by (metis prod.exhaust)
  obtain ct terr tgt where t: "file_Read env chunkSize ?t = ((ct, terr), tgt)" by (metis prod.exhaust)
  let ?v1 = "v\<lparr>SourceDevice := src, TargetDevice := tgt\<rparr>"
  have pos: "0 < chunkSize" by (simp add: chunkSize_def)
  note run = "1.prems"(1) [unfolded compare_loop.simps [of env v], simplified s t, simplified]
  show ?case
  proof (cases "err = None \<and> terr = None")
    case True
    with run have eq: "bs = ct" and rec: "compare_loop env ?v1 = (None, v')"
      by (auto simp: Let_def split: if_splits)
    from s pos True obtain m where m: "f_pos ?s + m \<le> length (f_data ?s)"
        "bs = take m (drop (f_pos ?s) (f_data ?s))" "f_data src = f_data ?s" "f_pos src = f_pos ?s + m"
      by (cases rule: file_Read_cases) auto
    from t pos True obtain k where k: "f_pos ?t + k \<le> length (f_data ?t)"
        "ct = take k (drop (f_pos ?t) (f_data ?t))" "f_data tgt = f_data ?t" "f_pos tgt = f_pos ?t + k"
      by (cases rule: file_Read_cases) auto
    have "m = k" using eq m k length_read [of ?s m] length_read [of ?t k] by metis
    then have "take (f_pos src) (f_data src) = take (f_pos src) (f_data tgt)" "f_pos src = f_pos tgt"
      using "1.prems"(2,3) m k eq by (auto simp: take_add)
    with "1.IH" [OF s [symmetric] refl t [symmetric] refl refl] rec True eq m k show ?thesis by simp
  next
    case False
    with run have "err = Some (Sentinel IoEOF)" "terr = Some (Sentinel IoEOF)" "v' = ?v1"
      by (auto simp: Let_def split: if_splits)
    with s t pos have "length (f_data ?s) \<le> f_pos ?s" "length (f_data ?t) \<le> f_pos ?t"
        "f_data src = f_data ?s" "f_data tgt = f_data ?t"
      by (auto elim!: file_Read_cases)
    with "1.prems"(2,3) \<open>v' = ?v1\<close> show ?thesis by simp
  qed
qed

lemma VerifierEmitter_Done_sound:
  assumes "VerifierEmitter_Done env n v = (None, v')"
  shows "f_data (TargetDevice v') = f_data (SourceDevice v) \<and> f_data (TargetDevice v) = f_data (SourceDevice v)"
proof -
  obtain r1 src where s: "file_Seek env 0 (SourceDevice v) = (r1, src)" by fastforce
  obtain r2 tgt where t: "file_Seek env 0 (TargetDevice v) = (r2, tgt)" by fastforce
  let ?v1 = "v\<lparr>SourceDevice := src, TargetDevice := tgt\<rparr>"
  from assms s t have "r1 = None" "r2 = None" and c: "compare_loop env ?v1 = (None, v')"
    by (auto simp: VerifierEmitter_Done_def split: option.splits)
  with s t have "f_data src = f_data (SourceDevice v)" "f_data tgt = f_data (TargetDevice v)"
      "f_pos src = 0" "f_pos tgt = 0" by (auto elim!: file_Seek_cases)
  with compare_loop_sound [OF c] show ?thesis by simp
qed

interpretation verifier: iterator_emitter "VerifierEmitter env" "\<lambda>v. True"
  "\<lambda>v0 ms v. f_data (SourceDevice v) = f_data (SourceDevice v0)"
  "\<lambda>v0 ms v. f_data (TargetDevice v) = f_data (SourceDevice v0)" for env
proof unfold_locales
  fix v0 v v' :: verifier and ms m
  assume v: "f_data (SourceDevice v) = f_data (SourceDevice v0)"
  show "f_data (SourceDevice v') = f_data (SourceDevice v0)"
    if "SnapshotMetadataIteratorRecord (VerifierEmitter env) (of_nat (length ms) + 1) m v = (None, v')"
    using that v copy_blocks_source [of env "im_BlockMetadata m" v]
    by (simp add: VerifierEmitter_def VerifierEmitter_Record_def)
  show "f_data (TargetDevice v') = f_data (SourceDevice v0)"
    if "SnapshotMetadataIteratorDone (VerifierEmitter env) (of_nat (length ms)) v = (None, v')"
    using that v VerifierEmitter_Done_sound [of env "of_nat (length ms)" v v']
    by (simp add: VerifierEmitter_def)
qed simp

subsection \<open>Devices that work\<close>

text \<open>No system call fails and reads are as long as they can be, as on block devices.\<close>

definition reliable :: "file_env \<Rightarrow> bool" where
  "reliable env \<longleftrightarrow> (\<forall>f off. fe_seek env f off = None) \<and> (\<forall>f n. fe_read env f n = Inr n) \<and>
     (\<forall>f bs. fe_write env f bs = (None, length bs))"

lemma reliable_Seek:
  "reliable env \<Longrightarrow> 0 \<le> sint off \<Longrightarrow> file_Seek env off f = (None, (file_op f)\<lparr>f_pos := nat (sint off)\<rparr>)"
  by (simp add: reliable_def file_Seek_def)

lemma reliable_Read:
  assumes "reliable env" "0 < n"
  shows "file_Read env n f =
    (if length (f_data f) \<le> f_pos f then (([], Some (Sentinel IoEOF)), file_op f)
     else ((take n (drop (f_pos f) (f_data f)), None),
           (file_op f)\<lparr>f_pos := f_pos f + min n (length (f_data f) - f_pos f)\<rparr>))"
  using assms by (auto simp: reliable_def file_Read_def Let_def min_def)

lemma reliable_Write:
  "reliable env \<Longrightarrow> file_Write env bs f =
     (None, (file_op f)\<lparr>f_data := write_at (f_data f) (f_pos f) bs, f_pos := f_pos f + length bs\<rparr>)"
  by (simp add: reliable_def file_Write_def)

lemma write_at_Nil [simp]: "write_at d q [] = d"
  by (simp add: write_at_def)

lemma write_at_append: "write_at (write_at d q a) (q + length a) b = write_at d q (a @ b)"
proof (cases "a = [] \<or> b = []")
  case False
  let ?p = "take q (d @ replicate (q - length d) 0)"
  have p: "length ?p = q" by simp
  have w: "write_at d q a = ?p @ a @ drop (q + length a) d" using False by (simp add: write_at_def)
  have "take (q + length a) (?p @ a @ drop (q + length a) d) = ?p @ a"
    using p by simp
  moreover have "drop (q + length a + length b) (?p @ a @ drop (q + length a) d) =
      drop (q + length (a @ b)) d" using p by (simp add: drop_drop ac_simps)
  moreover have "q + length a - length (?p @ a @ drop (q + length a) d) = 0" using p by simp
  ultimately show ?thesis using False unfolding w by (simp add: write_at_def)
qed auto

lemma copy_loop_reliable:
  assumes "reliable env"
  shows "\<exists>v'. copy_loop env sz written v = (None, v') \<and>
    f_data (TargetDevice v') = write_at (f_data (TargetDevice v)) (f_pos (TargetDevice v))
      (take (nat (sint sz - written)) (drop (f_pos (SourceDevice v)) (f_data (SourceDevice v))))"
  using assms
proof (induction env sz written v rule: copy_loop.induct)
  case (1 env sz written v)
  let ?s = "SourceDevice v" and ?t = "TargetDevice v"
  let ?n = "nat (sint sz - written)"
  define buffer where "buffer = (if sint sz - written < int chunkSize then nat (sint sz - written) else chunkSize)"
  show ?case
  proof (cases "written < sint sz")
    case False
    then show ?thesis by (subst copy_loop.simps) simp
  next
    case True
    then have b: "0 < buffer" "buffer \<le> ?n" by (auto simp: buffer_def chunkSize_def)
    show ?thesis
    proof (cases "length (f_data ?s) \<le> f_pos ?s")
      case eof: True
      with True b 1(2) show ?thesis
        by (subst copy_loop.simps)
          (simp add: Let_def buffer_def [symmetric] reliable_Read reliable_Write)
    next
      case False
      let ?bs = "take buffer (drop (f_pos ?s) (f_data ?s))"
      let ?src = "(file_op ?s)\<lparr>f_pos := f_pos ?s + min buffer (length (f_data ?s) - f_pos ?s)\<rparr>"
      let ?tgt = "(file_op ?t)\<lparr>f_data := write_at (f_data ?t) (f_pos ?t) ?bs, f_pos := f_pos ?t + length ?bs\<rparr>"
      let ?v1 = "v\<lparr>SourceDevice := ?src, TargetDevice := ?tgt\<rparr>"
      have read: "file_Read env buffer ?s = ((?bs, None), ?src)"
        using reliable_Read [OF 1(2) b(1)] False by simp
      have wr: "file_Write env ?bs ?t = (None, ?tgt)" using reliable_Write [OF 1(2)] .
      have step: "copy_loop env sz written v = copy_loop env sz (written + int (length ?bs)) ?v1"
        using True read wr by (subst copy_loop.simps) (simp add: Let_def buffer_def [symmetric])
      obtain v' where v': "copy_loop env sz (written + int (length ?bs)) ?v1 = (None, v')"
          "f_data (TargetDevice v') = write_at (f_data ?tgt) (f_pos ?tgt)
             (take (nat (sint sz - (written + int (length ?bs)))) (drop (f_pos ?src) (f_data ?src)))"
        using 1(1) [OF True refl buffer_def read [symmetric] refl _ wr [symmetric] refl] 1(2) by auto
      let ?k = "length ?bs"
      have k: "?k \<le> ?n" "f_pos ?src = f_pos ?s + ?k" using b by auto
      have "nat (sint sz - (written + int ?k)) = ?n - ?k" by simp
      moreover have "?bs @ take (?n - ?k) (drop (f_pos ?s + ?k) (f_data ?s)) =
          take ?n (drop (f_pos ?s) (f_data ?s))"
      proof (cases "buffer \<le> length (f_data ?s) - f_pos ?s")
        case True
        then have "?k = buffer" by simp
        then show ?thesis using b take_add [of buffer "?n - buffer" "drop (f_pos ?s) (f_data ?s)"]
          by (simp add: add.commute)
      next
        case False
        then show ?thesis using b by simp
      qed
      ultimately have "f_data (TargetDevice v') = write_at (f_data ?t) (f_pos ?t)
          (take ?n (drop (f_pos ?s) (f_data ?s)))"
        using v'(2) k(2) write_at_append [of "f_data ?t" "f_pos ?t" ?bs] by simp
      with step v'(1) show ?thesis by simp
    qed
  qed
qed

lemma take_length_take: "take (length (take n xs)) xs = take n xs"
  by (metis append_eq_conv_conj append_take_drop_id)

definition block_bytes :: "byte list \<Rightarrow> block_metadata \<Rightarrow> byte list" where
  "block_bytes data b = take (nat (sint (size_bytes b))) (drop (nat (sint (byte_offset b))) data)"

definition covered :: "block_metadata list \<Rightarrow> nat \<Rightarrow> bool" where
  "covered bs i \<longleftrightarrow> (\<exists>b \<in> set bs. sint (byte_offset b) \<le> int i \<and>
     int i < sint (byte_offset b) + sint (size_bytes b))"

lemma copyBlock_reliable:
  assumes "reliable env" "0 \<le> sint (byte_offset b)"
  shows "\<exists>v'. copyBlock env b v = (None, v') \<and> f_data (SourceDevice v') = f_data (SourceDevice v) \<and>
    f_data (TargetDevice v') = write_at (f_data (TargetDevice v)) (nat (sint (byte_offset b)))
      (block_bytes (f_data (SourceDevice v)) b)"
proof -
  let ?src = "(file_op (SourceDevice v))\<lparr>f_pos := nat (sint (byte_offset b))\<rparr>"
  let ?tgt = "(file_op (TargetDevice v))\<lparr>f_pos := nat (sint (byte_offset b))\<rparr>"
  let ?v1 = "v\<lparr>SourceDevice := ?src, TargetDevice := ?tgt\<rparr>"
  obtain v' where v': "copy_loop env (size_bytes b) 0 ?v1 = (None, v')"
      "f_data (TargetDevice v') = write_at (f_data ?tgt) (f_pos ?tgt)
        (take (nat (sint (size_bytes b) - 0)) (drop (f_pos ?src) (f_data ?src)))"
    using copy_loop_reliable [OF assms(1), of "size_bytes b" 0 ?v1] by auto
  have "f_data (SourceDevice v') = f_data (SourceDevice v)"
    using copy_loop_source [of env "size_bytes b" 0 ?v1] v'(1) by simp
  with v' assms show ?thesis
    by (simp add: copyBlock_def reliable_Seek block_bytes_def)
qed

lemma write_at_image:
  fixes b :: block_metadata
  assumes "length t = length s" "0 \<le> sint (byte_offset b)"
  shows "length (write_at t (nat (sint (byte_offset b))) (block_bytes s b)) = length s \<and>
    (\<forall>i < length s. write_at t (nat (sint (byte_offset b))) (block_bytes s b) ! i =
       (if covered [b] i then s ! i else t ! i))"
proof -
  define p where "p = nat (sint (byte_offset b))"
  define n where "n = nat (sint (size_bytes b))"
  have cov: "covered [b] i \<longleftrightarrow> p \<le> i \<and> i < p + n" for i
    using assms(2) unfolding covered_def p_def n_def by auto
  have bb: "block_bytes s b = take n (drop p s)" by (simp add: block_bytes_def p_def n_def)
  show ?thesis
  proof (cases "take n (drop p s) = []")
    case True
    then have none: "n = 0 \<or> length s \<le> p" by simp
    have "write_at t p (block_bytes s b) = t" unfolding bb True by simp
    moreover have "\<not> covered [b] i" if "i < length s" for i
      using none that by (simp add: cov) linarith
    ultimately show ?thesis unfolding p_def [symmetric] using assms(1) by simp
  next
    case False
    then have p: "p < length s" by auto
    let ?k = "min n (length s - p)"
    have w: "write_at t p (block_bytes s b) = take p t @ take n (drop p s) @ drop (p + ?k) t"
      using False p assms(1) by (simp add: write_at_def bb min.commute)
    have "length (write_at t p (block_bytes s b)) = length s" using w p assms(1) by simp
    moreover have "write_at t p (block_bytes s b) ! i = (if covered [b] i then s ! i else t ! i)"
      if i: "i < length s" for i
    proof -
      consider "i < p" | "p \<le> i" "i < p + ?k" | "p + ?k \<le> i" by linarith
      then show ?thesis
      proof cases
        case 1
        with w p assms(1) cov show ?thesis by (simp add: nth_append)
      next
        case 2
        then have "covered [b] i" "i - p < n" "i - p < length s - p" "\<not> i < p" using cov by auto
        with 2 w p assms(1) show ?thesis by (simp add: nth_append)
      next
        case 3
        then have "\<not> covered [b] i" using cov i by auto
        moreover have "write_at t p (block_bytes s b) ! i = t ! i"
        proof -
          have len: "length (take p t @ take n (drop p s)) = p + ?k"
            using p assms(1) by (simp add: min.commute)
          have "write_at t p (block_bytes s b) ! i = drop (p + ?k) t ! (i - (p + ?k))"
            unfolding w append_assoc [symmetric] nth_append len using 3 by simp
          also have "\<dots> = t ! i" using 3 i assms(1) by simp
          finally show ?thesis .
        qed
        ultimately show ?thesis by simp
      qed
    qed
    ultimately show ?thesis unfolding p_def [symmetric] by blast
  qed
qed

lemma copy_blocks_reliable:
  assumes "reliable env" "\<forall>b \<in> set bs. 0 \<le> sint (byte_offset b)"
    "length (f_data (TargetDevice v)) = length (f_data (SourceDevice v))"
  shows "\<exists>v'. copy_blocks env bs v = (None, v') \<and> f_data (SourceDevice v') = f_data (SourceDevice v) \<and>
    length (f_data (TargetDevice v')) = length (f_data (SourceDevice v)) \<and>
    (\<forall>i < length (f_data (SourceDevice v)). f_data (TargetDevice v') ! i =
       (if covered bs i then f_data (SourceDevice v) ! i else f_data (TargetDevice v) ! i))"
  using assms
proof (induction bs arbitrary: v)
  case Nil
  then show ?case by (simp add: covered_def)
next
  case (Cons b bs)
  let ?s = "f_data (SourceDevice v)" and ?t = "f_data (TargetDevice v)"
  have off: "0 \<le> sint (byte_offset b)" using Cons.prems(2) by simp
  obtain v1 where v1: "copyBlock env b v = (None, v1)" "f_data (SourceDevice v1) = ?s"
      "f_data (TargetDevice v1) = write_at ?t (nat (sint (byte_offset b))) (block_bytes ?s b)"
    using copyBlock_reliable [OF Cons.prems(1) off] by blast
  note image = write_at_image [OF Cons.prems(3) off]
  then obtain v' where v': "copy_blocks env bs v1 = (None, v')" "f_data (SourceDevice v') = ?s"
      "length (f_data (TargetDevice v')) = length ?s"
      "\<forall>i < length ?s. f_data (TargetDevice v') ! i =
        (if covered bs i then ?s ! i else f_data (TargetDevice v1) ! i)"
    using Cons.IH [of v1] Cons.prems v1 by auto
  have "covered (b # bs) i \<longleftrightarrow> covered bs i \<or> covered [b] i" for i by (auto simp: covered_def)
  with v' v1 image show ?case by simp
qed

lemma compare_loop_reliable:
  assumes "reliable env" "f_pos (SourceDevice v) = f_pos (TargetDevice v)"
    "take (f_pos (SourceDevice v)) (f_data (SourceDevice v)) =
     take (f_pos (SourceDevice v)) (f_data (TargetDevice v))"
  shows "fst (compare_loop env v) =
    (if f_data (TargetDevice v) = f_data (SourceDevice v) then None else Some (Sentinel ErrContentsDoNotMatch))"
  using assms
proof (induction env v rule: compare_loop.induct)
  case (1 env v)
  let ?s = "SourceDevice v" and ?t = "TargetDevice v"
  obtain bs err src where s: "file_Read env chunkSize ?s = ((bs, err), src)" by (metis prod.exhaust)
  obtain ct terr tgt where t: "file_Read env chunkSize ?t = ((ct, terr), tgt)" by (metis prod.exhaust)
  let ?v1 = "v\<lparr>SourceDevice := src, TargetDevice := tgt\<rparr>"
  have pos: "0 < chunkSize" by (simp add: chunkSize_def)
  note rs = reliable_Read [OF "1.prems"(1) pos, of ?s] and rt = reliable_Read [OF "1.prems"(1) pos, of ?t]
  have p: "f_pos ?t = f_pos ?s" using "1.prems"(2) by simp
  consider (both) "length (f_data ?s) \<le> f_pos ?s" "length (f_data ?t) \<le> f_pos ?s"
    | (one) "(length (f_data ?s) \<le> f_pos ?s) \<noteq> (length (f_data ?t) \<le> f_pos ?s)"
    | (none) "f_pos ?s < length (f_data ?s)" "f_pos ?s < length (f_data ?t)" by linarith
  then show ?case
  proof cases
    case both
    then have "f_data ?t = f_data ?s" using "1.prems"(3) by simp
    with both p rs rt show ?thesis by (subst compare_loop.simps) (simp add: Let_def)
  next
    case one
    then have "f_data ?t \<noteq> f_data ?s" by auto
    with one p rs rt show ?thesis by (subst compare_loop.simps) (auto simp: Let_def)
  next
    case none
    let ?bs = "take chunkSize (drop (f_pos ?s) (f_data ?s))"
    let ?ct = "take chunkSize (drop (f_pos ?s) (f_data ?t))"
    have ok: "err = None" "terr = None" "bs = ?bs" "ct = ?ct" "f_data src = f_data ?s" "f_data tgt = f_data ?t"
        "f_pos src = f_pos ?s + length bs" "f_pos tgt = f_pos ?s + length ct"
      using none s t rs rt p by (auto simp: min.commute)
    show ?thesis
    proof (cases "bs = ct")
      case False
      then have "f_data ?t \<noteq> f_data ?s" using ok by auto
      with False ok s t show ?thesis by (subst compare_loop.simps) (auto simp: Let_def)
    next
      case True
      have step: "compare_loop env v = compare_loop env ?v1"
        using True ok s t by (subst compare_loop.simps) (simp add: Let_def)
      have "take (length bs) (drop (f_pos ?s) (f_data ?s)) = take (length bs) (drop (f_pos ?s) (f_data ?t))"
      proof -
        have "take (length bs) (drop (f_pos ?s) (f_data ?s)) = bs"
          unfolding ok(3) by (rule take_length_take)
        moreover have "take (length ct) (drop (f_pos ?s) (f_data ?t)) = ct"
          unfolding ok(4) by (rule take_length_take)
        ultimately show ?thesis unfolding True by simp
      qed
      then have "take (f_pos ?s + length bs) (f_data ?s) = take (f_pos ?s + length bs) (f_data ?t)"
        using "1.prems"(3) by (simp add: take_add)
      then have "take (f_pos src) (f_data src) = take (f_pos src) (f_data tgt)" "f_pos src = f_pos tgt"
        using ok(5-8) True by simp_all
      then have "fst (compare_loop env ?v1) = (if f_data ?t = f_data ?s then None
          else Some (Sentinel ErrContentsDoNotMatch))"
        using "1.IH" [OF s [symmetric] refl t [symmetric] refl refl] ok(1,2,5,6) True "1.prems"(1) by simp
      with step show ?thesis by simp
    qed
  qed
qed

lemma VerifierEmitter_Done_reliable:
  assumes "reliable env"
  shows "fst (VerifierEmitter_Done env n v) =
    (if f_data (TargetDevice v) = f_data (SourceDevice v) then None
     else Some (Sentinel ErrContentsDoNotMatch))"
proof -
  let ?v1 = "v\<lparr>SourceDevice := (file_op (SourceDevice v))\<lparr>f_pos := 0\<rparr>,
    TargetDevice := (file_op (TargetDevice v))\<lparr>f_pos := 0\<rparr>\<rparr>"
  have "VerifierEmitter_Done env n v = compare_loop env ?v1"
    using assms by (simp add: VerifierEmitter_Done_def reliable_Seek)
  with compare_loop_reliable [OF assms, of ?v1] show ?thesis by simp
qed

subsection \<open>Properties\<close>

text \<open>
  When a verification returns nil, the target device holds the bytes the source device held
  before it, byte for byte, whatever the operating system did in between (failures, short
  reads) and whatever the service sent.
\<close>
theorem VerifierEmitter_sound:
  assumes "GetSnapshotMetadata env (args\<lparr>Emitter := Some (VerifierEmitter fenv)\<rparr>) v = Some (Inr (), t)"
  shows "\<exists>msgs. enumerated env (args\<lparr>Emitter := Some (VerifierEmitter fenv)\<rparr>) (VerifierEmitter fenv) v msgs t \<and>
    (length msgs < 2 ^ 63 \<longrightarrow> f_data (TargetDevice (it_emitter t)) = f_data (SourceDevice v))"
proof -
  obtain msgs where m: "enumerated env (args\<lparr>Emitter := Some (VerifierEmitter fenv)\<rparr>) (VerifierEmitter fenv) v msgs t"
    using GetSnapshotMetadata_enumerates [OF assms] by auto
  with verifier.enumerated_post [OF m] show ?thesis by blast
qed

text \<open>
  C34. On devices of the same size that work, copying never fails and the verification decides
  whether the listed blocks cover the difference: \<open>SnapshotMetadataIteratorDone\<close> returns nil
  exactly when every byte on which the devices differ lies in a listed block, and
  ErrContentsDoNotMatch otherwise.
\<close>
theorem VerifierEmitter_decides:
  assumes "reliable env" "\<forall>b \<in> set bs. 0 \<le> sint (byte_offset b)"
    "length (f_data (TargetDevice v)) = length (f_data (SourceDevice v))"
  shows "\<exists>v'. copy_blocks env bs v = (None, v') \<and>
    fst (VerifierEmitter_Done env n v') =
      (if \<forall>i < length (f_data (SourceDevice v)).
            f_data (TargetDevice v) ! i \<noteq> f_data (SourceDevice v) ! i \<longrightarrow> covered bs i
       then None else Some (Sentinel ErrContentsDoNotMatch))"
proof -
  let ?s = "f_data (SourceDevice v)"
  obtain v' where v': "copy_blocks env bs v = (None, v')" "f_data (SourceDevice v') = ?s"
      "length (f_data (TargetDevice v')) = length ?s"
      "\<forall>i < length ?s. f_data (TargetDevice v') ! i =
        (if covered bs i then ?s ! i else f_data (TargetDevice v) ! i)"
    using copy_blocks_reliable [OF assms] by blast
  have eq: "f_data (TargetDevice v') = ?s \<longleftrightarrow>
      (\<forall>i < length ?s. f_data (TargetDevice v) ! i \<noteq> ?s ! i \<longrightarrow> covered bs i)"
    using v'(3,4) by (auto simp: list_eq_iff_nth_eq)
  show ?thesis using VerifierEmitter_Done_reliable [OF assms(1), of n v'] v'(1,2) eq by simp
qed

text \<open>
  \<open>copyBlock\<close> returns on every device, without an assumption on failures, with the source
  unchanged; on devices that work it writes exactly the bytes of the block that the source
  has, at the offset of the block, and a negative size copies nothing.
\<close>
theorem copyBlock_spec:
  "f_data (SourceDevice (snd (copyBlock env b v))) = f_data (SourceDevice v) \<and>
   (reliable env \<longrightarrow> 0 \<le> sint (byte_offset b) \<longrightarrow> fst (copyBlock env b v) = None \<and>
     f_data (TargetDevice (snd (copyBlock env b v))) =
       write_at (f_data (TargetDevice v)) (nat (sint (byte_offset b)))
         (take (nat (sint (size_bytes b))) (drop (nat (sint (byte_offset b))) (f_data (SourceDevice v)))))"
  using copyBlock_source copyBlock_reliable [of env b v] by (auto simp: block_bytes_def)

subsection \<open>Examples\<close>

definition file_env_example :: file_env where
  "file_env_example = \<lparr>fe_seek = \<lambda>f off. None, fe_read = \<lambda>f n. Inr n, fe_write = \<lambda>f bs. (None, length bs)\<rparr>"

lemma reliable_example: "reliable file_env_example"
  by (simp add: reliable_def file_env_example_def)

definition verifier_example :: "byte list \<Rightarrow> byte list \<Rightarrow> verifier" where
  "verifier_example src tgt =
     \<lparr>SourceDevice = \<lparr>f_name = ''src'', f_data = src, f_pos = 0, f_ops = 0\<rparr>,
      TargetDevice = \<lparr>f_name = ''tgt'', f_data = tgt, f_pos = 0, f_ops = 0\<rparr>\<rparr>"

theorem copyBlock_spec_witness:
  "f_data (TargetDevice (snd (copyBlock file_env_example \<lparr>byte_offset = 1, size_bytes = 2\<rparr>
     (verifier_example [1, 2, 3, 4] [0, 0, 0, 0])))) = [0, 2, 3, 0]"
  using copyBlock_spec [of file_env_example "\<lparr>byte_offset = 1, size_bytes = 2\<rparr>"
      "verifier_example [1, 2, 3, 4] [0, 0, 0, 0]"] reliable_example
  by (simp add: verifier_example_def write_at_def numeral_2_eq_2)

theorem VerifierEmitter_decides_witness:
  "\<exists>v'. copy_blocks file_env_example [\<lparr>byte_offset = 1, size_bytes = 2\<rparr>]
      (verifier_example [1, 2, 3, 4] [1, 0, 0, 4]) = (None, v') \<and>
    fst (VerifierEmitter_Done file_env_example 0 v') = None"
proof -
  let ?bs = "[\<lparr>byte_offset = 1, size_bytes = 2\<rparr>] :: block_metadata list"
  have c: "\<forall>i < 4. ([1, 0, 0, 4] :: byte list) ! i \<noteq> [1, 2, 3, 4] ! i \<longrightarrow> covered ?bs i"
    by (auto simp: covered_def less_Suc_eq numeral_eq_Suc)
  from VerifierEmitter_decides [OF reliable_example, of ?bs "verifier_example [1, 2, 3, 4] [1, 0, 0, 4]" 0] c
  show ?thesis by (simp add: verifier_example_def)
qed

theorem VerifierEmitter_sound_witness:
  "\<exists>t. GetSnapshotMetadata (iter_env_example\<lparr>ie_allocated := \<lambda>h req. Inr (\<lambda>n. RecvEOF)\<rparr>)
      ((iter_args_example (VerifierEmitter file_env_example))\<lparr>Emitter := Some (VerifierEmitter file_env_example)\<rparr>)
      (verifier_example [1, 2] [1, 2]) = Some (Inr (), t) \<and>
     f_data (TargetDevice (it_emitter t)) = [1, 2]"
proof -
  let ?env = "iter_env_example\<lparr>ie_allocated := \<lambda>h req. Inr (\<lambda>n. RecvEOF)\<rparr>"
  let ?args = "iter_args_example (VerifierEmitter file_env_example)"
  let ?v = "verifier_example [1, 2] [1, 2]"
  have "fst (VerifierEmitter_Done file_env_example 0 ?v) = None"
    using VerifierEmitter_Done_reliable [OF reliable_example] by (simp add: verifier_example_def)
  then obtain v' where "VerifierEmitter_Done file_env_example 0 ?v = (None, v')"
    by (metis prod.collapse)
  then obtain t where t: "GetSnapshotMetadata ?env (?args\<lparr>Emitter := Some (VerifierEmitter file_env_example)\<rparr>) ?v =
      Some (Inr (), t)"
    by (simp add: iterator_run_defs VerifierEmitter_def)
  from VerifierEmitter_sound [OF t] obtain msgs where
    m: "enumerated ?env (?args\<lparr>Emitter := Some (VerifierEmitter file_env_example)\<rparr>)
      (VerifierEmitter file_env_example) ?v msgs t"
    "length msgs < 2 ^ 63 \<longrightarrow> f_data (TargetDevice (it_emitter t)) = f_data (SourceDevice ?v)" by blast
  have "msgs = []"
    by (rule enumerated_msgs [OF m(1), where stream = "\<lambda>n. RecvEOF" and err = "StatusErr NotFound ''base''"])
      (simp_all add: iter_env_example_def received_def)
  moreover have "f_data (SourceDevice ?v) = [1, 2]" by (simp add: verifier_example_def)
  ultimately show ?thesis using t m(2) by simp
qed

end
