(* ===== verification/Tools.thy ===== *)
theory Tools
  imports Flags Emitters Verifier
begin

text \<open>
  The command line tools \<open>snapshot-metadata-lister\<close> and \<open>snapshot-metadata-verifier\<close> of \<open>tools\<close>: their
  flags, the client configuration and the whole of \<open>main\<close> up to the exit code. What the two have in
  common is stated once, over the record of the common flags that each of them extends. The
  environment holds the home directory, the files, the constructors of the clients, the
  servers that the iterator talks to, and the standard output.
\<close>

subsection \<open>Flags\<close>

record tool_flags =
  tf_Namespace :: string
  tf_SnapshotName :: string
  tf_PrevSnapshotID :: string
  tf_PrevSnapshotName :: string
  tf_kubeConfig :: string
  tf_SAName :: string
  tf_SANamespace :: string
  tf_TokenExpirySecs :: int64
  tf_StartingOffset :: int64
  tf_maxResults :: int64
  tf_showHelp :: bool

record lister_flags = tool_flags +
  outputFormat :: string

record verifier_flags = tool_flags +
  sourceDevicePath :: string
  targetDevicePath :: string

text \<open>\<open>stringFlag\<close>: a long and a short name for one variable.\<close>

definition stringFlag :: "string \<Rightarrow> string \<Rightarrow> (string \<Rightarrow> 'v \<Rightarrow> 'v) \<Rightarrow> 'v flag_def list" where
  "stringFlag longName shortName store = [flag_String longName store, flag_String shortName store]"

definition tool_flag_defs :: "'a tool_flags_scheme flag_def list" where
  "tool_flag_defs =
     stringFlag ''namespace'' ''n'' (\<lambda>x v. v\<lparr>tf_Namespace := x\<rparr>) @
     stringFlag ''snapshot'' ''s'' (\<lambda>x v. v\<lparr>tf_SnapshotName := x\<rparr>) @
     stringFlag ''previous-snapshot-id'' ''P'' (\<lambda>x v. v\<lparr>tf_PrevSnapshotID := x\<rparr>) @
     stringFlag ''previous-snapshot'' ''p'' (\<lambda>x v. v\<lparr>tf_PrevSnapshotName := x\<rparr>) @
     [flag_String ''kubeconfig'' (\<lambda>x v. v\<lparr>tf_kubeConfig := x\<rparr>),
      flag_String ''service-account'' (\<lambda>x v. v\<lparr>tf_SAName := x\<rparr>),
      flag_String ''service-account-namespace'' (\<lambda>x v. v\<lparr>tf_SANamespace := x\<rparr>),
      flag_Int ''token-expiry'' (\<lambda>x v. v\<lparr>tf_TokenExpirySecs := x\<rparr>),
      flag_Int ''starting-offset'' (\<lambda>x v. v\<lparr>tf_StartingOffset := x\<rparr>),
      flag_Int ''max-results'' (\<lambda>x v. v\<lparr>tf_maxResults := x\<rparr>),
      flag_Bool ''h'' (\<lambda>x v. v\<lparr>tf_showHelp := x\<rparr>)]"

definition lister_flag_defs :: "lister_flags flag_def list" where
  "lister_flag_defs = tool_flag_defs @
     stringFlag ''output-format'' ''o'' (\<lambda>x v. v\<lparr>outputFormat := x\<rparr>)"

definition verifier_flag_defs :: "verifier_flags flag_def list" where
  "verifier_flag_defs = tool_flag_defs @
     stringFlag ''source-device-path'' ''src'' (\<lambda>x v. v\<lparr>sourceDevicePath := x\<rparr>) @
     stringFlag ''target-device-path'' ''tgt'' (\<lambda>x v. v\<lparr>targetDevicePath := x\<rparr>)"

subsection \<open>Environment\<close>

record ('cfg, 'h) tool_env =
  te_HomeDir :: string
  te_JoinKubeConfig :: "string \<Rightarrow> string"
  te_Stat :: "string \<Rightarrow> bool"
  te_BuildConfigFromFlags :: "string \<Rightarrow> gerr + 'cfg"
  te_InClusterConfig :: "gerr + 'cfg"
  te_packages :: "('cfg, 'h) client_packages"
  te_servers :: iter_env
  te_stdout :: "string \<Rightarrow> string \<times> bool"

record ('cfg, 'h) verifier_env = "('cfg, 'h) tool_env" +
  te_Open :: "string \<Rightarrow> gerr + os_file"
  te_OpenRDWR :: "string \<Rightarrow> gerr + os_file"
  te_system :: file_env

definition kubeConfig_default :: "('cfg, 'h, 'a) tool_env_scheme \<Rightarrow> string" where
  "kubeConfig_default env = (if te_HomeDir env \<noteq> '''' then te_JoinKubeConfig env (te_HomeDir env) else '''')"

definition lister_defaults :: "('cfg, 'h, 'a) tool_env_scheme \<Rightarrow> lister_flags" where
  "lister_defaults env =
     \<lparr>tf_Namespace = '''', tf_SnapshotName = '''', tf_PrevSnapshotID = '''', tf_PrevSnapshotName = '''',
      tf_kubeConfig = kubeConfig_default env, tf_SAName = '''', tf_SANamespace = '''',
      tf_TokenExpirySecs = 600, tf_StartingOffset = 0, tf_maxResults = 0, tf_showHelp = False,
      outputFormat = ''table''\<rparr>"

definition verifier_defaults :: "('cfg, 'h, 'a) tool_env_scheme \<Rightarrow> verifier_flags" where
  "verifier_defaults env =
     \<lparr>tf_Namespace = '''', tf_SnapshotName = '''', tf_PrevSnapshotID = '''', tf_PrevSnapshotName = '''',
      tf_kubeConfig = kubeConfig_default env, tf_SAName = '''', tf_SANamespace = '''',
      tf_TokenExpirySecs = 600, tf_StartingOffset = 0, tf_maxResults = 0, tf_showHelp = False,
      sourceDevicePath = '''', targetDevicePath = ''''\<rparr>"

text \<open>
  The part of \<open>parseFlags\<close> that both have: without arguments it exits with code 1, a help request
  with code 0, and the package \<open>flag\<close> exits with code 2 for a bad flag.
\<close>

datatype 'v tool_parsed = ToolFlags 'v | ToolExit nat

definition tool_parseFlags :: "'a tool_flags_scheme flag_def list \<Rightarrow> string list \<Rightarrow>
    'a tool_flags_scheme \<Rightarrow> 'a tool_flags_scheme tool_parsed" where
  "tool_parseFlags formal argv v0 =
     (if argv = [] then ToolExit 2
      else if length argv > 1
      then (case FlagSet_Parse ExitOnError formal (tl argv) v0 of
              FlagsOk v rest \<Rightarrow> if tf_showHelp v then ToolExit 0 else ToolFlags v
            | FlagsExit c \<Rightarrow> ToolExit c
            | _ \<Rightarrow> ToolExit 2)
      else ToolExit 1)"

subsection \<open>Clients and arguments\<close>

definition buildConfig :: "('cfg, 'h, 'a) tool_env_scheme \<Rightarrow> string \<Rightarrow> gerr + 'cfg" where
  "buildConfig env kubeconfigPath =
     (if te_Stat env kubeconfigPath then te_BuildConfigFromFlags env kubeconfigPath
      else te_InClusterConfig env)"

text \<open>The configuration and the clients; a failure is exit code 1.\<close>

definition tool_clients :: "('cfg, 'h, 'a) tool_env_scheme \<Rightarrow> string \<Rightarrow> 'h clients option" where
  "tool_clients env kubeConfig =
     (case buildConfig env kubeConfig of
        Inl err \<Rightarrow> None
      | Inr config \<Rightarrow>
          (case BuildClients (te_packages env) config of Inl x \<Rightarrow> None | Inr c \<Rightarrow> Some c))"

text \<open>\<open>args.MaxResults = int32(maxResults)\<close> keeps the low 32 bits.\<close>

definition tool_args :: "'a tool_flags_scheme \<Rightarrow> 'h clients \<Rightarrow> 'e emitter_ops \<Rightarrow> ('e, 'h) iter_args" where
  "tool_args v c ops =
     \<lparr>ia_Clients = c, Emitter = Some ops, Namespace = tf_Namespace v, SnapshotName = tf_SnapshotName v,
      PrevSnapshotID = tf_PrevSnapshotID v, PrevSnapshotName = tf_PrevSnapshotName v,
      StartingOffset = tf_StartingOffset v, MaxResults = ucast (tf_maxResults v), CSIDriver = '''',
      SANamespace = tf_SANamespace v, SAName = tf_SAName v, TokenExpirySecs = tf_TokenExpirySecs v\<rparr>"

definition session_end :: "((exn + unit) \<times> 's) option \<Rightarrow> run_end" where
  "session_end r =
     (case r of
        None \<Rightarrow> Forever
      | Some (Inr _, t) \<Rightarrow> Exit 0
      | Some (Inl (Failed err), t) \<Rightarrow> Exit 1
      | Some (Inl (Panicked m), t) \<Rightarrow> Exit 2)"

subsection \<open>\<open>snapshot-metadata-lister\<close>\<close>

text \<open>
  The output is what has arrived at standard output when the process ends. The emitters ignore
  the errors of \<open>fmt.Fprintf\<close>, so of the text that they hand to their writer any part may be lost
  (a full disk) without any effect on the session: \<open>te_stdout\<close> says of a text what arrives, and
  whether a write met a broken pipe, of which a Go process dies by SIGPIPE.
\<close>

datatype output_format = TableFormat | JSONFormat

definition lister_parseFlags :: "('cfg, 'h, 'a) tool_env_scheme \<Rightarrow> string list \<Rightarrow>
    (lister_flags \<times> output_format) tool_parsed" where
  "lister_parseFlags env argv =
     (case tool_parseFlags lister_flag_defs argv (lister_defaults env) of
        ToolExit c \<Rightarrow> ToolExit c
      | ToolFlags v \<Rightarrow>
          if outputFormat v = ''table'' then ToolFlags (v, TableFormat)
          else if outputFormat v = ''json'' then ToolFlags (v, JSONFormat)
          else ToolExit 1)"

definition stdout_of :: "('cfg, 'h, 'a) tool_env_scheme \<Rightarrow> string \<Rightarrow> string \<times> bool" where
  "stdout_of env text = (if text = [] then ([], False) else te_stdout env text)"

definition written_end :: "('cfg, 'h, 'a) tool_env_scheme \<Rightarrow> run_end \<Rightarrow> string \<Rightarrow> run_end \<times> string" where
  "written_end env e text =
     (case stdout_of env text of (out, broken) \<Rightarrow> (if broken then KilledBy 13 else e, out))"

definition lister_main :: "('cfg, 'h, 'a) tool_env_scheme \<Rightarrow> string list \<Rightarrow> run_end \<times> string" where
  "lister_main env argv =
     (case lister_parseFlags env argv of
        ToolExit c \<Rightarrow> (Exit c, [])
      | ToolFlags (v, fmt) \<Rightarrow>
     (case tool_clients env (tf_kubeConfig v) of
        None \<Rightarrow> (Exit 1, [])
      | Some c \<Rightarrow>
          (case fmt of
             TableFormat \<Rightarrow>
               let r = GetSnapshotMetadata (te_servers env) (tool_args v c TableEmitter) [] in
               written_end env (session_end r) (case r of None \<Rightarrow> [] | Some (_, t) \<Rightarrow> it_emitter t)
           | JSONFormat \<Rightarrow>
               let r = GetSnapshotMetadata (te_servers env) (tool_args v c JSONEmitter)
                         \<lparr>je_Writer = [], listNotEmpty = False\<rparr> in
               written_end env (session_end r)
                 (case r of None \<Rightarrow> [] | Some (_, t) \<Rightarrow> je_Writer (it_emitter t)))))"

subsection \<open>\<open>snapshot-metadata-verifier\<close>\<close>

definition verifier_parseFlags :: "('cfg, 'h, 'a) tool_env_scheme \<Rightarrow> string list \<Rightarrow> verifier_flags tool_parsed" where
  "verifier_parseFlags env argv =
     (case tool_parseFlags verifier_flag_defs argv (verifier_defaults env) of
        ToolExit c \<Rightarrow> ToolExit c
      | ToolFlags v \<Rightarrow>
          if sourceDevicePath v = '''' \<or> targetDevicePath v = '''' then ToolExit 1 else ToolFlags v)"

text \<open>With the exit code go the devices as they are then, if they were opened.\<close>

definition verifier_main :: "('cfg, 'h) verifier_env \<Rightarrow> string list \<Rightarrow> run_end \<times> verifier option" where
  "verifier_main env argv =
     (case verifier_parseFlags env argv of
        ToolExit c \<Rightarrow> (Exit c, None)
      | ToolFlags v \<Rightarrow>
     (case tool_clients env (tf_kubeConfig v) of
        None \<Rightarrow> (Exit 1, None)
      | Some c \<Rightarrow>
     (case te_Open env (sourceDevicePath v) of
        Inl err \<Rightarrow> (Exit 1, None)
      | Inr src \<Rightarrow>
     (case te_OpenRDWR env (targetDevicePath v) of
        Inl err \<Rightarrow> (Exit 1, None)
      | Inr tgt \<Rightarrow>
          let devices = \<lparr>SourceDevice = src, TargetDevice = tgt\<rparr>;
              r = GetSnapshotMetadata (te_servers env) (tool_args v c (VerifierEmitter (te_system env))) devices in
          (session_end r, case r of None \<Rightarrow> None | Some (_, t) \<Rightarrow> Some (it_emitter t))))))"

subsection \<open>Facts on the tools\<close>

lemma session_end_0: "session_end r = Exit 0 \<Longrightarrow> \<exists>t. r = Some (Inr (), t)"
  by (auto simp: session_end_def split: option.splits prod.splits sum.splits exn.splits)

lemma tool_clients_valid:
  assumes "tool_clients env k = Some c"
  shows "Clients_Validate c = None"
proof -
  obtain config where "BuildClients (te_packages env) config = Inr c"
    using assms by (auto simp: tool_clients_def split: sum.splits)
  then show ?thesis
    by (auto simp: BuildClients_def makeAllClients_def no_clients_def Clients_Validate_def io_run
        clients_kubeClient_def clients_snapshotClient_def clients_smsCRClient_def split: sum.splits)
qed

text \<open>The two names of a flag set the same variable.\<close>

lemma stringFlag_alias:
  assumes "stringFlag l s store = [f, g]"
    and "flag_name l" "find (\<lambda>fl. fl_name fl = l) formal = Some f"
    and "flag_name s" "find (\<lambda>fl. fl_name fl = s) formal = Some g"
  shows "flag_Parse formal ((CHR ''-'' # l) # x # rest) v = flag_Parse formal ((CHR ''-'' # s) # x # rest) v"
  using assms flag_Parse_value [OF assms(2), of formal read_string store x x rest v]
    flag_Parse_value [OF assms(4), of formal read_string store x x rest v]
  by (auto simp: stringFlag_def flag_String_def strings.readv_shown)

subsection \<open>Properties\<close>

lemma written_end_0:
  "written_end env e text = (Exit 0, out) \<longleftrightarrow> e = Exit 0 \<and> stdout_of env text = (out, False)"
  by (auto simp: written_end_def split: prod.splits)

text \<open>
  C12. A listing in JSON (a command line that the flags accept, with \<open>-o json\<close> and no request for
  help) that exits with code 0 has handed to standard output a text that is read back as exactly
  the records the service streamed for the namespace, the snapshots, the offset and the
  limit of the command line. So its output is read back as these records if standard output took
  the whole text; otherwise it is what arrived, and the exit code does not tell.
\<close>
theorem lister_json_complete:
  assumes "lister_main env argv = (Exit 0, out)" "lister_parseFlags env argv = ToolFlags (v, JSONFormat)"
  shows "\<exists>c msgs t text. tool_clients env (tf_kubeConfig v) = Some c \<and> Clients_Validate c = None \<and>
    enumerated (te_servers env) (tool_args v c JSONEmitter) JSONEmitter
      \<lparr>je_Writer = [], listNotEmpty = False\<rparr> msgs t \<and>
    out = fst (stdout_of env text) \<and>
    (length msgs < 2 ^ 63 \<longrightarrow> read_list text = Some (map metadata_of msgs, []) \<and>
       (stdout_of env text = (text, False) \<longrightarrow> read_list out = Some (map metadata_of msgs, [])))"
proof -
  let ?e = "\<lparr>je_Writer = [], listNotEmpty = False\<rparr>"
  obtain c where c: "tool_clients env (tf_kubeConfig v) = Some c"
    using assms by (auto simp: lister_main_def split: option.splits)
  let ?r = "GetSnapshotMetadata (te_servers env) (tool_args v c JSONEmitter) ?e"
  let ?text = "case ?r of None \<Rightarrow> [] | Some (_, t) \<Rightarrow> je_Writer (it_emitter t)"
  from assms c have r: "session_end ?r = Exit 0" "stdout_of env ?text = (out, False)"
    by (simp_all add: lister_main_def Let_def written_end_0)
  obtain t where t: "?r = Some (Inr (), t)" using session_end_0 [OF r(1)] by blast
  obtain msgs where m: "enumerated (te_servers env) (tool_args v c JSONEmitter) JSONEmitter ?e msgs t"
    using GetSnapshotMetadata_enumerates [OF t] by (auto simp: tool_args_def)
  have "read_list (je_Writer (it_emitter t)) = Some (map metadata_of msgs, [])" if "length msgs < 2 ^ 63"
    using json.enumerated_post [OF m _ that] read_list_json [of "map metadata_of msgs" "[]"] by simp
  with c m tool_clients_valid [OF c] r(2) t show ?thesis
    by (intro exI [of _ c] exI [of _ msgs] exI [of _ t] exI [of _ "je_Writer (it_emitter t)"]) simp
qed

text \<open>
  C11. When \<open>snapshot-metadata-verifier\<close> exits with code 0, either help was asked for and no device
  was opened, or the target device holds the bytes that the source device had when it was opened.
\<close>
theorem verifier_exit_sound:
  assumes "verifier_main env argv = (Exit 0, d)"
  shows "(d = None \<and> verifier_parseFlags env argv = ToolExit 0) \<or>
    (\<exists>v src tgt c msgs t. verifier_parseFlags env argv = ToolFlags v \<and>
       te_Open env (sourceDevicePath v) = Inr src \<and> te_OpenRDWR env (targetDevicePath v) = Inr tgt \<and>
       d = Some (it_emitter t) \<and> tool_clients env (tf_kubeConfig v) = Some c \<and>
       enumerated (te_servers env) (tool_args v c (VerifierEmitter (te_system env)))
         (VerifierEmitter (te_system env)) \<lparr>SourceDevice = src, TargetDevice = tgt\<rparr> msgs t \<and>
       (length msgs < 2 ^ 63 \<longrightarrow> f_data (TargetDevice (it_emitter t)) = f_data src))"
proof (cases "verifier_parseFlags env argv")
  case (ToolExit c)
  with assms show ?thesis by (simp add: verifier_main_def)
next
  case (ToolFlags v)
  obtain c src tgt where o: "tool_clients env (tf_kubeConfig v) = Some c"
      "te_Open env (sourceDevicePath v) = Inr src" "te_OpenRDWR env (targetDevicePath v) = Inr tgt"
    using assms ToolFlags by (auto simp: verifier_main_def split: option.splits sum.splits)
  let ?r = "GetSnapshotMetadata (te_servers env) (tool_args v c (VerifierEmitter (te_system env)))
      \<lparr>SourceDevice = src, TargetDevice = tgt\<rparr>"
  from assms ToolFlags o have r: "session_end ?r = Exit 0"
      "d = (case ?r of None \<Rightarrow> None | Some (_, t) \<Rightarrow> Some (it_emitter t))"
    by (simp_all add: verifier_main_def Let_def)
  obtain t where t: "?r = Some (Inr (), t)" using session_end_0 [OF r(1)] by blast
  obtain msgs where m: "enumerated (te_servers env) (tool_args v c (VerifierEmitter (te_system env)))
      (VerifierEmitter (te_system env)) \<lparr>SourceDevice = src, TargetDevice = tgt\<rparr> msgs t"
    using GetSnapshotMetadata_enumerates [OF t] by (auto simp: tool_args_def)
  have "f_data (TargetDevice (it_emitter t)) = f_data src" if "length msgs < 2 ^ 63"
    using verifier.enumerated_post [OF m _ that] by simp
  with ToolFlags o m r(2) t show ?thesis
    by (intro disjI2 exI [of _ v] exI [of _ src] exI [of _ tgt] exI [of _ c] exI [of _ msgs] exI [of _ t]) simp
qed

text \<open>
  C19. The limit that the tools send is the flag \<open>max-results\<close> exactly when it fits 32 bits;
  otherwise it is the flag modulo \<open>2 ^ 32\<close>. A negative limit of 32 bits is rejected before any request.
\<close>
theorem tool_max_results:
  "(sint (MaxResults (tool_args v c ops)) = sint (tf_maxResults v) \<longleftrightarrow>
      - (2 ^ 31) \<le> sint (tf_maxResults v) \<and> sint (tf_maxResults v) < 2 ^ 31) \<and>
   uint (MaxResults (tool_args v c ops)) = sint (tf_maxResults v) mod 2 ^ 32 \<and>
   (sint (MaxResults (tool_args v c ops)) < 0 \<longrightarrow>
      Args_Validate (tool_args v c ops) \<noteq> None \<and>
      GetSnapshotMetadata env (tool_args v c ops) e =
        Some (Inl (Failed (the (Args_Validate (tool_args v c ops)))), newIterator (tool_args v c ops) e))"
proof -
  let ?m = "tf_maxResults v"
  have "(ucast ?m :: int32) = scast ?m"
    by (rule down_cast_same [THEN fun_cong]) (simp_all add: is_down)
  then have c: "MaxResults (tool_args v c ops) = word_of_int (sint ?m)"
    unfolding tool_args_def by simp
  have w: "sint (word_of_int i :: int32) = signed_take_bit 31 i"
    "uint (word_of_int i :: int32) = take_bit 32 i" for i
    by (simp_all add: signed_of_int unsigned_of_int)
  have "sint (MaxResults (tool_args v c ops)) = sint ?m \<longleftrightarrow> - (2 ^ 31) \<le> sint ?m \<and> sint ?m < 2 ^ 31"
    unfolding c w by (simp only: signed_take_bit_int_eq_self_iff)
  moreover have "uint (MaxResults (tool_args v c ops)) = sint ?m mod 2 ^ 32"
    unfolding c w by (simp only: take_bit_eq_mod)
  moreover have "Args_Validate (tool_args v c ops) \<noteq> None" if "sint (MaxResults (tool_args v c ops)) < 0"
    using that by (simp add: Args_Validate_def)
  ultimately show ?thesis by (auto simp: GetSnapshotMetadata_def)
qed


subsection \<open>Examples\<close>

definition tool_env_example :: "(unit, nat) tool_env" where
  "tool_env_example =
     \<lparr>te_HomeDir = '''', te_JoinKubeConfig = (\<lambda>h. h @ ''/.kube/config''), te_Stat = (\<lambda>p. False),
      te_BuildConfigFromFlags = (\<lambda>p. Inl (Plain ''no file'')), te_InClusterConfig = Inr (),
      te_packages = client_packages_example, te_servers = iter_env_example,
      te_stdout = (\<lambda>text. (text, False))\<rparr>"

definition verifier_env_example :: "(unit, nat) verifier_env" where
  "verifier_env_example =
     \<lparr>te_HomeDir = '''', te_JoinKubeConfig = (\<lambda>h. h @ ''/.kube/config''), te_Stat = (\<lambda>p. False),
      te_BuildConfigFromFlags = (\<lambda>p. Inl (Plain ''no file'')), te_InClusterConfig = Inr (),
      te_packages = client_packages_example,
      te_servers = iter_env_example\<lparr>ie_allocated := \<lambda>h req. Inr (\<lambda>n. RecvEOF)\<rparr>,
      te_stdout = (\<lambda>text. (text, False)),
      te_Open = (\<lambda>p. Inr \<lparr>f_name = p, f_data = [1, 2], f_pos = 0, f_ops = 0\<rparr>),
      te_OpenRDWR = (\<lambda>p. Inr \<lparr>f_name = p, f_data = [1, 2], f_pos = 0, f_ops = 0\<rparr>),
      te_system = file_env_example\<rparr>"

lemmas tool_flag_simps = lister_flag_defs_def verifier_flag_defs_def tool_flag_defs_def stringFlag_def
  flag_String_def flag_Int_def flag_Bool_def flag_Var_def flag_name_def read_string_def

lemma lister_parse_example:
  "flag_Parse lister_flag_defs [''-n'', ''ns'', ''--snapshot=snap'', ''-o'', ''json''] v =
     Parsed (v\<lparr>tf_Namespace := ''ns'', tf_SnapshotName := ''snap'', outputFormat := ''json''\<rparr>) []"
  by (simp add: flag_Parse.simps parseOne_def parse_named_def cut_value_def
      set_value_def tool_flag_simps)

lemma verifier_parse_example:
  "flag_Parse verifier_flag_defs [''-n'', ''ns'', ''-s'', ''snap'', ''-src'', ''a'', ''-tgt'', ''b''] v =
     Parsed (v\<lparr>tf_Namespace := ''ns'', tf_SnapshotName := ''snap'', sourceDevicePath := ''a'',
       targetDevicePath := ''b''\<rparr>) []"
  by (simp add: flag_Parse.simps parseOne_def parse_named_def cut_value_def
      set_value_def tool_flag_simps)

lemma tool_clients_example:
  "tool_clients tool_env_example k = Some \<lparr>KubeClient = Some 1, SnapshotClient = Some 2, SmsCRClient = Some 3\<rparr>"
  "tool_clients verifier_env_example k = Some \<lparr>KubeClient = Some 1, SnapshotClient = Some 2, SmsCRClient = Some 3\<rparr>"
  by (simp_all add: tool_clients_def buildConfig_def tool_env_example_def verifier_env_example_def
      BuildClients_def makeAllClients_def no_clients_def io_run clients_kubeClient_def
      clients_snapshotClient_def clients_smsCRClient_def client_packages_example_def)

lemma lister_parseFlags_example:
  "\<exists>v. lister_parseFlags tool_env_example
      [''lister'', ''-n'', ''ns'', ''--snapshot=snap'', ''-o'', ''json''] = ToolFlags (v, JSONFormat) \<and>
     v = (lister_defaults tool_env_example)\<lparr>tf_Namespace := ''ns'', tf_SnapshotName := ''snap'', outputFormat := ''json''\<rparr>"
  by (simp add: lister_parseFlags_def tool_parseFlags_def FlagSet_Parse_def lister_parse_example
      lister_defaults_def)

lemmas tool_run_defs = iterator_run_defs getDefaultServiceAccount_def getCSIDriverFromPrimarySnapshot_def
  K8sServiceAccountUserNamePrefix_def has_prefix_def tool_args_def

lemma lister_session_example:
  assumes "v = (lister_defaults tool_env_example)\<lparr>tf_Namespace := ''ns'', tf_SnapshotName := ''snap'', outputFormat := ''json''\<rparr>"
    and "c = \<lparr>KubeClient = Some (1 :: nat), SnapshotClient = Some 2, SmsCRClient = Some 3\<rparr>"
  shows "\<exists>t. GetSnapshotMetadata iter_env_example (tool_args v c JSONEmitter)
     \<lparr>je_Writer = [], listNotEmpty = False\<rparr> = Some (Inr (), t)"
  by (simp add: assms tool_run_defs lister_defaults_def JSONEmitter_def JSONEmitter_Record_def
      JSONEmitter_Done_def)

lemma stdout_of_example: "stdout_of tool_env_example text = (text, False)"
  by (simp add: stdout_of_def tool_env_example_def)

lemma lister_run_example:
  "\<exists>v t. lister_parseFlags env [''lister'', ''-n'', ''ns'', ''--snapshot=snap'', ''-o'', ''json''] =
       ToolFlags (v, JSONFormat) \<and>
     lister_main env [''lister'', ''-n'', ''ns'', ''--snapshot=snap'', ''-o'', ''json''] =
       written_end env (Exit 0) (je_Writer (it_emitter t)) \<and>
     GetSnapshotMetadata iter_env_example (tool_args v
       \<lparr>KubeClient = Some (1 :: nat), SnapshotClient = Some 2, SmsCRClient = Some 3\<rparr> JSONEmitter)
       \<lparr>je_Writer = [], listNotEmpty = False\<rparr> = Some (Inr (), t)"
  if env: "env = tool_env_example\<lparr>te_stdout := f\<rparr>"
proof -
  let ?argv = "[''lister'', ''-n'', ''ns'', ''--snapshot=snap'', ''-o'', ''json'']"
  obtain v where v: "lister_parseFlags tool_env_example ?argv = ToolFlags (v, JSONFormat)"
      "v = (lister_defaults tool_env_example)\<lparr>tf_Namespace := ''ns'', tf_SnapshotName := ''snap'', outputFormat := ''json''\<rparr>"
    using lister_parseFlags_example by blast
  obtain t where t: "GetSnapshotMetadata iter_env_example
      (tool_args v \<lparr>KubeClient = Some (1 :: nat), SnapshotClient = Some 2, SmsCRClient = Some 3\<rparr> JSONEmitter)
      \<lparr>je_Writer = [], listNotEmpty = False\<rparr> = Some (Inr (), t)"
    using lister_session_example [OF v(2) refl] by blast
  have s: "te_servers env = iter_env_example" by (simp add: env tool_env_example_def)
  have c: "tool_clients env k = tool_clients tool_env_example k" for k
    by (simp add: env tool_clients_def buildConfig_def split: sum.split)
  have d: "lister_defaults env = lister_defaults tool_env_example"
    by (simp add: env lister_defaults_def kubeConfig_default_def)
  have p: "lister_parseFlags env ?argv = ToolFlags (v, JSONFormat)"
    using v(1) by (simp add: lister_parseFlags_def d)
  then have "lister_main env ?argv = written_end env (Exit 0) (je_Writer (it_emitter t))"
    using t by (simp add: lister_main_def s c tool_clients_example session_end_def)
  with p t show ?thesis by blast
qed

theorem lister_json_complete_witness:
  "\<exists>out. lister_main tool_env_example [''lister'', ''-n'', ''ns'', ''--snapshot=snap'', ''-o'', ''json''] =
      (Exit 0, out) \<and> read_list out = Some ([metadata_of response_example], [])"
proof -
  let ?argv = "[''lister'', ''-n'', ''ns'', ''--snapshot=snap'', ''-o'', ''json'']"
  have "tool_env_example = tool_env_example\<lparr>te_stdout := te_stdout tool_env_example\<rparr>" by simp
  from lister_run_example [OF this] obtain v and t :: "(json_emitter, nat) iter_state" where
      v: "lister_parseFlags tool_env_example ?argv = ToolFlags (v, JSONFormat)"
    and t: "lister_main tool_env_example ?argv = written_end tool_env_example (Exit 0) (je_Writer (it_emitter t))"
    by blast
  have s: "te_servers tool_env_example = iter_env_example" by (simp add: tool_env_example_def)
  have run: "lister_main tool_env_example ?argv = (Exit 0, je_Writer (it_emitter t))"
    using t by (simp add: written_end_0 stdout_of_example)
  from lister_json_complete [OF run v] show ?thesis
    using run by (auto simp: s stdout_of_example dest: enumerated_example)
qed

text \<open>With a full disk the lister writes nothing and exits with code 0.\<close>

lemma lister_lost_example:
  "lister_main (tool_env_example\<lparr>te_stdout := \<lambda>text. ([], False)\<rparr>)
     [''lister'', ''-n'', ''ns'', ''--snapshot=snap'', ''-o'', ''json''] = (Exit 0, [])"
proof -
  from lister_run_example [OF refl, of "\<lambda>text. ([], False)"] obtain t :: "(json_emitter, nat) iter_state" where
    "lister_main (tool_env_example\<lparr>te_stdout := \<lambda>text. ([], False)\<rparr>)
       [''lister'', ''-n'', ''ns'', ''--snapshot=snap'', ''-o'', ''json''] =
     written_end (tool_env_example\<lparr>te_stdout := \<lambda>text. ([], False)\<rparr>) (Exit 0) (je_Writer (it_emitter t))" by blast
  then show ?thesis by (simp add: written_end_0 stdout_of_def)
qed

lemma verifier_parseFlags_example:
  "\<exists>v. verifier_parseFlags verifier_env_example
      [''verifier'', ''-n'', ''ns'', ''-s'', ''snap'', ''-src'', ''a'', ''-tgt'', ''b''] = ToolFlags v \<and>
     v = (verifier_defaults verifier_env_example)\<lparr>tf_Namespace := ''ns'', tf_SnapshotName := ''snap'',
       sourceDevicePath := ''a'', targetDevicePath := ''b''\<rparr>"
  by (simp add: verifier_parseFlags_def tool_parseFlags_def FlagSet_Parse_def verifier_parse_example
      verifier_defaults_def)

lemma verifier_session_example:
  assumes "v = (verifier_defaults verifier_env_example)\<lparr>tf_Namespace := ''ns'', tf_SnapshotName := ''snap'',
       sourceDevicePath := ''a'', targetDevicePath := ''b''\<rparr>"
    and "c = \<lparr>KubeClient = Some (1 :: nat), SnapshotClient = Some 2, SmsCRClient = Some 3\<rparr>"
    and "f_data (SourceDevice d) = [1, 2]" "f_data (TargetDevice d) = [1, 2]"
  shows "\<exists>t. GetSnapshotMetadata (te_servers verifier_env_example)
     (tool_args v c (VerifierEmitter file_env_example)) d = Some (Inr (), t)"
proof -
  have "fst (VerifierEmitter_Done file_env_example 0 d) = None"
    using VerifierEmitter_Done_reliable [OF reliable_example] assms(3,4) by simp
  then obtain d' where "VerifierEmitter_Done file_env_example 0 d = (None, d')"
    by (metis prod.collapse)
  then show ?thesis
    by (simp add: assms(1,2) tool_run_defs verifier_defaults_def verifier_env_example_def VerifierEmitter_def)
qed

theorem verifier_exit_sound_witness:
  "\<exists>d. verifier_main verifier_env_example
      [''verifier'', ''-n'', ''ns'', ''-s'', ''snap'', ''-src'', ''a'', ''-tgt'', ''b''] = (Exit 0, Some d) \<and>
     f_data (TargetDevice d) = [1, 2]"
proof -
  let ?argv = "[''verifier'', ''-n'', ''ns'', ''-s'', ''snap'', ''-src'', ''a'', ''-tgt'', ''b'']"
  let ?c = "\<lparr>KubeClient = Some (1 :: nat), SnapshotClient = Some 2, SmsCRClient = Some 3\<rparr>"
  let ?d = "\<lparr>SourceDevice = \<lparr>f_name = ''a'', f_data = [1, 2], f_pos = 0, f_ops = 0\<rparr>,
      TargetDevice = \<lparr>f_name = ''b'', f_data = [1, 2], f_pos = 0, f_ops = 0\<rparr>\<rparr>"
  obtain v where v: "verifier_parseFlags verifier_env_example ?argv = ToolFlags v"
      "v = (verifier_defaults verifier_env_example)\<lparr>tf_Namespace := ''ns'', tf_SnapshotName := ''snap'',
       sourceDevicePath := ''a'', targetDevicePath := ''b''\<rparr>"
    using verifier_parseFlags_example by blast
  then have paths: "sourceDevicePath v = ''a''" "targetDevicePath v = ''b''" by simp_all
  obtain t where t: "GetSnapshotMetadata (te_servers verifier_env_example)
      (tool_args v ?c (VerifierEmitter file_env_example)) ?d = Some (Inr (), t)"
    using verifier_session_example [OF v(2) refl, of ?d] by auto
  have env: "te_system verifier_env_example = file_env_example"
      "te_Open verifier_env_example p = Inr \<lparr>f_name = p, f_data = [1, 2], f_pos = 0, f_ops = 0\<rparr>"
      "te_OpenRDWR verifier_env_example p = Inr \<lparr>f_name = p, f_data = [1, 2], f_pos = 0, f_ops = 0\<rparr>" for p
    by (simp_all add: verifier_env_example_def)
  have run: "verifier_main verifier_env_example ?argv = (Exit 0, Some (it_emitter t))"
    using v(1) t paths by (simp add: verifier_main_def tool_clients_example env session_end_def)
  obtain w :: verifier_flags and e and c :: "nat clients" and msgs and t' :: "(verifier, nat) iter_state" where
      m: "enumerated (te_servers verifier_env_example) (tool_args w c (VerifierEmitter file_env_example))
        (VerifierEmitter file_env_example) e msgs t'"
      "it_emitter t = it_emitter t'" "length msgs < 2 ^ 63 \<longrightarrow> f_data (TargetDevice (it_emitter t')) = [1, 2]"
    using verifier_exit_sound [OF run] v(1) by (simp add: env) blast
  have "msgs = []"
    by (rule enumerated_msgs [OF m(1), where stream = "\<lambda>n. RecvEOF" and err = "StatusErr NotFound ''base''"])
      (simp_all add: verifier_env_example_def iter_env_example_def received_def)
  with m run show ?thesis by auto
qed

theorem tool_max_results_witness:
  "sint (MaxResults (tool_args ((lister_defaults tool_env_example)\<lparr>tf_maxResults := 256\<rparr>)
     (no_clients :: nat clients) JSONEmitter)) = 256 \<and>
   uint (MaxResults (tool_args ((lister_defaults tool_env_example)\<lparr>tf_maxResults := 4294967296\<rparr>)
     (no_clients :: nat clients) JSONEmitter)) = 0"
  using tool_max_results [of "(lister_defaults tool_env_example)\<lparr>tf_maxResults := 256\<rparr>"
      "no_clients :: nat clients" JSONEmitter]
    tool_max_results [of "(lister_defaults tool_env_example)\<lparr>tf_maxResults := 4294967296\<rparr>"
      "no_clients :: nat clients" JSONEmitter]
  by simp


end
