(* ===== verification/Rpc.thy ===== *)
theory Rpc
  imports Handlers Emitters
begin

text \<open>
  The client library and the sidecar together. \<open>pkg/api/schema_grpc.pb.go\<close> holds the client stub
  that the iterator calls and the server stub that calls the handlers; between them is the
  gRPC connection, which is third-party: the record \<open>rpc_link\<close> says what it answers. A server
  environment of the iterator is built from the handlers of the sidecar, so that what a whole session
  does is a theorem about both ends.
\<close>

subsection \<open>Stubs\<close>

text \<open>
  The connection during a call, as functions of what the client did before: the answers of
  \<open>NewStream\<close>, \<open>SendMsg\<close> and \<open>CloseSend\<close> to the client, of \<open>RecvMsg\<close> and \<open>Send\<close> to the sidecar, the state
  of the sidecar when the call arrives, and what the client receives when the handler did
  what it did. Each \<open>Send\<close> of the sidecar returns here, at the latest with an error when the call is
  over: the client of this library reads as long as its session goes on, and where it gives up
  before the end of the stream the call is taken to end with the caller's context or process.
\<close>

record rpc_link =
  lk_NewStream :: "iter_event list \<Rightarrow> gerr option"
  lk_SendMsg :: "iter_event list \<Rightarrow> gerr option"
  lk_CloseSend :: "iter_event list \<Rightarrow> gerr option"
  lk_RecvMsg :: "iter_event list \<Rightarrow> gerr option"
  lk_server :: "iter_event list \<Rightarrow> server"
  lk_Send :: "iter_event list \<Rightarrow> event list \<Rightarrow> metadata_response \<Rightarrow> gerr option"
  lk_Recv :: "iter_event list \<Rightarrow> ((exn + unit) \<times> server) option \<Rightarrow> response_stream"

definition client_GetMetadataAllocated ::
  "rpc_link \<Rightarrow> iter_event list \<Rightarrow> response_stream \<Rightarrow> gerr + response_stream" where
  "client_GetMetadataAllocated link h stream =
     (case lk_NewStream link h of
        Some err \<Rightarrow> Inl err
      | None \<Rightarrow>
          (case lk_SendMsg link h of
             Some err \<Rightarrow> Inl err
           | None \<Rightarrow> (case lk_CloseSend link h of Some err \<Rightarrow> Inl err | None \<Rightarrow> Inr stream)))"

definition client_GetMetadataDelta ::
  "rpc_link \<Rightarrow> iter_event list \<Rightarrow> response_stream \<Rightarrow> gerr + response_stream" where
  "client_GetMetadataDelta link h stream =
     (case lk_NewStream link h of
        Some err \<Rightarrow> Inl err
      | None \<Rightarrow>
          (case lk_SendMsg link h of
             Some err \<Rightarrow> Inl err
           | None \<Rightarrow> (case lk_CloseSend link h of Some err \<Rightarrow> Inl err | None \<Rightarrow> Inr stream)))"

definition SnapshotMetadata_GetMetadataAllocated_Handler ::
  "cluster \<Rightarrow> client_stream \<Rightarrow> gerr + get_metadata_allocated_request \<Rightarrow> server \<Rightarrow>
     ((exn + unit) \<times> server) option" where
  "SnapshotMetadata_GetMetadataAllocated_Handler cl send m s =
     (case m of
        Inl err \<Rightarrow> Some (Inl (Failed err), s)
      | Inr req \<Rightarrow> GetMetadataAllocated cl send req s)"

definition SnapshotMetadata_GetMetadataDelta_Handler ::
  "cluster \<Rightarrow> client_stream \<Rightarrow> gerr + get_metadata_delta_request \<Rightarrow> server \<Rightarrow>
     ((exn + unit) \<times> server) option" where
  "SnapshotMetadata_GetMetadataDelta_Handler cl send m s =
     (case m of
        Inl err \<Rightarrow> Some (Inl (Failed err), s)
      | Inr req \<Rightarrow> GetMetadataDelta cl send req s)"

subsection \<open>The sidecar as the environment of the iterator\<close>

definition request_received :: "rpc_link \<Rightarrow> iter_event list \<Rightarrow> 'req \<Rightarrow> gerr + 'req" where
  "request_received link h req = (case lk_RecvMsg link h of Some err \<Rightarrow> Inl err | None \<Rightarrow> Inr req)"

definition link_send :: "rpc_link \<Rightarrow> iter_event list \<Rightarrow> client_stream" where
  "link_send link h = (\<lambda>h' m. SendReturns (lk_Send link h h' m))"

definition serve_allocated ::
  "cluster \<Rightarrow> rpc_link \<Rightarrow> iter_event list \<Rightarrow> get_metadata_allocated_request \<Rightarrow>
     ((exn + unit) \<times> server) option" where
  "serve_allocated cl link h req = SnapshotMetadata_GetMetadataAllocated_Handler cl (link_send link h)
     (request_received link h req) (lk_server link h)"

definition serve_delta ::
  "cluster \<Rightarrow> rpc_link \<Rightarrow> iter_event list \<Rightarrow> get_metadata_delta_request \<Rightarrow>
     ((exn + unit) \<times> server) option" where
  "serve_delta cl link h req = SnapshotMetadata_GetMetadataDelta_Handler cl (link_send link h)
     (request_received link h req) (lk_server link h)"

definition linked_env :: "cluster \<Rightarrow> rpc_link \<Rightarrow> iter_env \<Rightarrow> iter_env" where
  "linked_env cl link env = env
     \<lparr>ie_allocated := \<lambda>h req. client_GetMetadataAllocated link h
        (lk_Recv link h (serve_allocated cl link h req)),
      ie_delta := \<lambda>h req. client_GetMetadataDelta link h
        (lk_Recv link h (serve_delta cl link h req))\<rparr>"

subsection \<open>What gRPC guarantees\<close>

text \<open>What a call has sent to its client, which started on the server \<open>s\<close>.\<close>

definition sent_since :: "server \<Rightarrow> server \<Rightarrow> metadata_response list" where
  "sent_since s t = delivered (drop (length (events s)) (events t))"

text \<open>
  As gRPC documents: the messages received are those sent, in their order; \<open>Recv\<close> returns EOF only
  when the handler has returned nil and all its messages were received.
\<close>

definition in_order :: "(((exn + unit) \<times> server) option \<Rightarrow> response_stream) \<Rightarrow> server \<Rightarrow> bool" where
  "in_order recv s \<longleftrightarrow>
     (\<forall>ret n m. recv ret n = RecvMsg m \<longrightarrow>
        (\<exists>r t. ret = Some (r, t) \<and> n < length (sent_since s t) \<and> sent_since s t ! n = m)) \<and>
     (\<forall>ret msgs. received (recv ret) msgs \<longrightarrow> (\<exists>t. ret = Some (Inr (), t) \<and> sent_since s t = msgs))"

definition grpc_link :: "rpc_link \<Rightarrow> bool" where
  "grpc_link link \<longleftrightarrow> (\<forall>h. in_order (lk_Recv link h) (lk_server link h))"

text \<open>A connection that loses nothing; a panic of the handler ends the process of the sidecar.\<close>

definition rpc_stream :: "server \<Rightarrow> ((exn + unit) \<times> server) option \<Rightarrow> response_stream" where
  "rpc_stream s ret n =
     (case ret of
        None \<Rightarrow> RecvErr (StatusErr DeadlineExceeded ''context deadline exceeded'')
      | Some (r, t) \<Rightarrow>
          if n < length (sent_since s t) then RecvMsg (sent_since s t ! n)
          else (case r of
                  Inr _ \<Rightarrow> RecvEOF
                | Inl (Failed err) \<Rightarrow> RecvErr err
                | Inl (Panicked m) \<Rightarrow> RecvErr (StatusErr Unavailable ''error reading from server: EOF'')))"

lemma rpc_stream_in_order: "in_order (rpc_stream s) s"
  unfolding in_order_def
proof (intro conjI allI impI)
  fix ret n m assume "rpc_stream s ret n = RecvMsg m"
  then show "\<exists>r t. ret = Some (r, t) \<and> n < length (sent_since s t) \<and> sent_since s t ! n = m"
    by (auto simp: rpc_stream_def split: option.splits prod.splits if_splits sum.splits exn.splits)
next
  fix ret msgs assume r: "received (rpc_stream s ret) msgs"
  then have "rpc_stream s ret (length msgs) = RecvEOF" by (simp add: received_def)
  then obtain t where t: "ret = Some (Inr (), t)" "length (sent_since s t) \<le> length msgs"
    by (auto simp: rpc_stream_def split: option.splits prod.splits if_splits sum.splits exn.splits)
  then have "received (rpc_stream s ret) (sent_since s t)" by (simp add: received_def rpc_stream_def)
  with r t show "\<exists>t. ret = Some (Inr (), t) \<and> sent_since s t = msgs"
    using received_unique by blast
qed

lemma in_order_prefix:
  assumes ord: "in_order recv s"
    and got: "\<forall>i < length resps. recv ret i = RecvMsg (resps ! i)"
    and some: "resps \<noteq> [] \<or> recv ret (length resps) = RecvEOF"
  shows "\<exists>r t. ret = Some (r, t) \<and> resps = take (length resps) (sent_since s t) \<and>
    (recv ret (length resps) = RecvEOF \<longrightarrow> r = Inr () \<and> sent_since s t = resps)"
proof (cases "recv ret (length resps) = RecvEOF")
  case True
  with got have "received (recv ret) resps" by (simp add: received_def)
  with ord obtain t where "ret = Some (Inr (), t)" "sent_since s t = resps"
    unfolding in_order_def by blast
  then show ?thesis by simp
next
  case False
  have each: "\<exists>r t. ret = Some (r, t) \<and> i < length (sent_since s t) \<and> sent_since s t ! i = resps ! i"
    if "i < length resps" for i
    using ord got that unfolding in_order_def by blast
  obtain r t where rt: "ret = Some (r, t)" using each [of 0] False some by auto
  have "length resps \<le> length (sent_since s t)"
    using each [of "length resps - 1"] rt False some by (cases resps) auto
  moreover have "sent_since s t ! i = resps ! i" if "i < length resps" for i
    using each [OF that] rt by simp
  ultimately have "resps = take (length resps) (sent_since s t)" by (intro nth_equalityI) simp_all
  with rt False show ?thesis by simp
qed

subsection \<open>A session\<close>

definition driver_metadata :: "csi_metadata_response \<Rightarrow> iterator_metadata" where
  "driver_metadata m =
     \<lparr>im_BlockMetadataType = csi_block_metadata_type m,
      im_VolumeCapacityBytes = csi_volume_capacity_bytes m,
      im_BlockMetadata = map (\<lambda>b. \<lparr>byte_offset = csi_byte_offset b, size_bytes = csi_size_bytes b\<rparr>)
        (csi_block_metadata m)\<rparr>"

lemma metadata_of_converted:
  "metadata_of (convertToGetMetadataAllocatedResponse m) = driver_metadata m"
  "metadata_of (convertToGetMetadataDeltaResponse m) = driver_metadata m"
  by (simp_all add: metadata_of_def driver_metadata_def convertToGetMetadataAllocatedResponse_def
      convertToGetMetadataDeltaResponse_def)

text \<open>
  The answer of the driver to the sidecar \<open>s\<close>, which rests on the authorization of the token and on
  the resolution of the snapshot that the arguments name.
\<close>

definition driver_stream ::
  "cluster \<Rightarrow> server \<Rightarrow> ('e, 'h) iter_args \<Rightarrow> string \<Rightarrow> csi_stream \<Rightarrow> bool" where
  "driver_stream cl s a token csi \<longleftrightarrow> IsReady s \<and>
     (\<exists>pre vsi secrets.
        authorized_in pre token (Namespace a) \<and> resolved_in s pre (Namespace a) (SnapshotName a) vsi \<and>
        (if PrevSnapshotID a = [] \<and> PrevSnapshotName a = []
         then cl_csi_allocated cl (events s @ pre)
           \<lparr>csia_snapshot_id = vsi_snapshot_handle vsi, csia_starting_offset = StartingOffset a,
            csia_max_results = MaxResults a, csia_secrets = secrets\<rparr> = Inr csi
         else \<exists>base. base \<noteq> [] \<and> (PrevSnapshotID a \<noteq> [] \<longrightarrow> base = PrevSnapshotID a) \<and>
           cl_csi_delta cl (events s @ pre)
             \<lparr>csid_base_snapshot_id = base, csid_target_snapshot_id = vsi_snapshot_handle vsi,
              csid_starting_offset = StartingOffset a, csid_max_results = MaxResults a,
              csid_secrets = secrets\<rparr> = Inr csi))"

text \<open>The whole session: the token, the driver's messages, and what the emitter was fed.\<close>

definition session_complete ::
  "cluster \<Rightarrow> rpc_link \<Rightarrow> ('e, 'h) iter_args \<Rightarrow> 'e emitter_ops \<Rightarrow> 'e \<Rightarrow> csi_metadata_response list \<Rightarrow>
     ('e, 'h) iter_state \<Rightarrow> bool" where
  "session_complete cl link a ops e msgs t \<longleftrightarrow>
     (\<exists>h token csi driver sms saNs sa expiry e1.
        GetService driver (Inr sms) \<in> set (it_events t) \<and>
        CreateToken saNs sa (sms_audience (sms_spec sms)) expiry (Inr token) \<in> set (it_events t) \<and>
        driver_stream cl (lk_server link h) a token csi \<and> received csi msgs \<and>
        feeds ops 0 (map driver_metadata msgs) e = Some e1 \<and>
        SnapshotMetadataIteratorDone ops (of_nat (length msgs)) e1 = (None, it_emitter t))"

lemma linked_env_simps [simp]:
  "ie_allocated (linked_env cl link env) h req = client_GetMetadataAllocated link h
     (lk_Recv link h (serve_allocated cl link h req))"
  "ie_delta (linked_env cl link env) h dreq = client_GetMetadataDelta link h
     (lk_Recv link h (serve_delta cl link h dreq))"
  "ie_append_certs (linked_env cl link env) = ie_append_certs env"
  by (simp_all add: linked_env_def)

lemma client_ok:
  "client_GetMetadataAllocated link h stream = Inr x \<Longrightarrow> x = stream"
  "client_GetMetadataDelta link h stream = Inr x \<Longrightarrow> x = stream"
  by (auto simp: client_GetMetadataAllocated_def client_GetMetadataDelta_def split: option.splits)

lemma serve_ok:
  "serve_allocated cl link h req = Some (Inr (), t) \<Longrightarrow>
     GetMetadataAllocated cl (link_send link h) req (lk_server link h) = Some (Inr (), t)"
  "serve_delta cl link h dreq = Some (Inr (), t) \<Longrightarrow>
     GetMetadataDelta cl (link_send link h) dreq (lk_server link h) = Some (Inr (), t)"
  by (auto simp: serve_allocated_def serve_delta_def request_received_def
      SnapshotMetadata_GetMetadataAllocated_Handler_def SnapshotMetadata_GetMetadataDelta_Handler_def
      split: option.splits)

lemma sent_since_split:
  assumes "events t = events s @ pre @ [ev] @ post" "delivered pre = []" "delivered [ev] = []"
  shows "sent_since s t = delivered post"
  using assms delivered_append [of "[ev]" post] by (simp add: sent_since_def)

text \<open>The stream that a handler opened is that of the driver for the arguments.\<close>

lemma allocated_driver_stream:
  assumes "allocated_rpc.opened_stream cl s
      \<lparr>gma_security_token = token, gma_namespace = Namespace a, gma_snapshot_name = SnapshotName a,
       gma_starting_offset = StartingOffset a, gma_max_results = MaxResults a\<rparr> csi"
    and "PrevSnapshotID a = [] \<and> PrevSnapshotName a = []"
  shows "driver_stream cl s a token csi"
  using assms unfolding allocated_rpc.opened_stream_def driver_stream_def by auto

lemma delta_driver_stream:
  assumes "delta_rpc.opened_stream cl s
      \<lparr>gmd_security_token = token, gmd_namespace = Namespace a, gmd_base_snapshot_id = base,
       gmd_target_snapshot_name = SnapshotName a, gmd_starting_offset = StartingOffset a,
       gmd_max_results = MaxResults a\<rparr> csi"
    and mode: "\<not> (PrevSnapshotID a = [] \<and> PrevSnapshotName a = [])"
      "PrevSnapshotID a \<noteq> [] \<longrightarrow> base = PrevSnapshotID a"
  shows "driver_stream cl s a token csi"
proof -
  from assms(1) have "base \<noteq> []"
    by (auto simp: delta_rpc.opened_stream_def validateGetMetadataDeltaRequest_def split: if_splits)
  with assms show ?thesis
    unfolding delta_rpc.opened_stream_def driver_stream_def if_not_P [OF mode(1)] by auto
qed

text \<open>What a client received from a handler is the beginning of the stream the handler opened.\<close>

context metadata_rpc begin

lemma handler_received:
  assumes run: "handler cl send req s = Some (r, t)"
    and resps: "resps = take (length resps) (sent_since s t)"
    and some: "resps \<noteq> [] \<or> r = Inr () \<and> sent_since s t = resps"
  shows "\<exists>csi msgs. opened_stream cl s req csi \<and> resps = map conv msgs \<and>
    (\<forall>i < length msgs. csi i = RecvMsg (msgs ! i)) \<and>
    (r = Inr () \<and> sent_since s t = resps \<longrightarrow> csi (length msgs) = RecvEOF)"
proof -
  obtain es msgs where es: "events t = events s @ es" "delivered es = map conv msgs"
      and csi: "msgs \<noteq> [] \<or> r = Inr () \<longrightarrow> (\<exists>csi. opened_stream cl s req csi \<and>
       (\<forall>i < length msgs. csi i = RecvMsg (msgs ! i)) \<and> (r = Inr () \<longrightarrow> csi (length msgs) = RecvEOF))"
    using handler_sent [OF run] by blast
  have sent: "sent_since s t = map conv msgs" using es by (simp add: sent_since_def)
  let ?n = "length resps"
  have taken: "resps = map conv (take ?n msgs)" using resps [unfolded sent take_map] .
  have len: "length (take ?n msgs) = ?n" using arg_cong [OF taken, of length] by simp
  have "msgs \<noteq> [] \<or> r = Inr ()" using some taken by auto
  with csi obtain csi where csi: "opened_stream cl s req csi" "\<forall>i < length msgs. csi i = RecvMsg (msgs ! i)"
      "r = Inr () \<longrightarrow> csi (length msgs) = RecvEOF" by blast
  moreover have "r = Inr () \<and> sent_since s t = resps \<longrightarrow> csi (length (take ?n msgs)) = RecvEOF"
    using csi(3) len sent by (metis length_map)
  ultimately show ?thesis using taken len
    by (intro exI [of _ csi] exI [of _ "take ?n msgs"] conjI) simp_all
qed

end

lemma serve_cases:
  assumes "(case m of Inl err \<Rightarrow> Some (Inl (Failed err), s) | Inr req \<Rightarrow> handle req) = Some (r, t)"
    and "resps = take (length resps) (sent_since s t)"
    and "resps \<noteq> [] \<or> r = Inr () \<and> sent_since s t = resps"
  obtains req where "m = Inr req" "handle req = Some (r, t)"
proof (cases m)
  case (Inl err)
  with assms(1) have rt: "r = Inl (Failed err)" "t = s" by simp_all
  then have "sent_since s t = []" by (simp add: sent_since_def)
  with assms(2,3) rt show thesis by simp
next
  case (Inr req)
  with assms(1) show thesis by (intro that) simp_all
qed

lemma request_received_req: "request_received link h req = Inr x \<Longrightarrow> x = req"
  by (simp add: request_received_def split: option.splits)

text \<open>What the client of a call got is the beginning of the driver's stream, and if the client saw
  the end, all of it.\<close>

lemma called_driver:
  assumes ord: "in_order (lk_Recv link h) (lk_server link h)"
    and call: "called (linked_env cl link env) a token h ev stream"
    and got: "\<forall>i < length resps. stream i = RecvMsg (resps ! i)"
    and some: "resps \<noteq> [] \<or> stream (length resps) = RecvEOF"
  shows "\<exists>csi msgs. driver_stream cl (lk_server link h) a token csi \<and>
    map metadata_of resps = map driver_metadata msgs \<and>
    (\<forall>i < length msgs. csi i = RecvMsg (msgs ! i)) \<and>
    (stream (length resps) = RecvEOF \<longrightarrow> csi (length msgs) = RecvEOF)"
proof (cases "PrevSnapshotID a = [] \<and> PrevSnapshotName a = []")
  case True
  let ?req = "\<lparr>gma_security_token = token, gma_namespace = Namespace a, gma_snapshot_name = SnapshotName a,
       gma_starting_offset = StartingOffset a, gma_max_results = MaxResults a\<rparr>"
  let ?s = "lk_server link h"
  have "ie_allocated (linked_env cl link env) h ?req = Inr stream"
    using call unfolding called_def Let_def if_P [OF True] by blast
  then have stream: "stream = lk_Recv link h (serve_allocated cl link h ?req)"
    by (simp add: client_ok)
  obtain r t where rt: "serve_allocated cl link h ?req = Some (r, t)"
      "resps = take (length resps) (sent_since ?s t)"
      "stream (length resps) = RecvEOF \<longrightarrow> r = Inr () \<and> sent_since ?s t = resps"
    using in_order_prefix [OF ord, of resps] got some unfolding stream by blast
  have some': "resps \<noteq> [] \<or> r = Inr () \<and> sent_since ?s t = resps" using some rt(3) by blast
  obtain req where req: "request_received link h ?req = Inr req"
      "GetMetadataAllocated cl (link_send link h) req ?s = Some (r, t)"
    using rt(1) rt(2) some' unfolding serve_allocated_def SnapshotMetadata_GetMetadataAllocated_Handler_def
    by (rule serve_cases)
  have "GetMetadataAllocated cl (link_send link h) ?req ?s = Some (r, t)"
    using req(2) unfolding request_received_req [OF req(1)] .
  from allocated_rpc.handler_received [OF this rt(2) some'] obtain csi msgs where
    csi: "allocated_rpc.opened_stream cl ?s ?req csi" "resps = map convertToGetMetadataAllocatedResponse msgs"
      "\<forall>i < length msgs. csi i = RecvMsg (msgs ! i)"
      "r = Inr () \<and> sent_since ?s t = resps \<longrightarrow> csi (length msgs) = RecvEOF" by blast
  have "map metadata_of resps = map driver_metadata msgs"
    by (simp add: csi(2) metadata_of_converted)
  with csi rt(3) allocated_driver_stream [OF csi(1) True] show ?thesis by blast
next
  case False
  obtain base where base: "PrevSnapshotID a \<noteq> [] \<longrightarrow> base = PrevSnapshotID a"
    "ie_delta (linked_env cl link env) h \<lparr>gmd_security_token = token, gmd_namespace = Namespace a,
       gmd_base_snapshot_id = base, gmd_target_snapshot_name = SnapshotName a,
       gmd_starting_offset = StartingOffset a, gmd_max_results = MaxResults a\<rparr> = Inr stream"
    using call unfolding called_def Let_def if_not_P [OF False] by blast
  let ?req = "\<lparr>gmd_security_token = token, gmd_namespace = Namespace a, gmd_base_snapshot_id = base,
       gmd_target_snapshot_name = SnapshotName a, gmd_starting_offset = StartingOffset a,
       gmd_max_results = MaxResults a\<rparr>"
  let ?s = "lk_server link h"
  have stream: "stream = lk_Recv link h (serve_delta cl link h ?req)"
    using base(2) by (simp add: client_ok)
  obtain r t where rt: "serve_delta cl link h ?req = Some (r, t)"
      "resps = take (length resps) (sent_since ?s t)"
      "stream (length resps) = RecvEOF \<longrightarrow> r = Inr () \<and> sent_since ?s t = resps"
    using in_order_prefix [OF ord, of resps] got some unfolding stream by blast
  have some': "resps \<noteq> [] \<or> r = Inr () \<and> sent_since ?s t = resps" using some rt(3) by blast
  obtain req where req: "request_received link h ?req = Inr req"
      "GetMetadataDelta cl (link_send link h) req ?s = Some (r, t)"
    using rt(1) rt(2) some' unfolding serve_delta_def SnapshotMetadata_GetMetadataDelta_Handler_def
    by (rule serve_cases)
  have "GetMetadataDelta cl (link_send link h) ?req ?s = Some (r, t)"
    using req(2) unfolding request_received_req [OF req(1)] .
  from delta_rpc.handler_received [OF this rt(2) some'] obtain csi msgs where
    csi: "delta_rpc.opened_stream cl ?s ?req csi" "resps = map convertToGetMetadataDeltaResponse msgs"
      "\<forall>i < length msgs. csi i = RecvMsg (msgs ! i)"
      "r = Inr () \<and> sent_since ?s t = resps \<longrightarrow> csi (length msgs) = RecvEOF" by blast
  have "map metadata_of resps = map driver_metadata msgs"
    by (simp add: csi(2) metadata_of_converted)
  with csi rt(3) delta_driver_stream [OF csi(1) False base(1)] show ?thesis by blast
qed

text \<open>What the trace of a connection shows of the token.\<close>

lemma connected_token:
  assumes "connected env a es token"
  shows "\<exists>driver sms saNs sa expiry. GetService driver (Inr sms) \<in> set es \<and>
    CreateToken saNs sa (sms_audience (sms_spec sms)) expiry (Inr token) \<in> set es"
  using assms unfolding connected_def by fastforce

lemma session_ends_well:
  assumes link: "grpc_link link"
    and run: "GetSnapshotMetadata (linked_env cl link env) args e = Some (Inr (), t)"
  shows "\<exists>ops msgs. Emitter args = Some ops \<and> session_complete cl link args ops e msgs t"
proof -
  let ?env = "linked_env cl link env"
  obtain ops resps where ops: "Emitter args = Some ops" and en: "enumerated ?env args ops e resps t"
    using GetSnapshotMetadata_enumerates [OF run] by blast
  obtain con token pre call es stream e1 where st:
      "it_events t = con @ pre @ [call] @ es @ [EmitDone (of_nat (length resps)) None]"
      "connected ?env (it_args (newIterator args e)) con token"
      "called ?env args token (con @ pre) call stream"
      "\<forall>i < length resps. stream i = RecvMsg (resps ! i)" "stream (length resps) = RecvEOF"
      "feeds ops 0 (map metadata_of resps) e = Some e1"
      "SnapshotMetadataIteratorDone ops (of_nat (length resps)) e1 = (None, it_emitter t)"
    using en unfolding enumerated_def by blast
  let ?h = "con @ pre"
  have ord: "in_order (lk_Recv link ?h) (lk_server link ?h)" using link by (simp add: grpc_link_def)
  obtain csi msgs where msgs: "driver_stream cl (lk_server link ?h) args token csi"
      "map metadata_of resps = map driver_metadata msgs" "received csi msgs"
    using called_driver [OF ord st(3,4)] st(5) unfolding received_def by blast
  then have "length resps = length msgs" by (metis length_map)
  moreover obtain driver sms saNs sa expiry where "GetService driver (Inr sms) \<in> set con"
      "CreateToken saNs sa (sms_audience (sms_spec sms)) expiry (Inr token) \<in> set con"
    using connected_token [OF st(2)] by blast
  ultimately show ?thesis using ops msgs st
    unfolding session_complete_def
    by (intro exI [of _ ops] exI [of _ msgs] conjI exI [of _ ?h] exI [of _ token] exI [of _ csi]
        exI [of _ driver] exI [of _ sms] exI [of _ saNs] exI [of _ sa] exI [of _ expiry] exI [of _ e1])
      simp_all
qed

text \<open>Whatever the outcome, the emitter was called with a beginning of the driver's stream.\<close>

lemma session_feeds:
  assumes link: "grpc_link link"
    and run: "GetSnapshotMetadata (linked_env cl link env) args e = Some (r, t)"
  shows "\<exists>msgs. fed (it_events t) = map driver_metadata msgs \<and>
    (msgs \<noteq> [] \<longrightarrow> (\<exists>h token csi driver sms saNs sa expiry.
       GetService driver (Inr sms) \<in> set (it_events t) \<and>
       CreateToken saNs sa (sms_audience (sms_spec sms)) expiry (Inr token) \<in> set (it_events t) \<and>
       driver_stream cl (lk_server link h) args token csi \<and>
       (\<forall>i < length msgs. csi i = RecvMsg (msgs ! i))))"
proof -
  let ?env = "linked_env cl link env"
  obtain resps where f: "fed (it_events t) = map metadata_of resps"
    and opened: "resps \<noteq> [] \<longrightarrow> (\<exists>con token pre call stream rest.
       it_events t = con @ pre @ [call] @ rest \<and>
       connected ?env (it_args (newIterator args e)) con token \<and>
       called ?env args token (con @ pre) call stream \<and>
       (\<forall>i < length resps. stream i = RecvMsg (resps ! i)))"
    using GetSnapshotMetadata_fed [OF run] by blast
  show ?thesis
  proof (cases "resps = []")
    case True
    with f show ?thesis by (intro exI [of _ "[]"]) simp
  next
    case False
    with opened obtain con token pre call stream rest where st:
        "it_events t = con @ pre @ [call] @ rest" "connected ?env (it_args (newIterator args e)) con token"
        "called ?env args token (con @ pre) call stream"
        "\<forall>i < length resps. stream i = RecvMsg (resps ! i)" by blast
    have ord: "in_order (lk_Recv link (con @ pre)) (lk_server link (con @ pre))"
      using link by (simp add: grpc_link_def)
    obtain csi msgs where msgs: "driver_stream cl (lk_server link (con @ pre)) args token csi"
        "map metadata_of resps = map driver_metadata msgs" "\<forall>i < length msgs. csi i = RecvMsg (msgs ! i)"
      using called_driver [OF ord st(3,4)] False by blast
    obtain driver sms saNs sa expiry where "GetService driver (Inr sms) \<in> set con"
        "CreateToken saNs sa (sms_audience (sms_spec sms)) expiry (Inr token) \<in> set con"
      using connected_token [OF st(2)] by blast
    then have "GetService driver (Inr sms) \<in> set (it_events t)"
        "CreateToken saNs sa (sms_audience (sms_spec sms)) expiry (Inr token) \<in> set (it_events t)"
      using st(1) by simp_all
    with f msgs show ?thesis by (intro exI [of _ msgs] conjI impI exI) simp_all
  qed
qed

text \<open>An emitter with a contract keeps it for the messages of the driver.\<close>

context iterator_emitter begin

lemma session_post:
  assumes "session_complete cl link a ops e msgs t" "start e" "length msgs < 2 ^ 63"
  shows "post e (map driver_metadata msgs) (it_emitter t)"
proof -
  obtain e1 where e1: "feeds ops 0 (map driver_metadata msgs) e = Some e1"
      "SnapshotMetadataIteratorDone ops (of_nat (length msgs)) e1 = (None, it_emitter t)"
    using assms(1) unfolding session_complete_def by blast
  have "inv e (map driver_metadata msgs) e1"
    using feeds_inv [of "[]" "map driver_metadata msgs" e e1 e] e1(1) assms(2,3) inv_start by simp
  with post_done [OF assms(2), of "map driver_metadata msgs" e1 "it_emitter t"] e1(2) show ?thesis
    by simp
qed

end

subsection \<open>Properties\<close>

text \<open>
  C1. Both ends together: over a connection that keeps the order of messages, a session of the
  client library that returns nil has handed the emitter, in order and one record each, exactly
  the messages that the CSI driver streamed for the handle of the snapshot the caller named,
  to a sidecar that was ready, for the token the library created for the audience of the
  sidecar's service and which the sidecar found authenticated and its user authorized in the
  namespace, with the offset, limit and base of the caller.
\<close>
theorem session_is_complete:
  assumes "grpc_link link"
    and "GetSnapshotMetadata (linked_env cl link env) args e = Some (Inr (), t)"
  shows "\<exists>ops msgs. Emitter args = Some ops \<and> session_complete cl link args ops e msgs t"
  using session_ends_well [OF assms] .

text \<open>
  C2. No record without authorization, whatever happens: also when a session fails anywhere, by
  the driver, the sidecar, the connection or the emitter itself, the records that reached the
  emitter are the first messages, in order, of the driver's stream for the named snapshot,
  opened for a token that the sidecar authenticated and authorized.
\<close>
theorem session_only_driver_data:
  assumes "grpc_link link"
    and "GetSnapshotMetadata (linked_env cl link env) args e = Some (r, t)"
  shows "\<exists>msgs. fed (it_events t) = map driver_metadata msgs \<and>
    (msgs \<noteq> [] \<longrightarrow> (\<exists>h token csi driver sms saNs sa expiry.
       GetService driver (Inr sms) \<in> set (it_events t) \<and>
       CreateToken saNs sa (sms_audience (sms_spec sms)) expiry (Inr token) \<in> set (it_events t) \<and>
       driver_stream cl (lk_server link h) args token csi \<and>
       (\<forall>i < length msgs. csi i = RecvMsg (msgs ! i))))"
  using session_feeds [OF assms] .

text \<open>
  C13. What a listing in JSON says is what the driver said: read back, the text written by a
  session that returned nil gives the type, the capacity and every block of every message that
  the driver streamed.
\<close>
theorem session_json_lossless:
  assumes "grpc_link link"
    and "GetSnapshotMetadata (linked_env cl link env) (args\<lparr>Emitter := Some JSONEmitter\<rparr>)
      \<lparr>je_Writer = [], listNotEmpty = False\<rparr> = Some (Inr (), t)"
  shows "\<exists>msgs. session_complete cl link (args\<lparr>Emitter := Some JSONEmitter\<rparr>) JSONEmitter
      \<lparr>je_Writer = [], listNotEmpty = False\<rparr> msgs t \<and>
    (length msgs < 2 ^ 63 \<longrightarrow>
      read_list (je_Writer (it_emitter t)) = Some (map driver_metadata msgs, []))"
proof -
  let ?e = "\<lparr>je_Writer = [], listNotEmpty = False\<rparr>"
  obtain msgs where m: "session_complete cl link (args\<lparr>Emitter := Some JSONEmitter\<rparr>) JSONEmitter ?e msgs t"
    using session_ends_well [OF assms] by auto
  have "read_list (je_Writer (it_emitter t)) = Some (map driver_metadata msgs, [])"
    if "length msgs < 2 ^ 63"
    using json.session_post [OF m _ that] read_list_json [of "map driver_metadata msgs" "[]"] by simp
  with m show ?thesis by blast
qed

subsection \<open>Examples\<close>

definition link_example :: rpc_link where
  "link_example =
     \<lparr>lk_NewStream = \<lambda>h. None, lk_SendMsg = \<lambda>h. None, lk_CloseSend = \<lambda>h. None, lk_RecvMsg = \<lambda>h. None,
      lk_server = \<lambda>h. server_example, lk_Send = \<lambda>h h' m. None,
      lk_Recv = \<lambda>h. rpc_stream server_example\<rparr>"

definition client_env_example :: iter_env where
  "client_env_example = iter_env_example\<lparr>ie_create_token := \<lambda>h ns sa aud expiry. Inr ''good''\<rparr>"

definition client_args_example :: "(json_emitter, nat) iter_args" where
  "client_args_example = (iter_args_example JSONEmitter)\<lparr>MaxResults := 256\<rparr>"

lemma link_send_example: "link_send link_example h = accepts_all"
  by (simp add: fun_eq_iff link_send_def link_example_def accepts_all_def)

lemma grpc_link_example: "grpc_link link_example"
  by (simp add: grpc_link_def link_example_def rpc_stream_in_order)

definition sent_example :: "metadata_response list" where
  "sent_example = map (\<lambda>i. \<lparr>block_metadata_type = 1, volume_capacity_bytes = 100,
     block_metadata = [\<lparr>byte_offset = i * 10, size_bytes = 10\<rparr>]\<rparr>) [0, 1]"

lemma received_example:
  assumes "\<forall>i < length msgs. csi_stream_example i = RecvMsg (msgs ! i)"
    "csi_stream_example (length msgs) = RecvEOF"
  shows "map convertToGetMetadataAllocatedResponse msgs = sent_example"
proof -
  let ?f = "\<lambda>n :: nat. \<lparr>csi_block_metadata_type = 1, csi_volume_capacity_bytes = 100,
        csi_block_metadata = [\<lparr>csi_byte_offset = of_nat n * 10, csi_size_bytes = 10\<rparr>]\<rparr>"
  have "received csi_stream_example msgs" using assms by (simp add: received_def)
  moreover have "received csi_stream_example [?f 0, ?f 1]"
    by (auto simp: received_def csi_stream_example_def less_Suc_eq_0_disj)
  ultimately have "msgs = [?f 0, ?f 1]" by (rule received_unique)
  then show ?thesis by (simp add: sent_example_def convertToGetMetadataAllocatedResponse_def)
qed

lemma sent_by_example:
  assumes "GetMetadataAllocated cluster_example accepts_all allocated_request_example server_example =
    Some (Inr (), t)"
  shows "sent_since server_example t = sent_example"
proof -
  obtain es msgs csi where es: "events t = events server_example @ es"
      "delivered es = map convertToGetMetadataAllocatedResponse msgs"
      "allocated_rpc.opened_stream cluster_example server_example allocated_request_example csi"
      "\<forall>i < length msgs. csi i = RecvMsg (msgs ! i)" "csi (length msgs) = RecvEOF"
    using allocated_rpc.handler_sent [OF assms] by blast
  have "csi = csi_stream_example"
    using es(3) by (auto simp: allocated_rpc.opened_stream_def cluster_example_def csi_stream_example_def)
  with es received_example show ?thesis by (simp add: sent_since_def)
qed

lemma call_example:
  "\<exists>stream. (\<forall>h. ie_allocated (linked_env cluster_example link_example client_env_example) h
      \<lparr>gma_security_token = ''good'', gma_namespace = ''ns'', gma_snapshot_name = ''snap'',
       gma_starting_offset = 0, gma_max_results = 256\<rparr> = Inr stream) \<and>
    (\<forall>n. stream n = (if n < 2 then RecvMsg (sent_example ! n) else RecvEOF))"
proof -
  obtain s where s: "GetMetadataAllocated cluster_example accepts_all allocated_request_example
      server_example = Some (Inr (), s)" using allocated_example by blast
  have "ie_allocated (linked_env cluster_example link_example client_env_example) h
      allocated_request_example = Inr (rpc_stream server_example (Some (Inr (), s)))" for h
    by (simp add: linked_env_def client_GetMetadataAllocated_def serve_allocated_def request_received_def
        SnapshotMetadata_GetMetadataAllocated_Handler_def link_example_def s
        link_send_example [unfolded link_example_def])
  moreover have "rpc_stream server_example (Some (Inr (), s)) n =
      (if n < 2 then RecvMsg (sent_example ! n) else RecvEOF)" for n
    using sent_by_example [OF s] by (simp add: rpc_stream_def sent_example_def)
  ultimately show ?thesis unfolding allocated_request_example_def by blast
qed

lemma linked_env_kept [simp]:
  "ie_service_get (linked_env cl link e) = ie_service_get e"
  "ie_create_token (linked_env cl link e) = ie_create_token e"
  "ie_grpc_new_client (linked_env cl link e) = ie_grpc_new_client e"
  by (simp_all add: linked_env_def)

lemmas session_run_defs = client_args_example_def iter_args_example_def GetSnapshotMetadata_def
  Args_Validate_def Clients_Validate_def newIterator_def iter_run_def iter_connect_def
  getSnapshotMetadataServiceCR_def createSecurityToken_def getGRPCClient_def iter_blocks_def
  getAllocatedBlocks_def recv_loop.simps emit_record_def emit_done_def io_run Let_def
  client_env_example_def iter_env_example_def sent_example_def

lemma session_example:
  "\<exists>t. GetSnapshotMetadata (linked_env cluster_example link_example client_env_example)
       (client_args_example\<lparr>Emitter := Some JSONEmitter\<rparr>) \<lparr>je_Writer = [], listNotEmpty = False\<rparr> =
     Some (Inr (), t)"
proof -
  obtain stream where "\<forall>h. ie_allocated (linked_env cluster_example link_example client_env_example) h
      \<lparr>gma_security_token = ''good'', gma_namespace = ''ns'', gma_snapshot_name = ''snap'',
       gma_starting_offset = 0, gma_max_results = 256\<rparr> = Inr stream"
    "\<forall>n. stream n = (if n < 2 then RecvMsg (sent_example ! n) else RecvEOF)" using call_example by blast
  then show ?thesis
    by (simp add: session_run_defs JSONEmitter_def JSONEmitter_Record_def JSONEmitter_Done_def)
qed

lemma complete_example:
  assumes "session_complete cluster_example link (client_args_example\<lparr>Emitter := Some JSONEmitter\<rparr>)
    ops e msgs t"
  shows "map driver_metadata msgs = map metadata_of sent_example"
proof -
  obtain s token csi where d: "driver_stream cluster_example s
      (client_args_example\<lparr>Emitter := Some JSONEmitter\<rparr>) token csi" "received csi msgs"
    using assms unfolding session_complete_def by blast
  have "csi = csi_stream_example"
    using d(1) by (auto simp: driver_stream_def client_args_example_def iter_args_example_def
        cluster_example_def csi_stream_example_def)
  with d(2) received_example [of msgs] show ?thesis
    by (simp add: received_def metadata_of_converted flip: map_map comp_def)
      (metis (no_types, lifting) list.map_comp map_eq_conv metadata_of_converted(1) comp_apply)
qed

theorem session_is_complete_witness:
  "\<exists>t msgs. session_complete cluster_example link_example
      (client_args_example\<lparr>Emitter := Some JSONEmitter\<rparr>) JSONEmitter
      \<lparr>je_Writer = [], listNotEmpty = False\<rparr> msgs t \<and>
    map driver_metadata msgs = map metadata_of sent_example"
proof -
  obtain t where t: "GetSnapshotMetadata (linked_env cluster_example link_example client_env_example)
       (client_args_example\<lparr>Emitter := Some JSONEmitter\<rparr>) \<lparr>je_Writer = [], listNotEmpty = False\<rparr> =
     Some (Inr (), t)" using session_example by blast
  from session_is_complete [OF grpc_link_example t] obtain msgs where
    m: "session_complete cluster_example link_example (client_args_example\<lparr>Emitter := Some JSONEmitter\<rparr>)
      JSONEmitter \<lparr>je_Writer = [], listNotEmpty = False\<rparr> msgs t" by auto
  with complete_example [OF m] show ?thesis by blast
qed

theorem session_json_lossless_witness:
  "\<exists>t. GetSnapshotMetadata (linked_env cluster_example link_example client_env_example)
       (client_args_example\<lparr>Emitter := Some JSONEmitter\<rparr>) \<lparr>je_Writer = [], listNotEmpty = False\<rparr> =
     Some (Inr (), t) \<and> read_list (je_Writer (it_emitter t)) = Some (map metadata_of sent_example, [])"
proof -
  obtain t where t: "GetSnapshotMetadata (linked_env cluster_example link_example client_env_example)
       (client_args_example\<lparr>Emitter := Some JSONEmitter\<rparr>) \<lparr>je_Writer = [], listNotEmpty = False\<rparr> =
     Some (Inr (), t)" using session_example by blast
  from session_json_lossless [OF grpc_link_example t] obtain msgs where
    m: "session_complete cluster_example link_example (client_args_example\<lparr>Emitter := Some JSONEmitter\<rparr>)
      JSONEmitter \<lparr>je_Writer = [], listNotEmpty = False\<rparr> msgs t"
    "length msgs < 2 ^ 63 \<longrightarrow> read_list (je_Writer (it_emitter t)) = Some (map driver_metadata msgs, [])"
    by blast
  have ms: "map driver_metadata msgs = map metadata_of sent_example" by (rule complete_example [OF m(1)])
  then have "length msgs = 2" by (metis length_map sent_example_def length_Cons list.size(3) numeral_2_eq_2)
  with m(2) ms t show ?thesis by simp
qed

text \<open>An emitter that refuses the second record: the session fails, and one record of the driver
  was fed.\<close>

definition picky_ops :: "nat emitter_ops" where
  "picky_ops = \<lparr>SnapshotMetadataIteratorRecord = \<lambda>k m n. (if k = 2 then Some (Plain ''full'') else None, n),
     SnapshotMetadataIteratorDone = \<lambda>k n. (None, n)\<rparr>"

theorem session_only_driver_data_witness:
  "\<exists>t. GetSnapshotMetadata (linked_env cluster_example link_example client_env_example)
      ((iter_args_example picky_ops)\<lparr>MaxResults := 256\<rparr>) 0 = Some (Inl (Failed (Plain ''full'')), t) \<and>
    length (fed (it_events t)) = 2 \<and>
    (\<exists>msgs. fed (it_events t) = map driver_metadata msgs \<and> length msgs = 2)"
proof -
  obtain stream where "\<forall>h. ie_allocated (linked_env cluster_example link_example client_env_example) h
      \<lparr>gma_security_token = ''good'', gma_namespace = ''ns'', gma_snapshot_name = ''snap'',
       gma_starting_offset = 0, gma_max_results = 256\<rparr> = Inr stream"
    "\<forall>n. stream n = (if n < 2 then RecvMsg (sent_example ! n) else RecvEOF)" using call_example by blast
  then obtain t where t: "GetSnapshotMetadata (linked_env cluster_example link_example client_env_example)
      ((iter_args_example picky_ops)\<lparr>MaxResults := 256\<rparr>) 0 = Some (Inl (Failed (Plain ''full'')), t)"
      "length (fed (it_events t)) = 2"
    by (simp add: session_run_defs picky_ops_def)
  from session_only_driver_data [OF grpc_link_example t(1)] t show ?thesis by (metis length_map)
qed

end
