(* ===== verification/Informers.thy ===== *)
theory Informers
  imports Api "HOL-Library.Multiset"
begin

text \<open>
  The informers of the custom resource, \<open>client/informers/externalversions\<close>, and its lister,
  \<open>client/listers\<close>. A shared informer, its store and the REST client are client-go's and are
  parameters: a \<open>SharedInformerFactory\<close> keeps informers of a type \<open>'i\<close>, which it makes with the
  function it is given. The factory is shared between goroutines: every method holds its mutex
  while it works on the state, so it is one step; \<open>Shutdown\<close> waits without the mutex and
  is two.
\<close>

subsection \<open>The factory\<close>

text \<open>A \<open>reflect.Type\<close> is its name. A stop channel is a number.\<close>

type_synonym go_type = string
type_synonym stop_channel = nat

text \<open>
  \<open>runs\<close> lists the calls of \<open>informer.Run\<close> made so far and \<open>running\<close> the goroutines of them that have
  not ended; the other fields are those of the Go struct. A tweak of list options changes
  the options through a pointer; here it returns them.
\<close>

record ('c, 'o, 't, 'i) sharedInformerFactory =
  sif_client :: 'c
  sif_namespace :: string
  tweakListOptions :: "('o \<Rightarrow> 'o) option"
  defaultResync :: int64
  customResync :: "go_type \<rightharpoonup> int64"
  sif_transform :: "'t option"
  informers :: "go_type \<rightharpoonup> 'i"
  startedInformers :: "go_type \<rightharpoonup> bool"
  wg :: int
  sif_shuttingDown :: bool
  sif_running :: "(go_type \<times> 'i \<times> stop_channel) list"
  sif_runs :: "(go_type \<times> 'i \<times> stop_channel) list"

text \<open>The map of \<open>WithCustomResyncConfig\<close> has objects as keys; it is the list of their types
  in the order the loop visits them.\<close>

definition WithCustomResyncConfig ::
  "(go_type \<times> int64) list \<Rightarrow> ('c, 'o, 't, 'i) sharedInformerFactory \<Rightarrow> ('c, 'o, 't, 'i) sharedInformerFactory" where
  "WithCustomResyncConfig resyncConfig f =
     f\<lparr>customResync := foldl (\<lambda>m (k, v). m(k \<mapsto> v)) (customResync f) resyncConfig\<rparr>"

definition WithTweakListOptions ::
  "('o \<Rightarrow> 'o) option \<Rightarrow> ('c, 'o, 't, 'i) sharedInformerFactory \<Rightarrow> ('c, 'o, 't, 'i) sharedInformerFactory" where
  "WithTweakListOptions tweak f = f\<lparr>tweakListOptions := tweak\<rparr>"

definition WithNamespace ::
  "string \<Rightarrow> ('c, 'o, 't, 'i) sharedInformerFactory \<Rightarrow> ('c, 'o, 't, 'i) sharedInformerFactory" where
  "WithNamespace ns f = f\<lparr>sif_namespace := ns\<rparr>"

definition WithTransform ::
  "'t option \<Rightarrow> ('c, 'o, 't, 'i) sharedInformerFactory \<Rightarrow> ('c, 'o, 't, 'i) sharedInformerFactory" where
  "WithTransform tr f = f\<lparr>sif_transform := tr\<rparr>"

definition NewSharedInformerFactoryWithOptions ::
  "'c \<Rightarrow> int64 \<Rightarrow>
     (('c, 'o, 't, 'i) sharedInformerFactory \<Rightarrow> ('c, 'o, 't, 'i) sharedInformerFactory) list \<Rightarrow>
     ('c, 'o, 't, 'i) sharedInformerFactory" where
  "NewSharedInformerFactoryWithOptions client resync options =
     foldl (\<lambda>factory opt. opt factory)
       \<lparr>sif_client = client, sif_namespace = '''', tweakListOptions = None, defaultResync = resync,
        customResync = Map.empty, sif_transform = None, informers = Map.empty,
        startedInformers = Map.empty, wg = 0, sif_shuttingDown = False,
        sif_running = [], sif_runs = []\<rparr> options"

definition NewSharedInformerFactory ::
  "'c \<Rightarrow> int64 \<Rightarrow> ('c, 'o, 't, 'i) sharedInformerFactory" where
  "NewSharedInformerFactory client resync = NewSharedInformerFactoryWithOptions client resync []"

definition NewFilteredSharedInformerFactory ::
  "'c \<Rightarrow> int64 \<Rightarrow> string \<Rightarrow> ('o \<Rightarrow> 'o) option \<Rightarrow> ('c, 'o, 't, 'i) sharedInformerFactory" where
  "NewFilteredSharedInformerFactory client resync namespace tweak =
     NewSharedInformerFactoryWithOptions client resync
       [WithNamespace namespace, WithTweakListOptions tweak]"

definition InformerFor ::
  "('t option \<Rightarrow> 'i \<Rightarrow> 'i) \<Rightarrow> go_type \<Rightarrow> ('c \<Rightarrow> int64 \<Rightarrow> 'i) \<Rightarrow>
     ('c, 'o, 't, 'i) sharedInformerFactory \<Rightarrow> 'i \<times> ('c, 'o, 't, 'i) sharedInformerFactory" where
  "InformerFor SetTransform informerType newFunc f =
     (case informers f informerType of
        Some informer \<Rightarrow> (informer, f)
      | None \<Rightarrow>
          let resyncPeriod = (case customResync f informerType of
                Some d \<Rightarrow> d | None \<Rightarrow> defaultResync f);
              informer = SetTransform (sif_transform f) (newFunc (sif_client f) resyncPeriod) in
          (informer, f\<lparr>informers := (informers f)(informerType \<mapsto> informer)\<rparr>))"

text \<open>The loop over the map of informers, in the order of its keys that is given.\<close>

fun start_loop ::
  "stop_channel \<Rightarrow> go_type list \<Rightarrow> ('c, 'o, 't, 'i) sharedInformerFactory \<Rightarrow>
     ('c, 'o, 't, 'i) sharedInformerFactory" where
  "start_loop stopCh [] f = f"
| "start_loop stopCh (informerType # rest) f =
     (case informers f informerType of
        None \<Rightarrow> start_loop stopCh rest f
      | Some informer \<Rightarrow>
          if startedInformers f informerType \<noteq> Some True
          then start_loop stopCh rest
                 (f\<lparr>wg := wg f + 1,
                    sif_running := sif_running f @ [(informerType, informer, stopCh)],
                    sif_runs := sif_runs f @ [(informerType, informer, stopCh)],
                    startedInformers := (startedInformers f)(informerType \<mapsto> True)\<rparr>)
          else start_loop stopCh rest f)"

definition factory_Start ::
  "stop_channel \<Rightarrow> go_type list \<Rightarrow> ('c, 'o, 't, 'i) sharedInformerFactory \<Rightarrow>
     ('c, 'o, 't, 'i) sharedInformerFactory" where
  "factory_Start stopCh order f = (if sif_shuttingDown f then f else start_loop stopCh order f)"

text \<open>\<open>Shutdown\<close>: the part under the mutex, and whether \<open>wg.Wait\<close> returns.\<close>

definition factory_Shutdown ::
  "('c, 'o, 't, 'i) sharedInformerFactory \<Rightarrow> ('c, 'o, 't, 'i) sharedInformerFactory" where
  "factory_Shutdown f = f\<lparr>sif_shuttingDown := True\<rparr>"

definition wait_returns :: "('c, 'o, 't, 'i) sharedInformerFactory \<Rightarrow> bool" where
  "wait_returns f \<longleftrightarrow> wg f = 0"

text \<open>The end of a goroutine, the \<open>k\<close>-th of those that run, with its deferred \<open>wg.Done\<close>.\<close>

definition goroutine_end ::
  "nat \<Rightarrow> ('c, 'o, 't, 'i) sharedInformerFactory \<Rightarrow> ('c, 'o, 't, 'i) sharedInformerFactory" where
  "goroutine_end k f =
     f\<lparr>sif_running := take k (sif_running f) @ drop (Suc k) (sif_running f), wg := wg f - 1\<rparr>"

text \<open>\<open>WaitForCacheSync\<close> waits for the informers that were started when it was called.\<close>

definition started_snapshot :: "('c, 'o, 't, 'i) sharedInformerFactory \<Rightarrow> go_type \<rightharpoonup> 'i" where
  "started_snapshot f = (\<lambda>ty. if startedInformers f ty = Some True then informers f ty else None)"

definition factory_WaitForCacheSync ::
  "('i \<Rightarrow> bool) \<Rightarrow> ('c, 'o, 't, 'i) sharedInformerFactory \<Rightarrow> go_type \<rightharpoonup> bool" where
  "factory_WaitForCacheSync synced f = (\<lambda>ty. map_option synced (started_snapshot f ty))"

subsection \<open>The informer of the custom resource\<close>

definition SnapshotMetadataServiceType :: go_type where
  "SnapshotMetadataServiceType = ''*v1beta1.SnapshotMetadataService''"

definition NamespaceIndex :: string where "NamespaceIndex = ''namespace''"

text \<open>
  What \<open>cache.NewSharedIndexInformer\<close> is given: the client and the tweak that \<open>ListFunc\<close> and
  \<open>WatchFunc\<close> capture, the type of the objects, the resync period and the names of the indexers;
  and the transform that is set later.
\<close>

record ('c, 'o, 't) sms_shared_informer =
  lw_client :: 'c
  lw_tweak :: "('o \<Rightarrow> 'o) option"
  lw_type :: go_type
  lw_resync :: int64
  lw_indexers :: "string list"
  lw_transform :: "'t option"

definition NewFilteredSnapshotMetadataServiceInformer ::
  "'c \<Rightarrow> int64 \<Rightarrow> string list \<Rightarrow> ('o \<Rightarrow> 'o) option \<Rightarrow> ('c, 'o, 't) sms_shared_informer" where
  "NewFilteredSnapshotMetadataServiceInformer client resyncPeriod indexers tweak =
     \<lparr>lw_client = client, lw_tweak = tweak, lw_type = SnapshotMetadataServiceType,
      lw_resync = resyncPeriod, lw_indexers = indexers, lw_transform = None\<rparr>"

definition NewSnapshotMetadataServiceInformer ::
  "'c \<Rightarrow> int64 \<Rightarrow> string list \<Rightarrow> ('c, 'o, 't) sms_shared_informer" where
  "NewSnapshotMetadataServiceInformer client resyncPeriod indexers =
     NewFilteredSnapshotMetadataServiceInformer client resyncPeriod indexers None"

text \<open>The options that \<open>ListFunc\<close> and \<open>WatchFunc\<close> send to the API server.\<close>

definition sms_list_options :: "('c, 'o, 't) sms_shared_informer \<Rightarrow> 'o \<Rightarrow> 'o" where
  "sms_list_options i options = (case lw_tweak i of Some tweak \<Rightarrow> tweak options | None \<Rightarrow> options)"

definition SetTransform :: "'t option \<Rightarrow> ('c, 'o, 't) sms_shared_informer \<Rightarrow> ('c, 'o, 't) sms_shared_informer" where
  "SetTransform tr i = i\<lparr>lw_transform := tr\<rparr>"

type_synonym ('c, 'o, 't) sms_factory =
  "('c, 'o, 't, ('c, 'o, 't) sms_shared_informer) sharedInformerFactory"

definition defaultInformer ::
  "('o \<Rightarrow> 'o) option \<Rightarrow> 'c \<Rightarrow> int64 \<Rightarrow> ('c, 'o, 't) sms_shared_informer" where
  "defaultInformer tweak client resyncPeriod =
     NewFilteredSnapshotMetadataServiceInformer client resyncPeriod [NamespaceIndex] tweak"

definition sms_Informer ::
  "('o \<Rightarrow> 'o) option \<Rightarrow> ('c, 'o, 't) sms_factory \<Rightarrow>
     ('c, 'o, 't) sms_shared_informer \<times> ('c, 'o, 't) sms_factory" where
  "sms_Informer tweak f = InformerFor SetTransform SnapshotMetadataServiceType (defaultInformer tweak) f"

text \<open>
  The chain \<open>factory.Cbt().V1beta1().SnapshotMetadataServices().Informer()\<close>: the group and the version
  hold the namespace and the tweak; the factory, to which they point, is the state. The
  informer is not namespaced and drops the namespace.
\<close>

record 'o informer_access =
  ia_namespace :: string
  ia_tweak :: "('o \<Rightarrow> 'o) option"

definition group_New :: "string \<Rightarrow> ('o \<Rightarrow> 'o) option \<Rightarrow> 'o informer_access" where
  "group_New namespace tweak = \<lparr>ia_namespace = namespace, ia_tweak = tweak\<rparr>"

definition version_New :: "string \<Rightarrow> ('o \<Rightarrow> 'o) option \<Rightarrow> 'o informer_access" where
  "version_New namespace tweak = \<lparr>ia_namespace = namespace, ia_tweak = tweak\<rparr>"

definition factory_Cbt :: "('c, 'o, 't, 'i) sharedInformerFactory \<Rightarrow> 'o informer_access" where
  "factory_Cbt f = group_New (sif_namespace f) (tweakListOptions f)"

definition group_V1beta1 :: "'o informer_access \<Rightarrow> 'o informer_access" where
  "group_V1beta1 g = version_New (ia_namespace g) (ia_tweak g)"

definition version_SnapshotMetadataServices :: "'o informer_access \<Rightarrow> ('o \<Rightarrow> 'o) option" where
  "version_SnapshotMetadataServices v = ia_tweak v"

definition Cbt_SnapshotMetadataServices_Informer ::
  "('c, 'o, 't) sms_factory \<Rightarrow> ('c, 'o, 't) sms_shared_informer \<times> ('c, 'o, 't) sms_factory" where
  "Cbt_SnapshotMetadataServices_Informer f =
     sms_Informer (version_SnapshotMetadataServices (group_V1beta1 (factory_Cbt f))) f"

definition gvr_String :: "group_version_resource \<Rightarrow> string" where
  "gvr_String r = gvr_group r @ ''/'' @ gvr_version r @ '', Resource='' @ gvr_resource r"

definition ForResource ::
  "group_version_resource \<Rightarrow> ('c, 'o, 't) sms_factory \<Rightarrow>
     (gerr + ('c, 'o, 't) sms_shared_informer) \<times> ('c, 'o, 't) sms_factory" where
  "ForResource resource f =
     (if resource = WithResource ''snapshotmetadataservices''
      then (let (i, g) = Cbt_SnapshotMetadataServices_Informer f in (Inr i, g))
      else (Inl (Plain (''no informer found for '' @ gvr_String resource)), f))"

subsection \<open>The lister\<close>

text \<open>
  A selector of labels, the labels of an object and the lookup of the indexer are parameters;
  \<open>ListAll\<close> is the vendored \<open>cache.ListAll\<close> over the objects of the store.
\<close>

record label_selector =
  MatchesNothing :: bool
  sel_Empty :: bool
  sel_Matches :: "(string \<rightharpoonup> string) \<Rightarrow> bool"

fun ListAll_loop ::
  "('a \<Rightarrow> gerr + (string \<rightharpoonup> string)) \<Rightarrow> label_selector \<Rightarrow> 'a list \<Rightarrow> 'a list \<Rightarrow> 'a list \<times> gerr option" where
  "ListAll_loop labels sel [] ret = (ret, None)"
| "ListAll_loop labels sel (m # ms) ret =
     (if sel_Empty sel then ListAll_loop labels sel ms (ret @ [m])
      else (case labels m of
              Inl err \<Rightarrow> (ret, Some err)
            | Inr ls \<Rightarrow> if sel_Matches sel ls then ListAll_loop labels sel ms (ret @ [m])
                        else ListAll_loop labels sel ms ret))"

definition sms_lister_List ::
  "('a \<Rightarrow> gerr + (string \<rightharpoonup> string)) \<Rightarrow> 'a list \<Rightarrow> label_selector \<Rightarrow> 'a list \<times> gerr option" where
  "sms_lister_List labels store sel =
     (if MatchesNothing sel then ([], None) else ListAll_loop labels sel store [])"

definition NewNotFound :: "string \<Rightarrow> string \<Rightarrow> gerr" where
  "NewNotFound resource name =
     Plain (resource @ ''.'' @ GroupName @ '' '' @ quote name @ '' not found'')"

text \<open>The indexer returns the object and whether it exists, or an error.\<close>

definition sms_lister_Get ::
  "(string \<Rightarrow> gerr + 'a option) \<Rightarrow> string \<Rightarrow> gerr + 'a" where
  "sms_lister_Get GetByKey name =
     (case GetByKey name of
        Inl err \<Rightarrow> Inl err
      | Inr None \<Rightarrow> Inl (NewNotFound ''snapshotmetadataservice'' name)
      | Inr (Some obj) \<Rightarrow> Inr obj)"

subsection \<open>The factory shared between goroutines\<close>

record ('c, 'o, 't, 'i) informer_process =
  ip_factory :: "('c, 'o, 't, 'i) sharedInformerFactory"
  ip_waiting :: nat
  ip_closed :: "stop_channel set"

datatype ('c, 'i) informer_action =
  CallInformerFor go_type "'c \<Rightarrow> int64 \<Rightarrow> 'i"
| CallStart stop_channel "go_type list"
| CallShutdown
| ShutdownReturns
| CloseChannel stop_channel
| RunReturns nat

text \<open>
  One step of any goroutine of the program. \<open>ip_waiting\<close> counts the calls of \<open>Shutdown\<close> that wait, and
  \<open>ip_closed\<close> are the stop channels that were closed; the program closes a channel at most once.
  \<open>informer.Run\<close> runs until the channel it was started with is closed, and may return from then on.
\<close>

inductive informer_step ::
  "('t option \<Rightarrow> 'i \<Rightarrow> 'i) \<Rightarrow> ('c, 'o, 't, 'i) informer_process \<Rightarrow> ('c, 'i) informer_action \<Rightarrow>
     ('c, 'o, 't, 'i) informer_process \<Rightarrow> bool"
  for st where
  informer_for: "informer_step st p (CallInformerFor ty new)
    (p\<lparr>ip_factory := snd (InformerFor st ty new (ip_factory p))\<rparr>)"
| start: "range_order (informers (ip_factory p)) order \<Longrightarrow>
    informer_step st p (CallStart ch order) (p\<lparr>ip_factory := factory_Start ch order (ip_factory p)\<rparr>)"
| shutdown: "informer_step st p CallShutdown
    (p\<lparr>ip_factory := factory_Shutdown (ip_factory p), ip_waiting := ip_waiting p + 1\<rparr>)"
| shutdown_returns: "0 < ip_waiting p \<Longrightarrow> wait_returns (ip_factory p) \<Longrightarrow>
    informer_step st p ShutdownReturns (p\<lparr>ip_waiting := ip_waiting p - 1\<rparr>)"
| close_channel: "ch \<notin> ip_closed p \<Longrightarrow>
    informer_step st p (CloseChannel ch) (p\<lparr>ip_closed := insert ch (ip_closed p)\<rparr>)"
| run_returns: "k < length (sif_running (ip_factory p)) \<Longrightarrow>
    snd (snd (sif_running (ip_factory p) ! k)) \<in> ip_closed p \<Longrightarrow>
    informer_step st p (RunReturns k) (p\<lparr>ip_factory := goroutine_end k (ip_factory p)\<rparr>)"

inductive_cases shutdown_returns_step: "informer_step st p ShutdownReturns q"
inductive_cases informer_any_step: "informer_step st p a q"

inductive informer_runs ::
  "('t option \<Rightarrow> 'i \<Rightarrow> 'i) \<Rightarrow> ('c, 'o, 't, 'i) informer_process \<Rightarrow> ('c, 'i) informer_action list \<Rightarrow>
     ('c, 'o, 't, 'i) informer_process \<Rightarrow> bool"
  for st where
  none: "informer_runs st p [] p"
| snoc: "informer_runs st p as q \<Longrightarrow> informer_step st q a r \<Longrightarrow> informer_runs st p (as @ [a]) r"

subsection \<open>Invariants\<close>

text \<open>
  The wait group counts the goroutines; a type is started when, and only when, the informer that is registered for
  it was run; no type was run twice; what runs was started.
\<close>

definition factory_inv :: "('c, 'o, 't, 'i) sharedInformerFactory \<Rightarrow> bool" where
  "factory_inv f \<longleftrightarrow>
     wg f = int (length (sif_running f)) \<and>
     distinct (map fst (sif_runs f)) \<and> distinct (map fst (sif_running f)) \<and>
     set (sif_running f) \<subseteq> set (sif_runs f) \<and>
     (\<forall>(ty, i, ch) \<in> set (sif_runs f). informers f ty = Some i) \<and>
     (\<forall>ty. startedInformers f ty = Some True \<longleftrightarrow> ty \<in> fst ` set (sif_runs f))"

lemma InformerFor_inv:
  assumes "factory_inv f"
  shows "factory_inv (snd (InformerFor st ty new f))"
proof (cases "informers f ty")
  case None
  then have "ty \<notin> fst ` set (sif_runs f)" using assms by (auto simp: factory_inv_def)
  with assms None show ?thesis
    by (auto simp: factory_inv_def InformerFor_def Let_def split_def)
next
  case (Some i)
  with assms show ?thesis by (simp add: InformerFor_def)
qed

lemma start_loop_inv: "factory_inv f \<Longrightarrow> factory_inv (start_loop ch order f)"
proof (induction ch order f rule: start_loop.induct)
  case (2 ch ty rest f)
  show ?case
  proof (cases "informers f ty")
    case None
    with 2 show ?thesis by simp
  next
    case (Some i)
    let ?g = "f\<lparr>wg := wg f + 1, sif_running := sif_running f @ [(ty, i, ch)],
      sif_runs := sif_runs f @ [(ty, i, ch)], startedInformers := (startedInformers f)(ty \<mapsto> True)\<rparr>"
    show ?thesis
    proof (cases "startedInformers f ty = Some True")
      case True
      with 2 Some show ?thesis by simp
    next
      case False
      with 2(4) have new: "ty \<notin> fst ` set (sif_runs f)" by (simp add: factory_inv_def)
      have "fst ` set (sif_running f) \<subseteq> fst ` set (sif_runs f)"
        using 2(4) by (auto simp: factory_inv_def)
      with new 2(4) Some have "factory_inv ?g" by (auto simp: factory_inv_def)
      with 2(2) [OF Some] False Some show ?thesis by simp
    qed
  qed
qed simp

lemma goroutine_end_inv:
  assumes "factory_inv f" "k < length (sif_running f)"
  shows "factory_inv (goroutine_end k f)"
proof -
  let ?r = "sif_running f"
  have r: "take k ?r @ ?r ! k # drop (Suc k) ?r = ?r" using assms(2) by (simp add: id_take_nth_drop [symmetric])
  have "distinct (map fst (take k ?r @ ?r ! k # drop (Suc k) ?r))"
    using assms(1) unfolding r by (simp add: factory_inv_def)
  then have "distinct (map fst (take k ?r @ drop (Suc k) ?r))" by auto
  moreover have "set (take k ?r @ drop (Suc k) ?r) \<subseteq> set ?r"
    by (auto dest: in_set_takeD in_set_dropD)
  moreover have "int (length (take k ?r @ drop (Suc k) ?r)) = int (length ?r) - 1" using assms(2) by simp
  ultimately show ?thesis using assms(1) unfolding factory_inv_def goroutine_end_def by auto
qed

lemma factory_Start_inv: "factory_inv f \<Longrightarrow> factory_inv (factory_Start ch order f)"
  by (simp add: factory_Start_def start_loop_inv)

lemma factory_Shutdown_inv: "factory_inv f \<Longrightarrow> factory_inv (factory_Shutdown f)"
  by (simp add: factory_Shutdown_def factory_inv_def)

lemma informer_step_inv:
  "informer_step st p a q \<Longrightarrow> factory_inv (ip_factory p) \<Longrightarrow> factory_inv (ip_factory q)"
  by (erule informer_any_step)
    (simp_all add: InformerFor_inv factory_Start_inv factory_Shutdown_inv goroutine_end_inv)

lemma informer_runs_inv:
  "informer_runs st p as q \<Longrightarrow> factory_inv (ip_factory p) \<Longrightarrow> factory_inv (ip_factory q)"
  by (induction rule: informer_runs.induct) (auto intro: informer_step_inv)

lemma informer_step_inv':
  "informer_step st p a q \<Longrightarrow> 0 < ip_waiting p \<longrightarrow> sif_shuttingDown (ip_factory p) \<Longrightarrow>
     0 < ip_waiting q \<longrightarrow> sif_shuttingDown (ip_factory q)"
  by (erule informer_any_step)
    (auto simp: InformerFor_def factory_Start_def factory_Shutdown_def goroutine_end_def Let_def
      split: option.splits)

lemma informer_runs_waiting:
  "informer_runs st p as q \<Longrightarrow> 0 < ip_waiting p \<longrightarrow> sif_shuttingDown (ip_factory p) \<Longrightarrow>
     0 < ip_waiting q \<longrightarrow> sif_shuttingDown (ip_factory q)"
  by (induction rule: informer_runs.induct) (auto dest: informer_step_inv')

lemma InformerFor_fields:
  "sif_running (snd (InformerFor st ty new f)) = sif_running f"
  "sif_runs (snd (InformerFor st ty new f)) = sif_runs f"
  "sif_shuttingDown (snd (InformerFor st ty new f)) = sif_shuttingDown f"
  "startedInformers (snd (InformerFor st ty new f)) = startedInformers f"
  by (simp_all add: InformerFor_def Let_def split: option.split)

lemma start_loop_fields:
  "informers (start_loop ch order f) = informers f"
  "sif_shuttingDown (start_loop ch order f) = sif_shuttingDown f"
  by (induction ch order f rule: start_loop.induct) (auto split: option.splits)

text \<open>After the shutdown has begun, the only thing that happens to goroutines is that they end.\<close>

fun ends :: "('c, 'i) informer_action list \<Rightarrow> nat" where
  "ends [] = 0"
| "ends (RunReturns k # as) = Suc (ends as)"
| "ends (a # as) = ends as"

lemma ends_append [simp]: "ends (as @ bs) = ends as + ends bs"
  by (induction as rule: ends.induct) auto

lemma ends_replicate [simp]: "ends (replicate n (RunReturns k)) = n"
  by (induction n) simp_all

definition ending :: "('c, 'o, 't, 'i) sharedInformerFactory \<Rightarrow> nat \<Rightarrow> ('c, 'o, 't, 'i) sharedInformerFactory \<Rightarrow> bool" where
  "ending f n g \<longleftrightarrow> sif_shuttingDown g \<and> sif_runs g = sif_runs f \<and>
     set (sif_running g) \<subseteq> set (sif_running f) \<and> length (sif_running g) + n = length (sif_running f)"

lemma ending_refl: "sif_shuttingDown f \<Longrightarrow> ending f 0 f"
  by (simp add: ending_def)

lemma ending_trans: "ending f m g \<Longrightarrow> ending g n h \<Longrightarrow> ending f (m + n) h"
  by (auto simp: ending_def)

lemma goroutine_end_ending:
  "sif_shuttingDown f \<Longrightarrow> k < length (sif_running f) \<Longrightarrow> ending f 1 (goroutine_end k f)"
  by (auto simp: ending_def goroutine_end_def dest: in_set_takeD in_set_dropD)

lemma informer_step_ending:
  "informer_step st p a q \<Longrightarrow> sif_shuttingDown (ip_factory p) \<Longrightarrow>
     ending (ip_factory p) (ends [a]) (ip_factory q)"
  by (erule informer_any_step)
    (auto simp: ending_refl goroutine_end_ending [simplified] InformerFor_fields factory_Start_def
      factory_Shutdown_def ending_def goroutine_end_def dest: in_set_takeD in_set_dropD)

lemma informer_runs_ending:
  assumes "informer_runs st p as q" "sif_shuttingDown (ip_factory p)"
  shows "ending (ip_factory p) (ends as) (ip_factory q)"
  using assms
proof (induction rule: informer_runs.induct)
  case (none p)
  then show ?case by (simp add: ending_refl)
next
  case (snoc p as q a r)
  then have pq: "ending (ip_factory p) (ends as) (ip_factory q)" by blast
  then have "ending (ip_factory q) (ends [a]) (ip_factory r)"
    using informer_step_ending [OF snoc(2)] by (simp add: ending_def)
  with pq show ?case by (simp add: ending_trans)
qed

lemma informer_runs_append:
  "informer_runs st p (as @ bs) r \<longleftrightarrow> (\<exists>q. informer_runs st p as q \<and> informer_runs st q bs r)"
proof
  show "\<exists>q. informer_runs st p as q \<and> informer_runs st q bs r" if "informer_runs st p (as @ bs) r"
    using that
  proof (induction bs arbitrary: r rule: rev_induct)
    case Nil
    then show ?case by (auto intro: informer_runs.none)
  next
    case (snoc b bs)
    from snoc.prems obtain q where "informer_runs st p (as @ bs) q" "informer_step st q b r"
      by (auto elim: informer_runs.cases)
    with snoc.IH show ?case by (blast intro: informer_runs.snoc)
  qed
next
  assume "\<exists>q. informer_runs st p as q \<and> informer_runs st q bs r"
  then obtain q where "informer_runs st p as q" "informer_runs st q bs r" by blast
  from this(2,1) show "informer_runs st p (as @ bs) r"
  proof (induction rule: informer_runs.induct)
    case (snoc p' bs q a r)
    then show ?case using informer_runs.snoc [of st p "as @ bs" q a r] by simp
  qed simp
qed

lemma informer_runs_one: "informer_runs st p [a] q \<longleftrightarrow> informer_step st p a q"
proof
  assume "informer_runs st p [a] q"
  then obtain r where "informer_runs st p [] r" "informer_step st r a q"
    by (cases rule: informer_runs.cases) auto
  moreover from this(1) have "r = p" by (cases rule: informer_runs.cases) auto
  ultimately show "informer_step st p a q" by simp
next
  assume "informer_step st p a q"
  then show "informer_runs st p [a] q" using informer_runs.snoc [OF informer_runs.none] by fastforce
qed

subsection \<open>What \<open>Start\<close> does\<close>

text \<open>The informers that a loop over the given types starts, in its order.\<close>

definition to_start :: "('c, 'o, 't, 'i) sharedInformerFactory \<Rightarrow> go_type list \<Rightarrow> (go_type \<times> 'i) list" where
  "to_start f order = concat (map (\<lambda>ty.
     case informers f ty of
       None \<Rightarrow> [] | Some i \<Rightarrow> if startedInformers f ty = Some True then [] else [(ty, i)]) order)"

lemma start_loop_starts:
  assumes "distinct order"
  shows "start_loop ch order f =
    f\<lparr>wg := wg f + int (length (to_start f order)),
      sif_running := sif_running f @ map (\<lambda>(ty, i). (ty, i, ch)) (to_start f order),
      sif_runs := sif_runs f @ map (\<lambda>(ty, i). (ty, i, ch)) (to_start f order),
      startedInformers := startedInformers f ++ (\<lambda>ty. if ty \<in> fst ` set (to_start f order) then Some True else None)\<rparr>"
  using assms
proof (induction order arbitrary: f)
  case Nil
  then show ?case by (simp add: to_start_def map_add_def)
next
  case (Cons ty order)
  show ?case
  proof (cases "informers f ty")
    case None
    with Cons show ?thesis by (simp add: to_start_def)
  next
    case (Some i)
    show ?thesis
    proof (cases "startedInformers f ty = Some True")
      case True
      with Cons Some show ?thesis by (simp add: to_start_def)
    next
      case False
      let ?g = "f\<lparr>wg := wg f + 1, sif_running := sif_running f @ [(ty, i, ch)],
        sif_runs := sif_runs f @ [(ty, i, ch)], startedInformers := (startedInformers f)(ty \<mapsto> True)\<rparr>"
      have "to_start ?g order = to_start f order"
        using Cons.prems by (auto simp: to_start_def intro!: arg_cong [where f = concat] map_cong split: option.split)
      moreover have "to_start f (ty # order) = (ty, i) # to_start f order"
        using Some False by (simp add: to_start_def)
      moreover have "start_loop ch (ty # order) f = start_loop ch order ?g" using Some False by simp
      ultimately show ?thesis using Cons.IH [of ?g] Cons.prems
        by (auto simp: map_add_def fun_eq_iff)
    qed
  qed
qed

lemma set_to_start:
  "set (to_start f order) = {(ty, i). ty \<in> set order \<and> informers f ty = Some i \<and> startedInformers f ty \<noteq> Some True}"
  by (auto simp: to_start_def split: option.splits if_splits)

lemma distinct_to_start: "distinct order \<Longrightarrow> distinct (map fst (to_start f order))"
proof (induction order)
  case (Cons ty order)
  have "ty \<notin> fst ` set (to_start f order)" using Cons.prems by (auto simp: set_to_start)
  with Cons show ?case by (auto simp: to_start_def split: option.split)
qed (simp add: to_start_def)

lemma start_loop_all_started:
  assumes "distinct order" "ty \<in> set order" "informers f ty \<noteq> None"
  shows "startedInformers (start_loop ch order f) ty = Some True"
  using assms
  by (auto simp: start_loop_starts map_add_def set_to_start image_iff split: option.split)

subsection \<open>Properties\<close>

text \<open>The options a factory can be made with.\<close>

definition factory_option ::
  "(('c, 'o, 't, 'i) sharedInformerFactory \<Rightarrow> ('c, 'o, 't, 'i) sharedInformerFactory) \<Rightarrow> bool" where
  "factory_option opt \<longleftrightarrow> (\<exists>r. opt = WithCustomResyncConfig r) \<or> (\<exists>w. opt = WithTweakListOptions w) \<or>
     (\<exists>n. opt = WithNamespace n) \<or> (\<exists>tr. opt = WithTransform tr)"

definition new_process ::
  "'c \<Rightarrow> int64 \<Rightarrow>
     (('c, 'o, 't, 'i) sharedInformerFactory \<Rightarrow> ('c, 'o, 't, 'i) sharedInformerFactory) list \<Rightarrow>
     ('c, 'o, 't, 'i) informer_process" where
  "new_process client resync options =
     \<lparr>ip_factory = NewSharedInformerFactoryWithOptions client resync options, ip_waiting = 0,
      ip_closed = {}\<rparr>"

lemma option_keeps:
  assumes "factory_option opt"
  shows "informers (opt f) = informers f" "startedInformers (opt f) = startedInformers f"
    "wg (opt f) = wg f" "sif_running (opt f) = sif_running f" "sif_runs (opt f) = sif_runs f"
    "sif_client (opt f) = sif_client f" "defaultResync (opt f) = defaultResync f"
  using assms
  by (auto simp: factory_option_def WithCustomResyncConfig_def WithTweakListOptions_def
      WithNamespace_def WithTransform_def)

lemma new_factory_inv:
  assumes "\<forall>opt \<in> set options. factory_option opt"
  shows "factory_inv (NewSharedInformerFactoryWithOptions client resync options)"
proof -
  have fold: "factory_inv f \<Longrightarrow> factory_inv (foldl (\<lambda>factory opt. opt factory) f options)" for f
    using assms
  proof (induction options arbitrary: f)
    case (Cons opt options)
    have "factory_inv (opt f)" using Cons.prems by (simp add: factory_inv_def option_keeps)
    with Cons show ?case by simp
  qed simp
  show ?thesis
    unfolding NewSharedInformerFactoryWithOptions_def by (rule fold) (simp add: factory_inv_def)
qed

lemma new_process_inv:
  assumes "\<forall>opt \<in> set options. factory_option opt"
    "informer_runs st (new_process client resync options) as p"
  shows "factory_inv (ip_factory p)" "0 < ip_waiting p \<longrightarrow> sif_shuttingDown (ip_factory p)"
  using informer_runs_inv [OF assms(2)] informer_runs_waiting [OF assms(2)]
    new_factory_inv [OF assms(1)] by (simp_all add: new_process_def)

text \<open>
  C28. However calls of the factory from different goroutines interleave, and in whatever order the
  loops visit the maps: every informer is run at most once, and it is the informer that
  \<open>InformerFor\<close> returned and still returns for its type; the wait group counts exactly the
  goroutines that run; and a type is marked as started exactly when its informer was run.
\<close>
theorem informers_run_once:
  assumes "\<forall>opt \<in> set options. factory_option opt"
    and "informer_runs st (new_process client resync options) as p"
  shows "distinct (map fst (sif_runs (ip_factory p))) \<and>
    (\<forall>(ty, i, ch) \<in> set (sif_runs (ip_factory p)).
       \<forall>new. fst (InformerFor st ty new (ip_factory p)) = i) \<and>
    wg (ip_factory p) = int (length (sif_running (ip_factory p))) \<and>
    set (sif_running (ip_factory p)) \<subseteq> set (sif_runs (ip_factory p)) \<and>
    (\<forall>ty. (startedInformers (ip_factory p) ty = Some True) = (ty \<in> fst ` set (sif_runs (ip_factory p))))"
  using new_process_inv(1) [OF assms] by (auto simp: factory_inv_def InformerFor_def)

text \<open>
  C29. When a call of \<open>Shutdown\<close> has returned, no goroutine of the factory runs, and none ever runs
  again, whatever is called afterwards: no call of \<open>Start\<close> has had an effect since the shutdown
  began.
\<close>
theorem shutdown_is_final:
  assumes "\<forall>opt \<in> set options. factory_option opt"
    and "informer_runs st (new_process client resync options) (as @ [ShutdownReturns]) p"
    and "informer_runs st p bs q"
  shows "sif_running (ip_factory q) = [] \<and> sif_runs (ip_factory q) = sif_runs (ip_factory p) \<and>
    wait_returns (ip_factory q) \<and> sif_shuttingDown (ip_factory q)"
proof -
  obtain r where r: "informer_runs st (new_process client resync options) as r"
      "informer_step st r ShutdownReturns p"
    using assms(2) by (auto simp: informer_runs_append informer_runs_one)
  then have step: "0 < ip_waiting r" "wait_returns (ip_factory r)" "ip_factory p = ip_factory r"
    by (auto elim: shutdown_returns_step)
  have down: "sif_shuttingDown (ip_factory p)" using new_process_inv(2) [OF assms(1) r(1)] step by simp
  have none: "sif_running (ip_factory p) = []"
    using new_process_inv(1) [OF assms(1) r(1)] step by (simp add: factory_inv_def wait_returns_def)
  have e: "ending (ip_factory p) (ends bs) (ip_factory q)" by (rule informer_runs_ending [OF assms(3) down])
  have "factory_inv (ip_factory q)"
    using informer_runs_inv [OF assms(3)] new_process_inv(1) [OF assms(1,2)] by blast
  with e none show ?thesis by (auto simp: ending_def factory_inv_def wait_returns_def)
qed

text \<open>The stop channels of the goroutines that run.\<close>

definition run_channels :: "('c, 'o, 't, 'i) sharedInformerFactory \<Rightarrow> stop_channel set" where
  "run_channels f = (\<lambda>(ty, i, ch). ch) ` set (sif_running f)"

lemma run_returns_all:
  assumes "run_channels (ip_factory p) \<subseteq> ip_closed p"
  shows "\<exists>q. informer_runs st p (replicate (length (sif_running (ip_factory p))) (RunReturns 0)) q \<and>
     ip_waiting q = ip_waiting p"
  using assms
proof (induction "length (sif_running (ip_factory p))" arbitrary: p)
  case 0
  then show ?case by (auto intro: informer_runs.none)
next
  case (Suc n)
  let ?p1 = "p\<lparr>ip_factory := goroutine_end 0 (ip_factory p)\<rparr>"
  have l: "length (sif_running (ip_factory p)) = Suc (length (sif_running (ip_factory ?p1)))"
    using Suc(2) by (simp add: goroutine_end_def)
  have "run_channels (ip_factory ?p1) \<subseteq> ip_closed ?p1"
    using Suc(3) by (auto simp: run_channels_def goroutine_end_def dest!: in_set_dropD)
  moreover have "n = length (sif_running (ip_factory ?p1))" using Suc(2) l by simp
  ultimately obtain q where q: "informer_runs st ?p1
      (replicate (length (sif_running (ip_factory ?p1))) (RunReturns 0)) q" "ip_waiting q = ip_waiting ?p1"
    using Suc(1) by blast
  have "sif_running (ip_factory p) ! 0 \<in> set (sif_running (ip_factory p))" using l by (intro nth_mem) simp
  with Suc(3) have "snd (snd (sif_running (ip_factory p) ! 0)) \<in> ip_closed p"
    by (auto simp: run_channels_def split_def)
  then have "informer_step st p (RunReturns 0) ?p1"
    by (rule informer_step.run_returns [rotated]) (use l in linarith)
  then have "informer_runs st p [RunReturns 0] ?p1" by (simp add: informer_runs_one)
  with q l show ?case
    using informer_runs_append [of st p "[RunReturns 0]" "replicate (length (sif_running (ip_factory ?p1))) (RunReturns 0)" q]
    by auto
qed

text \<open>A goroutine that has ended had its channel closed.\<close>

definition ended_closed ::
  "('c, 'o, 't, 'i) informer_process \<Rightarrow> ('c, 'o, 't, 'i) informer_process \<Rightarrow> bool" where
  "ended_closed p q \<longleftrightarrow> ip_closed p \<subseteq> ip_closed q \<and>
     (\<forall>x \<in> set (sif_running (ip_factory p)). x \<in> set (sif_running (ip_factory q)) \<or> snd (snd x) \<in> ip_closed q)"

lemma ended_closed_trans: "ended_closed p q \<Longrightarrow> ended_closed q r \<Longrightarrow> ended_closed p r"
  unfolding ended_closed_def by blast

lemma goroutine_end_running:
  assumes "k < length (sif_running f)" "x \<in> set (sif_running f)" "x \<noteq> sif_running f ! k"
  shows "x \<in> set (sif_running (goroutine_end k f))"
proof -
  let ?r = "sif_running f"
  have "set (take k ?r @ ?r ! k # drop (Suc k) ?r) = set ?r"
    using assms(1) by (simp only: id_take_nth_drop [symmetric])
  with assms(2,3) show ?thesis by (auto simp: goroutine_end_def)
qed

lemma start_loop_running: "set (sif_running f) \<subseteq> set (sif_running (start_loop ch order f))"
proof (induction ch order f rule: start_loop.induct)
  case (2 ch ty rest f)
  then show ?case by (fastforce split: option.splits)
qed simp

lemma informer_step_closed: "informer_step st p a q \<Longrightarrow> ended_closed p q"
proof (induction rule: informer_step.induct)
  case (start p order ch)
  then show ?case using start_loop_running by (fastforce simp: ended_closed_def factory_Start_def)
next
  case (run_returns k p)
  then show ?case using goroutine_end_running by (fastforce simp: ended_closed_def)
qed (auto simp: ended_closed_def InformerFor_fields factory_Shutdown_def)

lemma informer_runs_closed: "informer_runs st p as q \<Longrightarrow> ended_closed p q"
proof (induction rule: informer_runs.induct)
  case (none p)
  then show ?case by (simp add: ended_closed_def)
qed (blast intro: ended_closed_trans informer_step_closed)

lemma ends_all: "ends bs = length bs \<Longrightarrow> set bs \<subseteq> range RunReturns"
proof (induction bs)
  case (Cons b bs)
  have le: "ends cs \<le> length cs" for cs :: "('a, 'b) informer_action list"
    by (induction cs rule: ends.induct) auto
  with Cons show ?case using le [of bs] by (cases b) auto
qed simp

lemma informer_runs_keep_closed:
  "informer_runs st p bs q \<Longrightarrow> set bs \<subseteq> range RunReturns \<Longrightarrow> ip_closed q = ip_closed p"
  by (induction rule: informer_runs.induct) (auto elim: informer_any_step)

text \<open>
  C30. A call of \<open>Shutdown\<close> waits for exactly the goroutines that run when it begins: whatever
  else is called, it can return as soon as as many of them have ended as were running, and not
  before. It returns only if the stop channels with which they were started are closed by then,
  and without any other call it can return exactly if all of these channels are closed already.
\<close>
theorem shutdown_returns:
  assumes "\<forall>opt \<in> set options. factory_option opt"
    and "informer_runs st (new_process client resync options) as p" and "0 < ip_waiting p"
  shows "(\<forall>bs q. informer_runs st p bs q \<longrightarrow> ends bs \<le> length (sif_running (ip_factory p)) \<and>
      wait_returns (ip_factory q) = (ends bs = length (sif_running (ip_factory p)))) \<and>
    (\<forall>bs q. informer_runs st p (bs @ [ShutdownReturns]) q \<longrightarrow> run_channels (ip_factory p) \<subseteq> ip_closed q) \<and>
    ((\<exists>bs q. informer_runs st p (bs @ [ShutdownReturns]) q \<and> ends bs = length bs \<and>
        ip_waiting q = ip_waiting p - 1) \<longleftrightarrow> run_channels (ip_factory p) \<subseteq> ip_closed p)"
proof -
  have inv: "factory_inv (ip_factory p)" "sif_shuttingDown (ip_factory p)"
    using new_process_inv [OF assms(1,2)] assms(3) by simp_all
  have waits: "ends bs \<le> length (sif_running (ip_factory p)) \<and>
      wait_returns (ip_factory q) = (ends bs = length (sif_running (ip_factory p)))"
    if run: "informer_runs st p bs q" for bs q
  proof -
    have "factory_inv (ip_factory q)" using informer_runs_inv [OF run inv(1)] .
    moreover have "ending (ip_factory p) (ends bs) (ip_factory q)" by (rule informer_runs_ending [OF run inv(2)])
    ultimately show ?thesis by (auto simp: ending_def factory_inv_def wait_returns_def)
  qed
  have only: "run_channels (ip_factory p) \<subseteq> ip_closed r \<and> ip_closed q = ip_closed r"
    if run: "informer_runs st p (bs @ [ShutdownReturns]) q" and "informer_runs st p bs r"
      "informer_step st r ShutdownReturns q" for bs q r
  proof -
    have "wait_returns (ip_factory r)" "ip_closed q = ip_closed r"
      using that(3) by (auto elim: shutdown_returns_step)
    moreover from this have "sif_running (ip_factory r) = []"
      using informer_runs_inv [OF that(2) inv(1)] by (simp add: factory_inv_def wait_returns_def)
    ultimately show ?thesis using informer_runs_closed [OF that(2)]
      by (auto simp: ended_closed_def run_channels_def)
  qed
  have closed: "run_channels (ip_factory p) \<subseteq> ip_closed q"
    if "informer_runs st p (bs @ [ShutdownReturns]) q" for bs q
    using only that by (metis informer_runs_append informer_runs_one)
  have already: "run_channels (ip_factory p) \<subseteq> ip_closed p"
    if run: "informer_runs st p (bs @ [ShutdownReturns]) q" and bs: "ends bs = length bs" for bs q
  proof -
    obtain r where r: "informer_runs st p bs r" "informer_step st r ShutdownReturns q"
      using run by (auto simp: informer_runs_append informer_runs_one)
    with only [OF run r] informer_runs_keep_closed [OF r(1) ends_all [OF bs]] show ?thesis by simp
  qed
  let ?bs = "replicate (length (sif_running (ip_factory p))) (RunReturns 0) :: ('a, 'd) informer_action list"
  have returns: "\<exists>q. informer_runs st p (?bs @ [ShutdownReturns]) q \<and> ip_waiting q = ip_waiting p - 1"
    if closed: "run_channels (ip_factory p) \<subseteq> ip_closed p"
  proof -
    obtain q where q: "informer_runs st p ?bs q" "ip_waiting q = ip_waiting p"
      using run_returns_all [OF closed] by blast
    have "wait_returns (ip_factory q)" using waits [OF q(1)] by simp
    then have "informer_step st q ShutdownReturns (q\<lparr>ip_waiting := ip_waiting q - 1\<rparr>)"
      using q(2) assms(3) by (intro informer_step.shutdown_returns) simp_all
    with q show ?thesis by (intro exI conjI informer_runs.snoc) auto
  qed
  have "ends ?bs = length ?bs" by simp
  with waits closed already returns show ?thesis by blast
qed

text \<open>
  C31. What \<open>Start\<close> does is the same in every order in which the map of informers can be visited.
  Before a shutdown it marks every registered informer as started and runs exactly those
  that were not, each once, with the channel of the call; the order shows only in the
  order of the goroutines. After a shutdown has begun it does nothing.
\<close>
theorem Start_order_irrelevant:
  assumes "range_order (informers f) order" "range_order (informers f) order'"
  shows "(sif_shuttingDown f \<longrightarrow> factory_Start ch order f = f) \<and>
   (\<not> sif_shuttingDown f \<longrightarrow>
    mset (sif_running (factory_Start ch order f)) = mset (sif_running (factory_Start ch order' f)) \<and>
    startedInformers (factory_Start ch order f) = startedInformers (factory_Start ch order' f) \<and>
    informers (factory_Start ch order f) = informers f \<and>
    (\<forall>ty \<in> dom (informers f). startedInformers (factory_Start ch order f) ty = Some True) \<and>
    (\<exists>new. sif_runs (factory_Start ch order f) = sif_runs f @ new \<and> distinct (map fst new) \<and>
       set new = {(ty, i, c). c = ch \<and> informers f ty = Some i \<and> startedInformers f ty \<noteq> Some True}))"
proof (cases "sif_shuttingDown f")
  case True
  then show ?thesis by (simp add: factory_Start_def)
next
  case False
  have o: "distinct order" "distinct order'" "set order = dom (informers f)" "set order' = dom (informers f)"
    using assms(1,2) by (simp_all add: range_order_def)
  have sets: "set (to_start f order) = set (to_start f order')" using o by (auto simp: set_to_start)
  have "distinct (to_start f order)" "distinct (to_start f order')"
    using distinct_to_start [OF o(1), of f] distinct_to_start [OF o(2), of f] by (auto simp: distinct_map)
  with sets have "mset (to_start f order) = mset (to_start f order')"
    by (metis set_eq_iff_mset_eq_distinct)
  then have runs: "mset (map (\<lambda>(ty, i). (ty, i, ch)) (to_start f order)) =
      mset (map (\<lambda>(ty, i). (ty, i, ch)) (to_start f order'))" by (metis mset_map)
  let ?new = "map (\<lambda>(ty, i). (ty, i, ch)) (to_start f order)"
  have "map fst ?new = map fst (to_start f order)" by auto
  then have "distinct (map fst ?new)" using distinct_to_start [OF o(1), of f] by (simp only:)
  moreover have "set ?new = {(ty, i, c). c = ch \<and> informers f ty = Some i \<and> startedInformers f ty \<noteq> Some True}"
    using o by (auto simp: set_to_start image_iff)
  moreover have "sif_runs (factory_Start ch order f) = sif_runs f @ ?new"
    using False o(1) by (simp add: factory_Start_def start_loop_starts)
  moreover have "\<forall>ty \<in> dom (informers f). startedInformers (factory_Start ch order f) ty = Some True"
    using start_loop_all_started [OF o(1), of _ f ch] False o(3) by (auto simp: factory_Start_def)
  moreover have "startedInformers (factory_Start ch order f) = startedInformers (factory_Start ch order' f)"
    "mset (sif_running (factory_Start ch order f)) = mset (sif_running (factory_Start ch order' f))"
    "informers (factory_Start ch order f) = informers f"
    using False o(1,2) sets runs by (simp_all add: factory_Start_def start_loop_starts)
  ultimately show ?thesis using False by blast
qed

text \<open>
  Both ways to the informer of the custom resource give the same one: after \<open>ForResource\<close> on its
  resource, \<open>Informer()\<close> of the typed interface returns that informer and changes nothing. A new
  one has the client of the factory, the resync period set for the type or else the default, the
  transform and the namespace index, and its requests carry the options as the factory
  tweaks them. Any other resource is an error that leaves the factory as it is.
\<close>
theorem ForResource_shared:
  "(\<exists>i g. ForResource (WithResource ''snapshotmetadataservices'') f = (Inr i, g) \<and>
     Cbt_SnapshotMetadataServices_Informer g = (i, g) \<and>
     ForResource (WithResource ''snapshotmetadataservices'') g = (Inr i, g) \<and>
     (informers f SnapshotMetadataServiceType = None \<longrightarrow>
        lw_client i = sif_client f \<and> lw_transform i = sif_transform f \<and> lw_indexers i = [''namespace''] \<and>
        lw_resync i = (case customResync f SnapshotMetadataServiceType of None \<Rightarrow> defaultResync f | Some d \<Rightarrow> d) \<and>
        sms_list_options i = (case tweakListOptions f of None \<Rightarrow> id | Some tweak \<Rightarrow> tweak))) \<and>
   (r \<noteq> WithResource ''snapshotmetadataservices'' \<longrightarrow>
      ForResource r f = (Inl (Plain (''no informer found for '' @ gvr_String r)), f))"
  by (auto simp: ForResource_def Cbt_SnapshotMetadataServices_Informer_def factory_Cbt_def group_New_def
      group_V1beta1_def version_New_def version_SnapshotMetadataServices_def sms_Informer_def InformerFor_def
      defaultInformer_def NewFilteredSnapshotMetadataServiceInformer_def SetTransform_def Let_def
      sms_list_options_def NamespaceIndex_def fun_eq_iff split: option.split)

lemma ListAll_loop_spec:
  "\<forall>m \<in> set ms. \<exists>ls. labels m = Inr ls \<Longrightarrow>
     ListAll_loop labels sel ms ret =
       (ret @ filter (\<lambda>m. sel_Empty sel \<or> (case labels m of Inr ls \<Rightarrow> sel_Matches sel ls | Inl e \<Rightarrow> False)) ms, None)"
  by (induction ms arbitrary: ret) auto

text \<open>
  The lister answers from the store: \<open>List\<close> returns the objects that the selector matches, in
  their order and without an error when every object has labels, and nothing for a selector
  that matches nothing; \<open>Get\<close> returns the object of the name or the not found error with
  the name quoted.
\<close>
theorem sms_lister_spec:
  assumes "\<forall>m \<in> set store. \<exists>ls. labels m = Inr ls"
  shows "sms_lister_List labels store sel =
      (filter (\<lambda>m. \<not> MatchesNothing sel \<and>
         (sel_Empty sel \<or> (case labels m of Inr ls \<Rightarrow> sel_Matches sel ls | Inl e \<Rightarrow> False))) store, None) \<and>
    sms_lister_Get (\<lambda>n. Inr (map_of kvs n)) name =
      (case map_of kvs name of
         Some obj \<Rightarrow> Inr obj
       | None \<Rightarrow> Inl (Plain (''snapshotmetadataservice.cbt.storage.k8s.io '' @ quote name @ '' not found'')))"
  using ListAll_loop_spec [OF assms, of sel "[]"]
  by (auto simp: sms_lister_List_def sms_lister_Get_def NewNotFound_def GroupName_def split: option.split)

subsection \<open>Examples\<close>

text \<open>Two informers, a start, a shutdown that waits for both, and a start that comes too late.\<close>

definition informer_options_example ::
  "((nat, nat, unit, nat) sharedInformerFactory \<Rightarrow> (nat, nat, unit, nat) sharedInformerFactory) list" where
  "informer_options_example = [WithNamespace ''ns'', WithCustomResyncConfig [(''b'', 7)]]"

definition informer_trace_example :: "(nat, nat) informer_action list" where
  "informer_trace_example =
     [CallInformerFor ''a'' (\<lambda>c d. unat d), CallInformerFor ''b'' (\<lambda>c d. unat d),
      CallStart 1 [''b'', ''a''], CallStart 2 [''a'', ''b''], CloseChannel 1,
      CallShutdown]"

lemma informer_options_ok: "\<forall>opt \<in> set informer_options_example. factory_option opt"
  by (auto simp: informer_options_example_def factory_option_def)

lemma informer_runs_Cons:
  "informer_step st p a q \<Longrightarrow> informer_runs st q as r \<Longrightarrow> informer_runs st p (a # as) r"
  using informer_runs_append [of st p "[a]" as r] by (auto simp: informer_runs_one)

definition informer_process_example :: "(nat, nat, unit, nat) informer_process" where
  "informer_process_example =
     \<lparr>ip_factory = \<lparr>sif_client = 3, sif_namespace = ''ns'', tweakListOptions = None, defaultResync = 5,
        customResync = [''b'' \<mapsto> 7], sif_transform = None, informers = [''a'' \<mapsto> 5, ''b'' \<mapsto> 7],
        startedInformers = [''b'' \<mapsto> True, ''a'' \<mapsto> True], wg = 2, sif_shuttingDown = True,
        sif_running = [(''b'', 7, 1), (''a'', 5, 1)], sif_runs = [(''b'', 7, 1), (''a'', 5, 1)]\<rparr>,
      ip_waiting = 1, ip_closed = {1}\<rparr>"

lemmas informer_run_defs = informer_options_example_def new_process_def
  NewSharedInformerFactoryWithOptions_def WithNamespace_def WithCustomResyncConfig_def
  InformerFor_def factory_Start_def factory_Shutdown_def goroutine_end_def Let_def

lemma informer_steps:
  "snd (InformerFor st ty new (ip_factory p)) = f \<Longrightarrow>
     informer_step st p (CallInformerFor ty new) (p\<lparr>ip_factory := f\<rparr>)"
  "range_order (informers (ip_factory p)) order \<Longrightarrow> factory_Start ch order (ip_factory p) = f \<Longrightarrow>
     informer_step st p (CallStart ch order) (p\<lparr>ip_factory := f\<rparr>)"
  by (auto intro: informer_step.intros)

lemma informer_example:
  "informer_runs (\<lambda>t i. i) (new_process 3 5 informer_options_example) informer_trace_example
     informer_process_example"
proof -
  let ?p0 = "new_process 3 5 informer_options_example :: (nat, nat, unit, nat) informer_process"
  let ?f0 = "\<lparr>sif_client = 3, sif_namespace = ''ns'', tweakListOptions = None, defaultResync = 5,
        customResync = [''b'' \<mapsto> 7], sif_transform = None, informers = Map.empty,
        startedInformers = Map.empty, wg = 0, sif_shuttingDown = False, sif_running = [], sif_runs = []\<rparr>
      :: (nat, nat, unit, nat) sharedInformerFactory"
  let ?f1 = "?f0\<lparr>informers := [''a'' \<mapsto> 5]\<rparr>"
  let ?f2 = "?f0\<lparr>informers := [''a'' \<mapsto> 5, ''b'' \<mapsto> 7]\<rparr>"
  let ?f3 = "?f2\<lparr>startedInformers := [''b'' \<mapsto> True, ''a'' \<mapsto> True], wg := 2,
      sif_running := [(''b'', 7, 1), (''a'', 5, 1)], sif_runs := [(''b'', 7, 1), (''a'', 5, 1)]\<rparr>"
  let ?st = "\<lambda>(t :: unit option) (i :: nat). i"
  have p0: "?p0 = \<lparr>ip_factory = ?f0, ip_waiting = 0, ip_closed = {}\<rparr>" by (simp add: informer_run_defs)
  have a: "informer_step ?st ?p0 (CallInformerFor ''a'' (\<lambda>c d. unat d)) (?p0\<lparr>ip_factory := ?f1\<rparr>)"
    by (rule informer_steps) (simp add: p0 informer_run_defs)
  have b: "informer_step ?st (?p0\<lparr>ip_factory := ?f1\<rparr>) (CallInformerFor ''b'' (\<lambda>c d. unat d))
      (?p0\<lparr>ip_factory := ?f2\<rparr>)"
    using informer_steps(1) [of ?st "''b''" "\<lambda>c d. unat d" "?p0\<lparr>ip_factory := ?f1\<rparr>" ?f2]
    by (simp add: informer_run_defs)
  have c: "informer_step ?st (?p0\<lparr>ip_factory := ?f2\<rparr>) (CallStart 1 [''b'', ''a'']) (?p0\<lparr>ip_factory := ?f3\<rparr>)"
    using informer_steps(2) [of "?p0\<lparr>ip_factory := ?f2\<rparr>" "[''b'', ''a'']" 1 ?f3 ?st]
    by (simp add: informer_run_defs range_order_def)
  have d: "informer_step ?st (?p0\<lparr>ip_factory := ?f3\<rparr>) (CallStart 2 [''a'', ''b'']) (?p0\<lparr>ip_factory := ?f3\<rparr>)"
    using informer_steps(2) [of "?p0\<lparr>ip_factory := ?f3\<rparr>" "[''a'', ''b'']" 2 ?f3 ?st]
    by (auto simp: informer_run_defs range_order_def)
  let ?p4 = "?p0\<lparr>ip_factory := ?f3, ip_closed := {1}\<rparr>"
  have d1: "informer_step ?st (?p0\<lparr>ip_factory := ?f3\<rparr>) (CloseChannel 1) ?p4"
    using informer_step.close_channel [of 1 "?p0\<lparr>ip_factory := ?f3\<rparr>" ?st] by (simp add: p0)
  have e: "informer_step ?st ?p4 CallShutdown informer_process_example"
    using informer_step.shutdown [of ?st ?p4]
    by (simp add: informer_run_defs informer_process_example_def)
  show ?thesis unfolding informer_trace_example_def
    by (rule informer_runs_Cons [OF a] informer_runs_Cons [OF b] informer_runs_Cons [OF c]
        informer_runs_Cons [OF d] informer_runs_Cons [OF d1] informer_runs_Cons [OF e] informer_runs.none)+
qed

theorem informers_run_once_witness:
  "distinct (map fst (sif_runs (ip_factory informer_process_example))) \<and>
   fst (InformerFor (\<lambda>t i. i) ''a'' (\<lambda>c d. 99) (ip_factory informer_process_example)) = 5"
  using informers_run_once [OF informer_options_ok informer_example]
  by (simp add: informer_process_example_def)

definition informer_process_done :: "(nat, nat, unit, nat) informer_process" where
  "informer_process_done = informer_process_example
     \<lparr>ip_factory := (ip_factory informer_process_example)\<lparr>sif_running := [], wg := 0\<rparr>, ip_waiting := 0\<rparr>"

lemma informer_example_done:
  "informer_runs (\<lambda>t i. i) informer_process_example [RunReturns 1, RunReturns 0, ShutdownReturns]
     informer_process_done"
proof -
  let ?p = informer_process_example
  let ?f1 = "(ip_factory ?p)\<lparr>sif_running := [(''b'', 7, 1)], wg := 1\<rparr>"
  let ?f2 = "(ip_factory ?p)\<lparr>sif_running := [], wg := 0\<rparr>"
  have "informer_step (\<lambda>t i. i) ?p (RunReturns 1) (?p\<lparr>ip_factory := ?f1\<rparr>)"
    using informer_step.run_returns [of 1 ?p]
    by (simp add: informer_process_example_def goroutine_end_def)
  moreover have "informer_step (\<lambda>t i. i) (?p\<lparr>ip_factory := ?f1\<rparr>) (RunReturns 0) (?p\<lparr>ip_factory := ?f2\<rparr>)"
    using informer_step.run_returns [of 0 "?p\<lparr>ip_factory := ?f1\<rparr>"]
    by (simp add: informer_process_example_def goroutine_end_def)
  moreover have "informer_step (\<lambda>t i. i) (?p\<lparr>ip_factory := ?f2\<rparr>) ShutdownReturns informer_process_done"
    using informer_step.shutdown_returns [of "?p\<lparr>ip_factory := ?f2\<rparr>"]
    by (simp add: informer_process_example_def informer_process_done_def wait_returns_def)
  ultimately show ?thesis by (meson informer_runs_Cons informer_runs.none)
qed

theorem shutdown_is_final_witness:
  "\<exists>q. informer_runs (\<lambda>t i. i) informer_process_done [CallStart 3 [''a'', ''b'']] q \<and>
     sif_running (ip_factory q) = [] \<and> length (sif_runs (ip_factory q)) = 2"
proof -
  have run: "informer_runs (\<lambda>t i. i) (new_process 3 5 informer_options_example)
      ((informer_trace_example @ [RunReturns 1, RunReturns 0]) @ [ShutdownReturns]) informer_process_done"
    using informer_example informer_example_done
      informer_runs_append [of "\<lambda>t i. i" _ informer_trace_example "[RunReturns 1, RunReturns 0, ShutdownReturns]"]
    by auto
  have "informer_step (\<lambda>t i. i) informer_process_done (CallStart 3 [''a'', ''b''])
      (informer_process_done\<lparr>ip_factory := factory_Start 3 [''a'', ''b''] (ip_factory informer_process_done)\<rparr>)"
    by (rule informer_step.start)
      (auto simp: range_order_def informer_process_done_def informer_process_example_def)
  then obtain q where q: "informer_runs (\<lambda>t i. i) informer_process_done [CallStart 3 [''a'', ''b'']] q"
    using informer_runs_one by blast
  from shutdown_is_final [OF informer_options_ok run q] q show ?thesis
    by (auto simp: informer_process_done_def informer_process_example_def)
qed

theorem shutdown_returns_witness:
  "run_channels (ip_factory informer_process_example) = {1} \<and>
   (\<exists>bs q. informer_runs (\<lambda>t i. i) informer_process_example (bs @ [ShutdownReturns]) q \<and>
      ends bs = length bs \<and> ip_waiting q = 0)"
proof -
  have "0 < ip_waiting informer_process_example" by (simp add: informer_process_example_def)
  note all = shutdown_returns [OF informer_options_ok informer_example this]
  have "run_channels (ip_factory informer_process_example) = {1}"
    by (simp add: run_channels_def informer_process_example_def)
  with all show ?thesis by (simp add: informer_process_example_def)
qed

theorem Start_order_irrelevant_witness:
  "startedInformers (factory_Start 1 [''a'', ''b'']
     ((NewSharedInformerFactory 3 5 :: (nat, nat, unit, nat) sharedInformerFactory)\<lparr>informers := [''a'' \<mapsto> 5, ''b'' \<mapsto> 7]\<rparr>)) =
   startedInformers (factory_Start 1 [''b'', ''a'']
     ((NewSharedInformerFactory 3 5 :: (nat, nat, unit, nat) sharedInformerFactory)\<lparr>informers := [''a'' \<mapsto> 5, ''b'' \<mapsto> 7]\<rparr>)) \<and>
   startedInformers (factory_Start 1 [''b'', ''a'']
     ((NewSharedInformerFactory 3 5 :: (nat, nat, unit, nat) sharedInformerFactory)\<lparr>informers := [''a'' \<mapsto> 5, ''b'' \<mapsto> 7]\<rparr>)) ''a'' = Some True"
proof -
  let ?f = "(NewSharedInformerFactory 3 5 :: (nat, nat, unit, nat) sharedInformerFactory)\<lparr>informers := [''a'' \<mapsto> 5, ''b'' \<mapsto> 7]\<rparr>"
  have o: "range_order (informers ?f) [''a'', ''b'']" "range_order (informers ?f) [''b'', ''a'']"
    by (auto simp: range_order_def)
  have "\<not> sif_shuttingDown ?f"
    by (simp add: NewSharedInformerFactory_def NewSharedInformerFactoryWithOptions_def)
  note down = this
  have a: "''a'' \<in> dom (informers ?f)" by simp
  note all = Start_order_irrelevant [OF o, of 1, THEN conjunct2, THEN mp, OF down]
  note all [THEN conjunct2, THEN conjunct1] bspec [OF all [THEN conjunct2, THEN conjunct2, THEN conjunct2, THEN conjunct1] a]
  then show ?thesis by (simp only:)
qed

theorem ForResource_shared_witness:
  "\<exists>i g. ForResource (WithResource ''snapshotmetadataservices'')
      (NewFilteredSharedInformerFactory 3 5 ''ns'' (Some (\<lambda>o'. o' * 2)) :: (nat, nat, unit) sms_factory) = (Inr i, g) \<and>
     sms_list_options i 1 = 2 \<and> lw_resync i = 5"
proof -
  let ?f = "NewFilteredSharedInformerFactory 3 5 ''ns'' (Some (\<lambda>o'. o' * 2)) :: (nat, nat, unit) sms_factory"
  have f: "informers ?f SnapshotMetadataServiceType = None" "tweakListOptions ?f = Some (\<lambda>o'. o' * 2)"
      "customResync ?f SnapshotMetadataServiceType = None" "defaultResync ?f = 5"
    by (simp_all add: NewFilteredSharedInformerFactory_def NewSharedInformerFactoryWithOptions_def
        WithNamespace_def WithTweakListOptions_def)
  obtain i g where i: "ForResource (WithResource ''snapshotmetadataservices'') ?f = (Inr i, g)"
      "informers ?f SnapshotMetadataServiceType = None \<longrightarrow>
        lw_resync i = (case customResync ?f SnapshotMetadataServiceType of None \<Rightarrow> defaultResync ?f | Some d \<Rightarrow> d) \<and>
        sms_list_options i = (case tweakListOptions ?f of None \<Rightarrow> id | Some tweak \<Rightarrow> tweak)"
    using ForResource_shared [of ?f] by blast
  from i(2) have "lw_resync i = 5" "sms_list_options i 1 = 2" by (simp_all add: f)
  with i(1) show ?thesis by blast
qed

theorem sms_lister_spec_witness:
  "sms_lister_Get (\<lambda>n. Inr (map_of [(''a'', 7 :: nat)] n)) ''b'' =
     Inl (Plain (''snapshotmetadataservice.cbt.storage.k8s.io '' @ quote ''b'' @ '' not found''))"
  using sms_lister_spec [of "[]" "\<lambda>n :: nat. Inr Map.empty"
      "\<lparr>MatchesNothing = False, sel_Empty = True, sel_Matches = \<lambda>l. True\<rparr>" "[(''a'', 7 :: nat)]" "''b''"]
  by simp

end
