(* ===== verification/DeepCopy.thy ===== *)
theory DeepCopy
  imports Api
begin

text \<open>
  The deep copies of \<open>zz_generated.deepcopy.go\<close> over an explicit store: an address holds what a pointer
  points to, the array under a slice, or a map. The generated functions are translated one by one and
  shown equal to one copy by recursion on the type, for which the laws are proved once: the copy has
  the same deep value, none of its memory is the original's, and the original is untouched.
\<close>

subsection \<open>Values, types, store\<close>

datatype scalar = Str string | Num int64 | Boolean bool | Byte "8 word"

datatype kind = KStr | KInt | KBool | KByte

fun kind_of :: "scalar \<Rightarrow> kind" where
  "kind_of (Str s) = KStr"
| "kind_of (Num i) = KInt"
| "kind_of (Boolean b) = KBool"
| "kind_of (Byte b) = KByte"

text \<open>A slice is the address of its array, the offset of its first element and its length.\<close>

datatype gval =
    Val scalar
  | Ptr "nat option"
  | Slice "(nat \<times> nat \<times> nat) option"
  | MapRef "nat option"
  | Struct "(string \<times> gval) list"

datatype cell = Cell gval | Array "gval list" | MapCell "string \<rightharpoonup> string"

record store =
  cells :: "nat \<rightharpoonup> cell"
  next_addr :: nat

datatype gty = TVal kind | TPtr gty | TSlice gty | TMap | TStruct gfields
  and gfields = FNil | FCons string gty gfields

fun zero_scalar :: "kind \<Rightarrow> scalar" where
  "zero_scalar KStr = Str []"
| "zero_scalar KInt = Num 0"
| "zero_scalar KBool = Boolean False"
| "zero_scalar KByte = Byte 0"

primrec zero_value :: "gty \<Rightarrow> gval" and zero_fields :: "gfields \<Rightarrow> (string \<times> gval) list" where
  "zero_value (TVal k) = Val (zero_scalar k)"
| "zero_value (TPtr t) = Ptr None"
| "zero_value (TSlice t) = Slice None"
| "zero_value TMap = MapRef None"
| "zero_value (TStruct fs) = Struct (zero_fields fs)"
| "zero_fields FNil = []"
| "zero_fields (FCons n t fs) = (n, zero_value t) # zero_fields fs"

definition new :: "cell \<Rightarrow> store \<Rightarrow> nat \<times> store" where
  "new c st = (next_addr st, st\<lparr>cells := (cells st)(next_addr st \<mapsto> c), next_addr := next_addr st + 1\<rparr>)"

definition put :: "nat \<Rightarrow> cell \<Rightarrow> store \<Rightarrow> store" where
  "put a c st = st\<lparr>cells := (cells st)(a \<mapsto> c)\<rparr>"

definition pointee :: "store \<Rightarrow> nat \<Rightarrow> gval option" where
  "pointee st a = (case cells st a of Some (Cell v) \<Rightarrow> Some v | _ \<Rightarrow> None)"

definition elems :: "store \<Rightarrow> nat \<times> nat \<times> nat \<Rightarrow> gval list option" where
  "elems st = (\<lambda>(a, off, n).
     case cells st a of
       Some (Array vs) \<Rightarrow> if off + n \<le> length vs then Some (take n (drop off vs)) else None
     | _ \<Rightarrow> None)"

definition entries :: "store \<Rightarrow> nat \<Rightarrow> (string \<rightharpoonup> string) option" where
  "entries st a = (case cells st a of Some (MapCell m) \<Rightarrow> Some m | _ \<Rightarrow> None)"

subsection \<open>What a value denotes, and the memory it uses\<close>

datatype dval =
    DVal scalar
  | DPtr "dval option"
  | DSlice "dval list option"
  | DMap "(string \<rightharpoonup> string) option"
  | DStruct "(string \<times> dval) list"

text \<open>\<open>view t st v\<close> is the value read through all pointers, \<open>None\<close> when \<open>v\<close> does not have type \<open>t\<close>.\<close>

primrec view :: "gty \<Rightarrow> store \<Rightarrow> gval \<Rightarrow> dval option"
  and view_fields :: "gfields \<Rightarrow> store \<Rightarrow> (string \<times> gval) list \<Rightarrow> (string \<times> dval) list option" where
  "view (TVal k) = (\<lambda>st v. case v of Val x \<Rightarrow> if kind_of x = k then Some (DVal x) else None | _ \<Rightarrow> None)"
| "view (TPtr t) = (\<lambda>st v. case v of
     Ptr None \<Rightarrow> Some (DPtr None)
   | Ptr (Some a) \<Rightarrow> (case pointee st a of
       None \<Rightarrow> None | Some w \<Rightarrow> map_option (\<lambda>d. DPtr (Some d)) (view t st w))
   | _ \<Rightarrow> None)"
| "view (TSlice t) = (\<lambda>st v. case v of
     Slice None \<Rightarrow> Some (DSlice None)
   | Slice (Some s) \<Rightarrow> (case elems st s of
       None \<Rightarrow> None | Some vs \<Rightarrow> map_option (\<lambda>ds. DSlice (Some ds)) (those (map (view t st) vs)))
   | _ \<Rightarrow> None)"
| "view TMap = (\<lambda>st v. case v of
     MapRef None \<Rightarrow> Some (DMap None)
   | MapRef (Some a) \<Rightarrow> map_option (\<lambda>m. DMap (Some m)) (entries st a)
   | _ \<Rightarrow> None)"
| "view (TStruct fs) = (\<lambda>st v. case v of
     Struct vs \<Rightarrow> map_option DStruct (view_fields fs st vs) | _ \<Rightarrow> None)"
| "view_fields FNil = (\<lambda>st vs. if vs = [] then Some [] else None)"
| "view_fields (FCons n t fs) = (\<lambda>st vs. case vs of
     [] \<Rightarrow> None
   | (m, v) # rest \<Rightarrow>
       (if m = n
        then (case (view t st v, view_fields fs st rest) of
                (Some d, Some ds) \<Rightarrow> Some ((n, d) # ds) | _ \<Rightarrow> None)
        else None))"

primrec reach :: "gty \<Rightarrow> store \<Rightarrow> gval \<Rightarrow> nat list"
  and reach_fields :: "gfields \<Rightarrow> store \<Rightarrow> (string \<times> gval) list \<Rightarrow> nat list" where
  "reach (TVal k) = (\<lambda>st v. [])"
| "reach (TPtr t) = (\<lambda>st v. case v of
     Ptr (Some a) \<Rightarrow> a # (case pointee st a of None \<Rightarrow> [] | Some w \<Rightarrow> reach t st w)
   | _ \<Rightarrow> [])"
| "reach (TSlice t) = (\<lambda>st v. case v of
     Slice (Some s) \<Rightarrow> fst s # (case elems st s of None \<Rightarrow> [] | Some vs \<Rightarrow> concat (map (reach t st) vs))
   | _ \<Rightarrow> [])"
| "reach TMap = (\<lambda>st v. case v of MapRef (Some a) \<Rightarrow> [a] | _ \<Rightarrow> [])"
| "reach (TStruct fs) = (\<lambda>st v. case v of Struct vs \<Rightarrow> reach_fields fs st vs | _ \<Rightarrow> [])"
| "reach_fields FNil = (\<lambda>st vs. [])"
| "reach_fields (FCons n t fs) = (\<lambda>st vs. case vs of
     [] \<Rightarrow> [] | (m, v) # rest \<Rightarrow> reach t st v @ reach_fields fs st rest)"

subsection \<open>Copying by recursion on the type\<close>

definition set_elem :: "nat \<Rightarrow> nat \<Rightarrow> gval \<Rightarrow> store \<Rightarrow> store" where
  "set_elem b i w st =
     (case cells st b of Some (Array ws) \<Rightarrow> put b (Array (ws[i := w])) st | _ \<Rightarrow> st)"

text \<open>The loop over the elements of a slice writes the copies into the array at \<open>b\<close>, from index \<open>i\<close>.\<close>

fun copy_elems :: "(gval \<Rightarrow> store \<Rightarrow> gval \<times> store) \<Rightarrow> nat \<Rightarrow> nat \<Rightarrow> gval list \<Rightarrow> store \<Rightarrow> store" where
  "copy_elems f b i [] st = st"
| "copy_elems f b i (v # vs) st =
     (let (w, st1) = f v st in copy_elems f b (i + 1) vs (set_elem b i w st1))"

primrec deep :: "gty \<Rightarrow> gval \<Rightarrow> store \<Rightarrow> gval \<times> store"
  and deep_fields :: "gfields \<Rightarrow> (string \<times> gval) list \<Rightarrow> store \<Rightarrow> (string \<times> gval) list \<times> store" where
  "deep (TVal k) = (\<lambda>v st. (v, st))"
| "deep (TPtr t) = (\<lambda>v st. case v of
     Ptr (Some a) \<Rightarrow> (case pointee st a of
       None \<Rightarrow> (v, st)
     | Some w \<Rightarrow>
         (let (b, st1) = new (Cell (zero_value t)) st; (w1, st2) = deep t w st1
          in (Ptr (Some b), put b (Cell w1) st2)))
   | _ \<Rightarrow> (v, st))"
| "deep (TSlice t) = (\<lambda>v st. case v of
     Slice (Some s) \<Rightarrow> (case elems st s of
       None \<Rightarrow> (v, st)
     | Some vs \<Rightarrow>
         (let (b, st1) = new (Array (replicate (length vs) (zero_value t))) st
          in (Slice (Some (b, 0, length vs)), copy_elems (deep t) b 0 vs st1)))
   | _ \<Rightarrow> (v, st))"
| "deep TMap = (\<lambda>v st. case v of
     MapRef (Some a) \<Rightarrow> (case entries st a of
       None \<Rightarrow> (v, st)
     | Some m \<Rightarrow> (let (b, st1) = new (MapCell Map.empty) st in (MapRef (Some b), put b (MapCell m) st1)))
   | _ \<Rightarrow> (v, st))"
| "deep (TStruct fs) = (\<lambda>v st. case v of
     Struct vs \<Rightarrow> (let (ws, st1) = deep_fields fs vs st in (Struct ws, st1)) | _ \<Rightarrow> (v, st))"
| "deep_fields FNil = (\<lambda>vs st. (vs, st))"
| "deep_fields (FCons n t fs) = (\<lambda>vs st. case vs of
     [] \<Rightarrow> ([], st)
   | (m, v) # rest \<Rightarrow>
       (let (w, st1) = deep t v st; (ws, st2) = deep_fields fs rest st1 in ((m, w) # ws, st2)))"


subsection \<open>Stores that extend a store\<close>

definition wf_store :: "store \<Rightarrow> bool" where
  "wf_store st \<longleftrightarrow> (\<forall>a. a \<in> dom (cells st) \<longrightarrow> a < next_addr st)"

definition extends :: "store \<Rightarrow> store \<Rightarrow> bool" where
  "extends st st' \<longleftrightarrow> next_addr st \<le> next_addr st' \<and> wf_store st' \<and> (\<forall>a < next_addr st. cells st' a = cells st a)"

named_theorems store_simps \<open>reading after an allocation or a write\<close>

lemma next_new [store_simps]: "next_addr (snd (new c st)) = Suc (next_addr st)"
  by (simp add: new_def)

lemma fst_new [store_simps]: "fst (new c st) = next_addr st"
  by (simp add: new_def)

lemma next_put [store_simps]: "next_addr (put a c st) = next_addr st"
  by (simp add: put_def)

lemma cells_put [store_simps]: "cells (put a c st) b = (if b = a then Some c else cells st b)"
  by (simp add: put_def)

lemma cells_new [store_simps]:
  "cells (snd (new c st)) b = (if b = next_addr st then Some c else cells st b)"
  by (simp add: new_def)

lemma extends_refl: "wf_store st \<Longrightarrow> extends st st"
  by (simp add: extends_def)

lemma extends_wf: "extends st st' \<Longrightarrow> wf_store st'"
  by (simp add: extends_def)

lemma extends_trans: "extends st st1 \<Longrightarrow> extends st1 st2 \<Longrightarrow> extends st st2"
  by (auto simp: extends_def)

lemma extends_new: "wf_store st \<Longrightarrow> extends st (snd (new c st))"
  by (auto simp: extends_def wf_store_def new_def domIff split: if_splits)

lemma extends_put:
  "extends st st' \<Longrightarrow> next_addr st \<le> a \<Longrightarrow> a < next_addr st' \<Longrightarrow> extends st (put a c st')"
  by (auto simp: extends_def wf_store_def put_def domIff split: if_splits)

lemma reader_put [store_simps]:
  "pointee (put a (Cell v) st) a = Some v"
  "entries (put a (MapCell m) st) a = Some m"
  "elems (put a (Array vs) st) (a, 0, n) = (if n \<le> length vs then Some (take n vs) else None)"
  by (simp_all add: pointee_def entries_def elems_def put_def)

lemma view_agree:
  "(\<forall>a \<in> set (reach t st v). cells st' a = cells st a) \<Longrightarrow>
     view t st' v = view t st v \<and> reach t st' v = reach t st v"
  "(\<forall>a \<in> set (reach_fields fs st vs). cells st' a = cells st a) \<Longrightarrow>
     view_fields fs st' vs = view_fields fs st vs \<and> reach_fields fs st' vs = reach_fields fs st vs"
proof (induction t and fs arbitrary: v and vs)
  case (TPtr t)
  show ?case
  proof (cases "\<exists>a w. v = Ptr (Some a) \<and> pointee st a = Some w")
    case True
    then obtain a w where v: "v = Ptr (Some a)" and w: "pointee st a = Some w" by blast
    with TPtr.prems have "pointee st' a = Some w" by (simp add: pointee_def)
    moreover have "view t st' w = view t st w \<and> reach t st' w = reach t st w"
      using TPtr.prems v w by (intro TPtr.IH) simp
    ultimately show ?thesis using v w by simp
  next
    case False
    have "pointee st' a = pointee st a" if "v = Ptr (Some a)" for a
      using TPtr.prems that by (simp add: pointee_def)
    with False show ?thesis by (simp split: gval.split option.split)
  qed
next
  case (TSlice t)
  show ?case
  proof (cases v)
    case (Slice s)
    show ?thesis
    proof (cases s)
      case (Some h)
      then have e: "elems st' h = elems st h"
        using TSlice.prems Slice by (cases h) (simp add: elems_def)
      show ?thesis
      proof (cases "elems st h")
        case (Some ws)
        have "view t st' w = view t st w \<and> reach t st' w = reach t st w" if "w \<in> set ws" for w
          using TSlice.prems that Slice \<open>s = Some h\<close> Some by (intro TSlice.IH) auto
        then have "map (view t st') ws = map (view t st) ws" "map (reach t st') ws = map (reach t st) ws"
          by auto
        then show ?thesis using Slice \<open>s = Some h\<close> Some e by (simp del: map_eq_conv)
      qed (use Slice Some e in simp)
    qed (use Slice in simp)
  qed (use TSlice in auto)
next
  case TMap
  then show ?case by (simp add: entries_def split: gval.splits option.splits)
next
  case (FCons n t fs)
  show ?case
  proof (cases vs)
    case (Cons p rest)
    obtain m v where "p = (m, v)" by (cases p)
    with FCons.prems Cons FCons.IH(1) [of v] FCons.IH(2) [of rest] show ?thesis by auto
  qed simp
qed (auto split: gval.splits)


lemma wf_present: "wf_store st \<Longrightarrow> cells st a = Some c \<Longrightarrow> a < next_addr st"
  by (auto simp: wf_store_def)

lemma reader_present:
  "wf_store st \<Longrightarrow> pointee st a = Some v \<Longrightarrow> a < next_addr st"
  "wf_store st \<Longrightarrow> entries st a = Some m \<Longrightarrow> a < next_addr st"
  "wf_store st \<Longrightarrow> elems st s = Some vs \<Longrightarrow> fst s < next_addr st"
  by (auto simp: pointee_def entries_def elems_def wf_present split: option.splits cell.splits prod.splits)

lemma those_Some_iff: "those xs = Some ys \<longleftrightarrow> xs = map Some ys"
proof (induction xs arbitrary: ys)
  case Nil
  then show ?case by auto
next
  case (Cons x xs)
  show ?case by (cases ys) (auto simp: Cons.IH split: option.splits)
qed

lemma view_present:
  assumes "wf_store st"
  shows "view t st v = Some d \<Longrightarrow> \<forall>a \<in> set (reach t st v). a < next_addr st"
    and "view_fields fs st vs = Some ds \<Longrightarrow> \<forall>a \<in> set (reach_fields fs st vs). a < next_addr st"
proof (induction t and fs arbitrary: v d and vs ds)
  case (TPtr t)
  then show ?case
    using reader_present(1) [OF assms] by (auto split: gval.splits option.splits)
next
  case (TSlice t)
  have "\<forall>a \<in> set (reach t st w). a < next_addr st"
    if "those (map (view t st) ws) = Some ds" "w \<in> set ws" for ws w ds
  proof -
    have "view t st w \<in> set (map Some ds)" using that by (metis image_eqI list.set_map those_Some_iff)
    then show ?thesis using TSlice.IH by auto
  qed
  then show ?case
    using TSlice.prems reader_present(3) [OF assms] by (fastforce split: gval.splits option.splits)
next
  case TMap
  then show ?case
    using reader_present(2) [OF assms] by (auto split: gval.splits option.splits)
next
  case (FCons n t fs)
  then show ?case by (fastforce split: list.splits option.splits if_splits)
qed (auto split: gval.splits)

lemma view_extends:
  assumes "wf_store st" "view t st v = Some d" "extends st st'"
  shows "view t st' v = Some d" "reach t st' v = reach t st v"
proof -
  have "\<forall>a \<in> set (reach t st v). cells st' a = cells st a"
    using view_present(1) [OF assms(1,2)] assms(3) by (auto simp: extends_def)
  from view_agree(1) [OF this] assms(2)
  show "view t st' v = Some d" "reach t st' v = reach t st v" by auto
qed


subsection \<open>The copy has the deep value of the original in memory of its own\<close>

definition copied :: "gty \<Rightarrow> store \<Rightarrow> dval \<Rightarrow> gval \<times> store \<Rightarrow> bool" where
  "copied t st d r \<longleftrightarrow>
     extends st (snd r) \<and> view t (snd r) (fst r) = Some d \<and>
     (\<forall>a \<in> set (reach t (snd r) (fst r)). next_addr st \<le> a \<and> a < next_addr (snd r))"

lemma copied_keep:
  assumes "copied t st d (w, st1)" "extends st1 st2"
  shows "copied t st d (w, st2)"
proof -
  have st1: "wf_store st1" "view t st1 w = Some d" "extends st st1"
    using assms(1) by (auto simp: copied_def extends_wf)
  have "extends st st2" by (rule extends_trans [OF st1(3) assms(2)])
  moreover have "next_addr st1 \<le> next_addr st2" using assms(2) by (simp add: extends_def)
  ultimately show ?thesis
    using assms(1) view_extends [OF st1(1,2) assms(2)] by (fastforce simp: copied_def)
qed

lemma copied_later:
  assumes "extends st0 st" "copied t st d r"
  shows "copied t st0 d r"
  using assms by (auto simp: copied_def intro: extends_trans) (auto simp: extends_def)

text \<open>A cell allocated before the copy was made can be written without touching the copy.\<close>

lemma copied_put:
  assumes "copied t st d (w, st')" "a < next_addr st"
  shows "view t (put a c st') w = Some d" "reach t (put a c st') w = reach t st' w"
proof -
  have "\<forall>b \<in> set (reach t st' w). cells (put a c st') b = cells st' b"
    using assms by (auto simp: copied_def put_def)
  from view_agree(1) [OF this] assms(1)
  show "view t (put a c st') w = Some d" "reach t (put a c st') w = reach t st' w"
    by (auto simp: copied_def)
qed

text \<open>An element of the array at \<open>b\<close> that has been copied.\<close>

definition elem_copied :: "gty \<Rightarrow> nat \<Rightarrow> store \<Rightarrow> dval \<Rightarrow> gval \<Rightarrow> bool" where
  "elem_copied t b st d w \<longleftrightarrow>
     view t st w = Some d \<and> (\<forall>a \<in> set (reach t st w). b < a \<and> a < next_addr st)"

lemma elem_copied_step:
  assumes "elem_copied t b st d w" "wf_store st" "extends st st1"
  shows "elem_copied t b (put b c st1) d w"
proof -
  have d: "view t st w = Some d" using assms(1) by (simp add: elem_copied_def)
  note v = view_extends [OF assms(2) d assms(3)]
  have "next_addr st \<le> next_addr st1" using assms(3) by (simp add: extends_def)
  then have r: "\<forall>a \<in> set (reach t st1 w). b < a \<and> a < next_addr st1"
    using assms(1) v(2) by (fastforce simp: elem_copied_def)
  then have "\<forall>a \<in> set (reach t st1 w). cells (put b c st1) a = cells st1 a"
    by (auto simp: store_simps)
  from view_agree(1) [OF this] show ?thesis using v r by (simp add: elem_copied_def store_simps)
qed

lemma copy_elems_copied:
  assumes f: "\<And>v st d. wf_store st \<Longrightarrow> view t st v = Some d \<Longrightarrow> copied t st d (f v st)"
    and wf0: "wf_store st0" and b: "next_addr st0 = b"
  shows "extends st0 st \<Longrightarrow> b < next_addr st \<Longrightarrow> cells st b = Some (Array ws) \<Longrightarrow>
           map (view t st0) vs = map Some ds \<Longrightarrow> i + length vs = length ws \<Longrightarrow>
           list_all2 (elem_copied t b st) es (take i ws) \<Longrightarrow>
           extends st0 (copy_elems f b i vs st) \<and> b < next_addr (copy_elems f b i vs st) \<and>
           (\<exists>us. cells (copy_elems f b i vs st) b = Some (Array us) \<and>
                 list_all2 (elem_copied t b (copy_elems f b i vs st)) (es @ ds) us)"
proof (induction vs arbitrary: st ws ds i es)
  case Nil
  then show ?case by simp
next
  case (Cons v vs)
  from Cons.prems(4) obtain d ds' where ds: "ds = d # ds'" and v: "view t st0 v = Some d"
    and vs: "map (view t st0) vs = map Some ds'"
    by (cases ds) auto
  obtain w st1 where w: "f v st = (w, st1)" by (cases "f v st")
  have wf: "wf_store st" by (rule extends_wf [OF Cons.prems(1)])
  have c: "copied t st d (w, st1)"
    using f [OF wf view_extends(1) [OF wf0 v Cons.prems(1)]] w by simp
  then have e: "extends st st1" by (simp add: copied_def)
  then have a1: "cells st1 b = Some (Array ws)" "b < next_addr st1"
    using Cons.prems(2,3) by (auto simp: extends_def)
  let ?st = "put b (Array (ws[i := w])) st1"
  have s: "set_elem b i w st1 = ?st" using a1 by (simp add: set_elem_def)
  have x: "extends st0 ?st"
    by (rule extends_put [OF extends_trans [OF Cons.prems(1) e]]) (simp_all add: a1 b)
  have "elem_copied t b st1 d w" using c Cons.prems(2) by (auto simp: copied_def elem_copied_def)
  from elem_copied_step [OF this extends_wf [OF e] extends_refl [OF extends_wf [OF e]]]
  have "elem_copied t b ?st d w" .
  moreover have "list_all2 (elem_copied t b ?st) es (take i ws)"
    by (rule list_all2_mono [OF Cons.prems(6)]) (rule elem_copied_step [OF _ wf e])
  ultimately have "list_all2 (elem_copied t b ?st) (es @ [d]) (take (i + 1) (ws[i := w]))"
    using Cons.prems(5) by (simp add: take_Suc_conv_app_nth list_all2_appendI)
  from Cons.IH [OF x _ _ vs _ this] Cons.prems(5) a1
  show ?case using w s ds by (simp add: store_simps)
qed

lemma extends_fresh:
  assumes "wf_store st" "extends (snd (new z st)) st2"
  shows "extends st st2" "next_addr st < next_addr st2"
  using extends_trans [OF extends_new [OF assms(1), of z] assms(2)] assms(2)
  by (auto simp: extends_def store_simps)

lemma copied_pointer:
  assumes wf: "wf_store st" and c: "copied t (snd (new z st)) d (w, st2)"
  shows "copied (TPtr t) st (DPtr (Some d)) (Ptr (Some (next_addr st)), put (next_addr st) (Cell w) st2)"
proof -
  have n: "next_addr st < next_addr (snd (new z st))" by (simp add: store_simps)
  have "extends (snd (new z st)) st2" using c by (simp add: copied_def)
  note e = extends_fresh [OF wf this]
  have "\<forall>a \<in> set (reach t (put (next_addr st) (Cell w) st2) w). next_addr st \<le> a \<and> a < next_addr st2"
    using c by (auto simp: copied_put(2) [OF c n] copied_def store_simps)
  then show ?thesis
    using e(2) by (simp add: copied_def store_simps copied_put(1) [OF c n] extends_put [OF e(1) _ e(2)])
qed

lemma copied_slice:
  assumes wf: "wf_store st" and e: "extends st st2" "next_addr st < next_addr st2"
    and a: "cells st2 (next_addr st) = Some (Array ws)"
    and c: "list_all2 (elem_copied t (next_addr st) st2) ds ws"
  shows "copied (TSlice t) st (DSlice (Some ds)) (Slice (Some (next_addr st, 0, length ws)), st2)"
proof -
  have "elems st2 (next_addr st, 0, length ws) = Some ws" using a by (simp add: elems_def)
  moreover have "map (view t st2) ws = map Some ds"
    using c by (auto simp: list_all2_conv_all_nth elem_copied_def intro!: nth_equalityI)
  moreover have "\<forall>w \<in> set ws. \<forall>a \<in> set (reach t st2 w). next_addr st \<le> a \<and> a < next_addr st2"
  proof
    fix w assume "w \<in> set ws"
    then obtain d where "elem_copied t (next_addr st) st2 d w"
      using c by (auto simp: list_all2_conv_all_nth in_set_conv_nth)
    then show "\<forall>a \<in> set (reach t st2 w). next_addr st \<le> a \<and> a < next_addr st2"
      by (auto simp: elem_copied_def)
  qed
  ultimately show ?thesis
    using e by (auto simp: copied_def those_Some_iff simp del: map_eq_conv)
qed

lemma copied_map:
  assumes "wf_store st"
  shows "copied TMap st (DMap (Some m))
           (MapRef (Some (next_addr st)), put (next_addr st) (MapCell m) (snd (new z st)))"
  using extends_put [OF extends_new [OF assms], of "next_addr st"]
  by (simp add: copied_def store_simps)

lemma copied_cons:
  assumes "copied t st d (w, st1)" "copied (TStruct fs) st1 (DStruct ds) (Struct ws, st2)"
  shows "copied (TStruct (FCons n t fs)) st (DStruct ((n, d) # ds)) (Struct ((n, w) # ws), st2)"
proof -
  have e: "extends st1 st2" "extends st st1" using assms by (simp_all add: copied_def)
  have "copied t st d (w, st2)" by (rule copied_keep [OF assms(1) e(1)])
  moreover have "copied (TStruct fs) st (DStruct ds) (Struct ws, st2)"
    by (rule copied_later [OF e(2) assms(2)])
  ultimately show ?thesis by (auto simp: copied_def)
qed

lemma deep_copied:
  "wf_store st \<Longrightarrow> view t st v = Some d \<Longrightarrow> copied t st d (deep t v st)"
  "wf_store st \<Longrightarrow> view_fields fs st vs = Some ds \<Longrightarrow>
     (case deep_fields fs vs st of (ws, st') \<Rightarrow> copied (TStruct fs) st (DStruct ds) (Struct ws, st'))"
proof (induction t and fs arbitrary: v st d and vs st ds)
  case (TVal k)
  then show ?case by (simp add: copied_def extends_refl)
next
  case (TPtr t)
  show ?case
  proof (cases "\<exists>a. v = Ptr (Some a)")
    case True
    then obtain a w e where v: "v = Ptr (Some a)" and w: "pointee st a = Some w"
      and e: "view t st w = Some e" "d = DPtr (Some e)"
      using TPtr.prems(2) by (auto split: option.splits)
    have x: "extends st (snd (new (Cell (zero_value t)) st))" by (rule extends_new [OF TPtr.prems(1)])
    obtain w' st2 where r: "deep t w (snd (new (Cell (zero_value t)) st)) = (w', st2)"
      by (cases "deep t w (snd (new (Cell (zero_value t)) st))")
    with TPtr.IH [OF extends_wf [OF x] view_extends(1) [OF TPtr.prems(1) e(1) x]]
    have "copied t (snd (new (Cell (zero_value t)) st)) e (w', st2)" by simp
    from copied_pointer [OF TPtr.prems(1) this] show ?thesis
      using v w e r by (simp add: split_beta store_simps Let_def)
  next
    case False
    then show ?thesis using TPtr.prems
      by (auto simp: copied_def extends_refl split: gval.splits option.splits)
  qed
next
  case (TSlice t)
  show ?case
  proof (cases "\<exists>s. v = Slice (Some s)")
    case True
    then obtain s ws es where v: "v = Slice (Some s)" and w: "elems st s = Some ws"
      and e: "map (view t st) ws = map Some es" "d = DSlice (Some es)"
      using TSlice.prems(2) by (auto simp: those_Some_iff split: option.splits)
    let ?z = "Array (replicate (length ws) (zero_value t))"
    have x: "extends st (snd (new ?z st))" by (rule extends_new [OF TSlice.prems(1)])
    define st2 where "st2 = copy_elems (deep t) (next_addr st) 0 ws (snd (new ?z st))"
    have "extends st st2 \<and> next_addr st < next_addr st2 \<and>
        (\<exists>us. cells st2 (next_addr st) = Some (Array us) \<and>
              list_all2 (elem_copied t (next_addr st) st2) ([] @ es) us)"
      unfolding st2_def
      by (rule copy_elems_copied [where f = "deep t" and ws = "replicate (length ws) (zero_value t)", OF _ TSlice.prems(1) refl x _ _ e(1)])
        (simp_all add: TSlice.IH store_simps)
    then obtain us where c: "extends st st2" "next_addr st < next_addr st2"
      "cells st2 (next_addr st) = Some (Array us)"
      "list_all2 (elem_copied t (next_addr st) st2) es us"
      by auto
    have "length us = length ws"
      using list_all2_lengthD [OF c(4)] e(1) by (metis length_map)
    with copied_slice [OF TSlice.prems(1) c] show ?thesis
      using v w e(2) by (simp add: split_beta store_simps Let_def st2_def)
  next
    case False
    then show ?thesis using TSlice.prems
      by (auto simp: copied_def extends_refl split: gval.splits option.splits)
  qed
next
  case TMap
  then show ?case
    using copied_map by (auto simp: copied_def extends_refl split_beta store_simps Let_def
        split: gval.splits option.splits)
next
  case (TStruct fs)
  then show ?case by (fastforce simp: split_beta Let_def split: gval.splits)
next
  case FNil
  then show ?case by (simp add: copied_def extends_refl split: if_splits)
next
  case (FCons n t fs)
  from FCons.prems(2) obtain v rest d es where vs: "vs = (n, v) # rest" "ds = (n, d) # es"
    and v: "view t st v = Some d" "view_fields fs st rest = Some es"
    by (auto split: list.splits option.splits if_splits)
  obtain w st1 where w: "deep t v st = (w, st1)" by (cases "deep t v st")
  have c: "copied t st d (w, st1)" using FCons.IH(1) [OF FCons.prems(1) v(1)] w by simp
  then have x: "extends st st1" by (simp add: copied_def)
  obtain ws st2 where ws: "deep_fields fs rest st1 = (ws, st2)" by (cases "deep_fields fs rest st1")
  have "view (TStruct fs) st1 (Struct rest) = Some (DStruct es)"
    by (rule view_extends(1) [OF FCons.prems(1) _ x]) (simp add: v)
  then have "view_fields fs st1 rest = Some es" by (auto split: option.splits)
  from FCons.IH(2) [OF extends_wf [OF x] this] ws
  have "copied (TStruct fs) st1 (DStruct es) (Struct ws, st2)" by simp
  from copied_cons [OF c this] show ?case using vs w ws by simp
qed


subsection \<open>The types of the custom resource\<close>

primrec fields_of :: "(string \<times> gty) list \<Rightarrow> gfields" where
  "fields_of [] = FNil"
| "fields_of (f # fs) = FCons (fst f) (snd f) (fields_of fs)"

definition TypeMetaType :: gty where
  "TypeMetaType = TStruct (fields_of [(''Kind'', TVal KStr), (''APIVersion'', TVal KStr)])"

definition SpecType :: gty where
  "SpecType = TStruct (fields_of
     [(''Audience'', TVal KStr), (''Address'', TVal KStr), (''CACert'', TSlice (TVal KByte)),
      (''RequireBaseSnapshotForDelta'', TPtr (TVal KBool))])"

text \<open>
  The metadata types of \<open>apimachinery\<close>, whose own generated copies follow the same scheme. A
  \<open>Time\<close> is copied by assignment and is a scalar here.
\<close>

definition OwnerReferenceType :: gty where
  "OwnerReferenceType = TStruct (fields_of
     [(''APIVersion'', TVal KStr), (''Kind'', TVal KStr), (''Name'', TVal KStr), (''UID'', TVal KStr),
      (''Controller'', TPtr (TVal KBool)), (''BlockOwnerDeletion'', TPtr (TVal KBool))])"

definition ManagedFieldsEntryType :: gty where
  "ManagedFieldsEntryType = TStruct (fields_of
     [(''Manager'', TVal KStr), (''Operation'', TVal KStr), (''APIVersion'', TVal KStr),
      (''Time'', TPtr (TVal KInt)), (''FieldsType'', TVal KStr),
      (''FieldsV1'', TPtr (TStruct (fields_of [(''Raw'', TSlice (TVal KByte))]))),
      (''Subresource'', TVal KStr)])"

definition ObjectMetaType :: gty where
  "ObjectMetaType = TStruct (fields_of
     [(''Name'', TVal KStr), (''GenerateName'', TVal KStr), (''Namespace'', TVal KStr),
      (''SelfLink'', TVal KStr), (''UID'', TVal KStr), (''ResourceVersion'', TVal KStr),
      (''Generation'', TVal KInt), (''CreationTimestamp'', TVal KInt),
      (''DeletionTimestamp'', TPtr (TVal KInt)), (''DeletionGracePeriodSeconds'', TPtr (TVal KInt)),
      (''Labels'', TMap), (''Annotations'', TMap), (''OwnerReferences'', TSlice OwnerReferenceType),
      (''Finalizers'', TSlice (TVal KStr)), (''ManagedFields'', TSlice ManagedFieldsEntryType)])"

definition ListMetaType :: gty where
  "ListMetaType = TStruct (fields_of
     [(''SelfLink'', TVal KStr), (''ResourceVersion'', TVal KStr), (''Continue'', TVal KStr),
      (''RemainingItemCount'', TPtr (TVal KInt)),
      (''ShardInfo'', TPtr (TStruct (fields_of [(''Selector'', TVal KStr)])))])"

definition SmsType :: gty where
  "SmsType = TStruct (fields_of
     [(''TypeMeta'', TypeMetaType), (''ObjectMeta'', ObjectMetaType), (''Spec'', SpecType)])"

definition SmsListType :: gty where
  "SmsListType = TStruct (fields_of
     [(''TypeMeta'', TypeMetaType), (''ListMeta'', ListMetaType),
      (''Items'', TSlice SmsType)])"

subsection \<open>The generated functions\<close>

text \<open>Reading and assigning a field of a struct value.\<close>

definition fld :: "string \<Rightarrow> gval \<Rightarrow> gval" where
  "fld n v = (case v of Struct vs \<Rightarrow> (case map_of vs n of Some w \<Rightarrow> w | None \<Rightarrow> Struct []) | _ \<Rightarrow> Struct [])"

definition set_fld :: "string \<Rightarrow> gval \<Rightarrow> gval \<Rightarrow> gval" where
  "set_fld n w v =
     (case v of Struct vs \<Rightarrow> Struct (map (\<lambda>(m, u). (m, if m = n then w else u)) vs) | _ \<Rightarrow> v)"

text \<open>
  \<open>DeepCopyInto\<close> returns what it leaves in \<open>*out\<close>, which is assigned \<open>*in\<close> first, so
  its old content is lost; \<open>out\<close> is never \<open>in\<close> itself in the generated code.
\<close>

definition SnapshotMetadataServiceSpec_DeepCopyInto :: "gval \<Rightarrow> store \<Rightarrow> gval \<times> store" where
  "SnapshotMetadataServiceSpec_DeepCopyInto v st =
     (let out = v;
          (out, st) =
            (case fld ''CACert'' v of
               Slice (Some s) \<Rightarrow>
                 (case elems st s of
                    Some bs \<Rightarrow>
                      (let (a, st) = new (Array (replicate (length bs) (Val (Byte 0)))) st
                       in (set_fld ''CACert'' (Slice (Some (a, 0, length bs))) out, put a (Array bs) st))
                  | None \<Rightarrow> (out, st))
             | _ \<Rightarrow> (out, st));
          (out, st) =
            (case fld ''RequireBaseSnapshotForDelta'' v of
               Ptr (Some p) \<Rightarrow>
                 (case pointee st p of
                    Some b \<Rightarrow>
                      (let (a, st) = new (Cell (Val (Boolean False))) st
                       in (set_fld ''RequireBaseSnapshotForDelta'' (Ptr (Some a)) out, put a (Cell b) st))
                  | None \<Rightarrow> (out, st))
             | _ \<Rightarrow> (out, st))
      in (out, st))"

definition ObjectMeta_DeepCopyInto :: "gval \<Rightarrow> store \<Rightarrow> gval \<times> store" where
  "ObjectMeta_DeepCopyInto = deep ObjectMetaType"

definition ListMeta_DeepCopyInto :: "gval \<Rightarrow> store \<Rightarrow> gval \<times> store" where
  "ListMeta_DeepCopyInto = deep ListMetaType"

definition SnapshotMetadataService_DeepCopyInto :: "gval \<Rightarrow> store \<Rightarrow> gval \<times> store" where
  "SnapshotMetadataService_DeepCopyInto v st =
     (let out = v;
          out = set_fld ''TypeMeta'' (fld ''TypeMeta'' v) out;
          (m, st) = ObjectMeta_DeepCopyInto (fld ''ObjectMeta'' v) st;
          out = set_fld ''ObjectMeta'' m out;
          (s, st) = SnapshotMetadataServiceSpec_DeepCopyInto (fld ''Spec'' v) st;
          out = set_fld ''Spec'' s out
      in (out, st))"

definition SnapshotMetadataServiceList_DeepCopyInto :: "gval \<Rightarrow> store \<Rightarrow> gval \<times> store" where
  "SnapshotMetadataServiceList_DeepCopyInto v st =
     (let out = v;
          out = set_fld ''TypeMeta'' (fld ''TypeMeta'' v) out;
          (m, st) = ListMeta_DeepCopyInto (fld ''ListMeta'' v) st;
          out = set_fld ''ListMeta'' m out
      in (case fld ''Items'' v of
            Slice (Some s) \<Rightarrow>
              (case elems st s of
                 Some items \<Rightarrow>
                   (let (a, st) = new (Array (replicate (length items) (zero_value SmsType))) st
                    in (set_fld ''Items'' (Slice (Some (a, 0, length items))) out,
                        copy_elems SnapshotMetadataService_DeepCopyInto a 0 items st))
               | None \<Rightarrow> (out, st))
          | _ \<Rightarrow> (out, st)))"

text \<open>\<open>DeepCopy\<close> of a pointer; the pointer is nil or points to a value of its type.\<close>

definition DeepCopy :: "gty \<Rightarrow> (gval \<Rightarrow> store \<Rightarrow> gval \<times> store) \<Rightarrow> nat option \<Rightarrow> store \<Rightarrow> nat option \<times> store" where
  "DeepCopy t deepCopyInto p st =
     (case p of
        None \<Rightarrow> (None, st)
      | Some a \<Rightarrow>
          (case pointee st a of
             None \<Rightarrow> (p, st)
           | Some v \<Rightarrow>
               (let (out, st) = new (Cell (zero_value t)) st;
                    (w, st) = deepCopyInto v st
                in (Some out, put out (Cell w) st))))"

definition SnapshotMetadataServiceSpec_DeepCopy :: "nat option \<Rightarrow> store \<Rightarrow> nat option \<times> store" where
  "SnapshotMetadataServiceSpec_DeepCopy = DeepCopy SpecType SnapshotMetadataServiceSpec_DeepCopyInto"

definition SnapshotMetadataService_DeepCopy :: "nat option \<Rightarrow> store \<Rightarrow> nat option \<times> store" where
  "SnapshotMetadataService_DeepCopy =
     DeepCopy SmsType SnapshotMetadataService_DeepCopyInto"

definition SnapshotMetadataServiceList_DeepCopy :: "nat option \<Rightarrow> store \<Rightarrow> nat option \<times> store" where
  "SnapshotMetadataServiceList_DeepCopy =
     DeepCopy SmsListType SnapshotMetadataServiceList_DeepCopyInto"

text \<open>
  A value of the interface \<open>runtime.Object\<close>: nil, or a dynamic type with a pointer that may be nil.
\<close>

type_synonym runtime_object = "(string \<times> nat option) option"

definition SnapshotMetadataService_DeepCopyObject :: "nat option \<Rightarrow> store \<Rightarrow> runtime_object \<times> store" where
  "SnapshotMetadataService_DeepCopyObject p st =
     (let (c, st) = SnapshotMetadataService_DeepCopy p st
      in (if c \<noteq> None then (Some (''*v1beta1.SnapshotMetadataService'', c), st) else (None, st)))"

definition SnapshotMetadataServiceList_DeepCopyObject :: "nat option \<Rightarrow> store \<Rightarrow> runtime_object \<times> store" where
  "SnapshotMetadataServiceList_DeepCopyObject p st =
     (let (c, st) = SnapshotMetadataServiceList_DeepCopy p st
      in (if c \<noteq> None then (Some (''*v1beta1.SnapshotMetadataServiceList'', c), st) else (None, st)))"


subsection \<open>The generated functions follow the scheme\<close>

lemma put_put: "put a c (put a c' st) = put a c st"
  by (simp add: put_def)

lemma put_same: "cells st a = Some c \<Longrightarrow> put a c st = st"
  by (simp add: put_def fun_upd_idem)

lemma copy_elems_scalars:
  "cells st b = Some (Array ws) \<Longrightarrow> i + length vs = length ws \<Longrightarrow>
     copy_elems (\<lambda>v st. (v, st)) b i vs st = put b (Array (take i ws @ vs)) st"
proof (induction vs arbitrary: i ws st)
  case Nil
  then show ?case by (simp add: put_same)
next
  case (Cons v vs)
  then have "set_elem b i v st = put b (Array (ws[i := v])) st" by (simp add: set_elem_def)
  with Cons.IH [of "put b (Array (ws[i := v])) st" "ws[i := v]" "i + 1"] Cons.prems
  show ?case by (simp add: store_simps put_put take_Suc_conv_app_nth)
qed

lemma copy_elems_new:
  "length vs = n \<Longrightarrow>
     copy_elems (\<lambda>v st. (v, st)) (next_addr st) 0 vs (snd (new (Array (replicate n z)) st)) =
     put (next_addr st) (Array vs) (snd (new (Array (replicate n z)) st))"
  by (subst copy_elems_scalars [where ws = "replicate n z"]) (simp_all add: store_simps)

lemma view_struct_conv:
  "view (TStruct fs) st v = Some d \<longleftrightarrow>
     (\<exists>vs ds. v = Struct vs \<and> d = DStruct ds \<and> view_fields fs st vs = Some ds)"
  by (auto split: gval.splits)

lemma view_cons_conv:
  "view_fields (FCons n t fs) st vs = Some ds \<longleftrightarrow>
     (\<exists>v rest d es. vs = (n, v) # rest \<and> ds = (n, d) # es \<and> view t st v = Some d \<and>
        view_fields fs st rest = Some es)"
  by (auto split: list.splits option.splits if_splits)

lemma view_nil_conv: "view_fields FNil st vs = Some ds \<longleftrightarrow> vs = [] \<and> ds = []"
  by (auto split: if_splits)

lemmas struct_convs = view_struct_conv view_cons_conv view_nil_conv

lemma Spec_deep:
  assumes "view SpecType st v = Some d"
  shows "SnapshotMetadataServiceSpec_DeepCopyInto v st = deep SpecType v st"
proof -
  obtain aud adr ca req where v: "v = Struct [(''Audience'', aud), (''Address'', adr), (''CACert'', ca),
      (''RequireBaseSnapshotForDelta'', req)]"
    using assms by (auto simp: SpecType_def struct_convs simp del: view.simps view_fields.simps)
  show ?thesis
    by (auto simp: v SnapshotMetadataServiceSpec_DeepCopyInto_def SpecType_def fld_def set_fld_def
        Let_def split_beta fst_new copy_elems_new split: gval.split option.split)
qed

lemma Spec_deep_later:
  assumes "wf_store st" "view SpecType st v = Some d" "extends st st'"
  shows "SnapshotMetadataServiceSpec_DeepCopyInto v st' = deep SpecType v st'"
  by (rule Spec_deep [OF view_extends(1) [OF assms]])

lemma Sms_deep:
  assumes wf: "wf_store st" and "view SmsType st v = Some d"
  shows "SnapshotMetadataService_DeepCopyInto v st = deep SmsType v st"
proof -
  obtain tm om sp dm ds where v: "v = Struct [(''TypeMeta'', tm), (''ObjectMeta'', om), (''Spec'', sp)]"
    and om: "view ObjectMetaType st om = Some dm" and sp: "view SpecType st sp = Some ds"
    using assms(2) by (auto simp: SmsType_def struct_convs simp del: view.simps view_fields.simps)
  have "extends st (snd (deep ObjectMetaType om st))"
    using deep_copied(1) [OF wf om] by (simp add: copied_def)
  note s = Spec_deep_later [OF wf sp this]
  have "deep TypeMetaType w s = (w, s)" if "view TypeMetaType st w = Some e" for w s e
    using that by (auto simp: TypeMetaType_def struct_convs simp del: view.simps view_fields.simps)
  moreover obtain e where "view TypeMetaType st tm = Some e"
    using assms(2) v by (auto simp: SmsType_def split: option.splits)
  ultimately show ?thesis
    by (simp add: v SnapshotMetadataService_DeepCopyInto_def SmsType_def fld_def set_fld_def Let_def
        split_beta s ObjectMeta_DeepCopyInto_def)
qed


lemma copy_elems_eq:
  assumes eq: "\<And>v st d. wf_store st \<Longrightarrow> view t st v = Some d \<Longrightarrow> f v st = deep t v st"
    and wf0: "wf_store st0" and b: "next_addr st0 = b"
  shows "extends st0 st \<Longrightarrow> b < next_addr st \<Longrightarrow> map (view t st0) vs = map Some ds \<Longrightarrow>
           copy_elems f b i vs st = copy_elems (deep t) b i vs st"
proof (induction vs arbitrary: st ds i)
  case Nil
  then show ?case by simp
next
  case (Cons v vs)
  from Cons.prems(3) obtain d ds' where v: "view t st0 v = Some d" and vs: "map (view t st0) vs = map Some ds'"
    by (cases ds) auto
  have wf: "wf_store st" by (rule extends_wf [OF Cons.prems(1)])
  note v' = view_extends(1) [OF wf0 v Cons.prems(1)]
  obtain w st1 where w: "deep t v st = (w, st1)" by (cases "deep t v st")
  have e: "extends st st1" using deep_copied(1) [OF wf v'] w by (simp add: copied_def)
  then have n: "b < next_addr st1" using Cons.prems(2) by (simp add: extends_def)
  have "extends st0 (set_elem b i w st1)" "b < next_addr (set_elem b i w st1)"
    using extends_put [OF extends_trans [OF Cons.prems(1) e]] extends_trans [OF Cons.prems(1) e] n b
    by (simp_all add: set_elem_def store_simps split: option.split cell.split)
  from Cons.IH [OF this vs] show ?case by (simp add: eq [OF wf v'] w)
qed

lemma List_deep:
  assumes wf: "wf_store st" and "view SmsListType st v = Some d"
  shows "SnapshotMetadataServiceList_DeepCopyInto v st = deep SmsListType v st"
proof -
  obtain tm lm items e dm di where v: "v = Struct [(''TypeMeta'', tm), (''ListMeta'', lm), (''Items'', items)]"
    and tm: "view TypeMetaType st tm = Some e"
    and lm: "view ListMetaType st lm = Some dm" and items: "view (TSlice SmsType) st items = Some di"
    using assms(2) by (auto simp: SmsListType_def struct_convs simp del: view.simps view_fields.simps)
  define st1 where "st1 = snd (deep ListMetaType lm st)"
  have x: "extends st st1" unfolding st1_def using deep_copied(1) [OF wf lm] by (simp add: copied_def)
  note wf1 = extends_wf [OF x] and i1 = view_extends(1) [OF wf items x]
  have l: "(case items of
          Slice (Some s) \<Rightarrow> (case elems st1 s of
             Some vs \<Rightarrow>
               (let (a, st) = new (Array (replicate (length vs) (zero_value SmsType))) st1
                in (set_fld ''Items'' (Slice (Some (a, 0, length vs))) out,
                    copy_elems SnapshotMetadataService_DeepCopyInto a 0 vs st))
           | None \<Rightarrow> (out, st1))
        | _ \<Rightarrow> (out, st1)) =
      (case deep (TSlice SmsType) items st1 of (w, st2) \<Rightarrow> (set_fld ''Items'' w out, st2))"
    if "fld ''Items'' out = items" "set_fld ''Items'' items out = out" for out
  proof (cases "\<exists>s. items = Slice (Some s)")
    case True
    then obtain s vs ds where s: "items = Slice (Some s)" and vs: "elems st1 s = Some vs"
      and ds: "map (view SmsType st1) vs = map Some ds"
      using i1 by (auto simp: those_Some_iff split: option.splits)
    have "copy_elems SnapshotMetadataService_DeepCopyInto (next_addr st1) 0 vs (snd (new c st1)) =
          copy_elems (deep SmsType) (next_addr st1) 0 vs (snd (new c st1))" for c
      by (rule copy_elems_eq [where t = SmsType, OF Sms_deep wf1 refl extends_new [OF wf1] _ ds])
        (simp_all add: store_simps)
    then show ?thesis using s vs by (simp add: Let_def split_beta fst_new)
  next
    case False
    then show ?thesis using that i1 by (auto split: gval.splits option.splits)
  qed
  have t: "deep TypeMetaType tm s = (tm, s)" for s
    using tm by (auto simp: TypeMetaType_def struct_convs simp del: view.simps view_fields.simps)
  obtain lm' where lm': "deep ListMetaType lm st = (lm', st1)"
    unfolding st1_def by (metis prod.collapse)
  show ?thesis
    using l [of "Struct [(''TypeMeta'', tm), (''ListMeta'', lm'), (''Items'', items)]"]
    by (auto simp: v SnapshotMetadataServiceList_DeepCopyInto_def SmsListType_def fld_def set_fld_def
        Let_def split_beta t lm' ListMeta_DeepCopyInto_def simp del: deep.simps(3)
        split: gval.splits option.splits prod.splits)
qed


subsection \<open>The contract of a deep copy\<close>

text \<open>
  What callers rely on: the copy reads as the original did, lives in memory of its own, and leaves
  the memory that was there alone. Then neither side sees what is written through the other.
\<close>

locale deep_copy =
  fixes t :: gty and copy :: "gval \<Rightarrow> store \<Rightarrow> gval \<times> store"
  assumes same_value: "wf_store st \<Longrightarrow> view t st v = Some d \<Longrightarrow> copy v st = (w, st') \<Longrightarrow> view t st' w = Some d"
    and own_memory: "wf_store st \<Longrightarrow> view t st v = Some d \<Longrightarrow> copy v st = (w, st') \<Longrightarrow>
          a \<in> set (reach t st' w) \<Longrightarrow> next_addr st \<le> a \<and> a < next_addr st'"
    and keeps: "wf_store st \<Longrightarrow> view t st v = Some d \<Longrightarrow> copy v st = (w, st') \<Longrightarrow> extends st st'"
begin

lemma original_view:
  assumes "wf_store st" "view t st v = Some d" "copy v st = (w, st')"
  shows "view t st' v = Some d" "reach t st' v = reach t st v"
  by (rule view_extends [OF assms(1,2) keeps [OF assms]])+

lemma disjoint:
  assumes "wf_store st" "view t st v = Some d" "copy v st = (w, st')"
  shows "set (reach t st' v) \<inter> set (reach t st' w) = {}"
  using own_memory [OF assms] view_present(1) [OF assms(1,2)] original_view(2) [OF assms] by fastforce

lemma write_original:
  assumes "wf_store st" "view t st v = Some d" "copy v st = (w, st')" "a \<in> set (reach t st' v)"
  shows "view t (put a c st') w = Some d"
proof -
  have "\<forall>b \<in> set (reach t st' w). cells (put a c st') b = cells st' b"
    using disjoint [OF assms(1-3)] assms(4) by (auto simp: store_simps)
  from view_agree(1) [OF this] same_value [OF assms(1-3)] show ?thesis by simp
qed

lemma write_copy:
  assumes "wf_store st" "view t st v = Some d" "copy v st = (w, st')" "a \<in> set (reach t st' w)"
  shows "view t (put a c st') v = Some d"
proof -
  have "\<forall>b \<in> set (reach t st' v). cells (put a c st') b = cells st' b"
    using disjoint [OF assms(1-3)] assms(4) by (auto simp: store_simps)
  from view_agree(1) [OF this] original_view(1) [OF assms(1-3)] show ?thesis by simp
qed

lemma copy_copied:
  assumes "wf_store st" "view t st v = Some d"
  shows "copied t st d (copy v st)"
proof -
  obtain w st' where w: "copy v st = (w, st')" by (cases "copy v st")
  show ?thesis using same_value [OF assms w] own_memory [OF assms w] keeps [OF assms w] w
    by (simp add: copied_def)
qed

end

lemma copied_deep_copy:
  assumes "\<And>st v d. wf_store st \<Longrightarrow> view t st v = Some d \<Longrightarrow> copied t st d (copy v st)"
  shows "deep_copy t copy"
  by unfold_locales (use assms in \<open>force simp: copied_def\<close>)+

interpretation spec_copy: deep_copy SpecType SnapshotMetadataServiceSpec_DeepCopyInto
  by (rule copied_deep_copy) (simp add: Spec_deep deep_copied)

interpretation sms_copy: deep_copy SmsType SnapshotMetadataService_DeepCopyInto
  by (rule copied_deep_copy) (simp add: Sms_deep deep_copied)

interpretation list_copy: deep_copy SmsListType SnapshotMetadataServiceList_DeepCopyInto
  by (rule copied_deep_copy) (simp add: List_deep deep_copied)

text \<open>A deep copy of values gives a deep copy of pointers to them.\<close>

definition copy_pointer :: "(nat option \<Rightarrow> store \<Rightarrow> nat option \<times> store) \<Rightarrow> gval \<Rightarrow> store \<Rightarrow> gval \<times> store" where
  "copy_pointer f v st = (case v of Ptr p \<Rightarrow> (let (q, st') = f p st in (Ptr q, st')) | _ \<Rightarrow> (v, st))"

context deep_copy
begin

lemma pointer_copied:
  assumes wf: "wf_store st" and v: "view (TPtr t) st v = Some d"
  shows "copied (TPtr t) st d (copy_pointer (DeepCopy t copy) v st)"
proof (cases "\<exists>a. v = Ptr (Some a)")
  case True
  then obtain a w e where a: "v = Ptr (Some a)" and w: "pointee st a = Some w"
    and e: "view t st w = Some e" "d = DPtr (Some e)"
    using v by (auto split: option.splits)
  have x: "extends st (snd (new (Cell (zero_value t)) st))" by (rule extends_new [OF wf])
  obtain u st2 where u: "copy w (snd (new (Cell (zero_value t)) st)) = (u, st2)"
    by (cases "copy w (snd (new (Cell (zero_value t)) st))")
  with copy_copied [OF extends_wf [OF x] view_extends(1) [OF wf e(1) x]]
  have "copied t (snd (new (Cell (zero_value t)) st)) e (u, st2)" by simp
  from copied_pointer [OF wf this] show ?thesis
    using a w e u by (simp add: copy_pointer_def DeepCopy_def split_beta store_simps Let_def)
next
  case False
  then show ?thesis using wf v
    by (auto simp: copied_def extends_refl copy_pointer_def DeepCopy_def split: gval.splits option.splits)
qed

lemma pointer_deep_copy: "deep_copy (TPtr t) (copy_pointer (DeepCopy t copy))"
  by (rule copied_deep_copy) (rule pointer_copied)

end

interpretation spec_ptr: deep_copy "TPtr SpecType" "copy_pointer SnapshotMetadataServiceSpec_DeepCopy"
  unfolding SnapshotMetadataServiceSpec_DeepCopy_def by (rule spec_copy.pointer_deep_copy)

interpretation sms_ptr: deep_copy "TPtr SmsType" "copy_pointer SnapshotMetadataService_DeepCopy"
  unfolding SnapshotMetadataService_DeepCopy_def by (rule sms_copy.pointer_deep_copy)

interpretation list_ptr: deep_copy "TPtr SmsListType" "copy_pointer SnapshotMetadataServiceList_DeepCopy"
  unfolding SnapshotMetadataServiceList_DeepCopy_def by (rule list_copy.pointer_deep_copy)


subsection \<open>The copies of the custom resource\<close>

text \<open>
  C25. A deep copy of a \<open>SnapshotMetadataServiceList\<close>, items, certificates, labels and flags included, reads
  as the original, shares no memory with it, and neither sees what is written anywhere in the other.
\<close>

theorem SnapshotMetadataServiceList_independent:
  assumes "wf_store st" "view (TPtr SmsListType) st (Ptr p) = Some d"
    and "SnapshotMetadataServiceList_DeepCopy p st = (q, st')"
  shows "view (TPtr SmsListType) st' (Ptr q) = Some d \<and> view (TPtr SmsListType) st' (Ptr p) = Some d \<and>
    set (reach (TPtr SmsListType) st' (Ptr p)) \<inter> set (reach (TPtr SmsListType) st' (Ptr q)) = {} \<and>
    (\<forall>a \<in> set (reach (TPtr SmsListType) st' (Ptr p)).
       view (TPtr SmsListType) (put a c st') (Ptr q) = Some d) \<and>
    (\<forall>a \<in> set (reach (TPtr SmsListType) st' (Ptr q)).
       view (TPtr SmsListType) (put a c st') (Ptr p) = Some d)"
proof -
  have q: "copy_pointer SnapshotMetadataServiceList_DeepCopy (Ptr p) st = (Ptr q, st')"
    using assms(3) by (simp add: copy_pointer_def)
  note x = assms(1,2) q
  show ?thesis
    using list_ptr.same_value [OF x] list_ptr.original_view(1) [OF x] list_ptr.disjoint [OF x]
      list_ptr.write_original [OF x] list_ptr.write_copy [OF x] by blast
qed

text \<open>
  C0. \<open>DeepCopyObject\<close> of a nil pointer is the nil interface, never an interface that holds a nil
  pointer; of an object it is a new object of the same type and the same deep value.
\<close>

theorem SnapshotMetadataService_DeepCopyObject_spec:
  assumes "wf_store st" "view (TPtr SmsType) st (Ptr p) = Some d"
    and "SnapshotMetadataService_DeepCopyObject p st = (r, st')"
  shows "(case p of
            None \<Rightarrow> r = None \<and> st' = st
          | Some a \<Rightarrow> \<exists>b. r = Some (''*v1beta1.SnapshotMetadataService'', Some b) \<and> next_addr st \<le> b \<and>
              view (TPtr SmsType) st' (Ptr (Some b)) = Some d) \<and> extends st st'"
proof (cases p)
  case None
  then show ?thesis using assms(1,3)
    by (simp add: SnapshotMetadataService_DeepCopyObject_def SnapshotMetadataService_DeepCopy_def
        DeepCopy_def extends_refl)
next
  case (Some a)
  obtain q where q: "SnapshotMetadataService_DeepCopy p st = (q, st')"
    and r: "r = (if q \<noteq> None then Some (''*v1beta1.SnapshotMetadataService'', q) else None)"
    using assms(3) by (auto simp: SnapshotMetadataService_DeepCopyObject_def split: prod.splits if_splits)
  have x: "copy_pointer SnapshotMetadataService_DeepCopy (Ptr p) st = (Ptr q, st')"
    using q by (simp add: copy_pointer_def)
  note y = assms(1,2) x
  have "q \<noteq> None" using sms_ptr.same_value [OF y] assms(2) Some by (auto split: option.splits)
  then obtain b where b: "q = Some b" by blast
  have "next_addr st \<le> b" using sms_ptr.own_memory [OF y, of b] b by simp
  with b Some r show ?thesis using sms_ptr.same_value [OF y] sms_ptr.keeps [OF y] by simp
qed

text \<open>A list of two items that share their certificate and their flag.\<close>

definition spec_example :: gval where
  "spec_example = Struct
     [(''Audience'', Val (Str ''aud'')), (''Address'', Val (Str ''a:1'')), (''CACert'', Slice (Some (2, 2, 2))),
      (''RequireBaseSnapshotForDelta'', Ptr (Some 3))]"

definition sms_example :: "string \<Rightarrow> gval" where
  "sms_example name = Struct
     [(''TypeMeta'', zero_value TypeMetaType),
      (''ObjectMeta'', set_fld ''Labels'' (MapRef (Some 4)) (set_fld ''Name'' (Val (Str name)) (zero_value ObjectMetaType))),
      (''Spec'', spec_example)]"

definition store_example :: store where
  "store_example =
     \<lparr>cells = [0 \<mapsto> Cell (set_fld ''Items'' (Slice (Some (6, 0, 2))) (zero_value SmsListType)),
               6 \<mapsto> Array [sms_example ''a'', sms_example ''b''],
               2 \<mapsto> Array [Val (Byte 9), Val (Byte 9), Val (Byte 1), Val (Byte 2)],
               3 \<mapsto> Cell (Val (Boolean True)),
               4 \<mapsto> MapCell [''k'' \<mapsto> ''v''],
               5 \<mapsto> Cell (sms_example ''c'')],
      next_addr = 7\<rparr>"

lemma wf_store_example: "wf_store store_example"
  by (auto simp: wf_store_def store_example_def split: if_splits)

lemmas type_defs = SmsListType_def SmsType_def SpecType_def TypeMetaType_def ObjectMetaType_def
  ListMetaType_def OwnerReferenceType_def ManagedFieldsEntryType_def

text \<open>The readers on constructors, for the evaluation of examples.\<close>

lemma view_eval:
  "view (TVal k) st (Val x) = (if kind_of x = k then Some (DVal x) else None)"
  "view (TPtr t) st (Ptr None) = Some (DPtr None)"
  "view (TPtr t) st (Ptr (Some a)) =
     (case pointee st a of None \<Rightarrow> None | Some w \<Rightarrow> map_option (\<lambda>d. DPtr (Some d)) (view t st w))"
  "view (TSlice t) st (Slice None) = Some (DSlice None)"
  "view (TSlice t) st (Slice (Some s)) =
     (case elems st s of
        None \<Rightarrow> None | Some vs \<Rightarrow> map_option (\<lambda>ds. DSlice (Some ds)) (those (map (view t st) vs)))"
  "view TMap st (MapRef None) = Some (DMap None)"
  "view TMap st (MapRef (Some a)) = map_option (\<lambda>m. DMap (Some m)) (entries st a)"
  "view (TStruct fs) st (Struct vs) = map_option DStruct (view_fields fs st vs)"
  "view_fields FNil st [] = Some []"
  "view_fields (FCons n t fs) st ((m, v) # rest) =
     (if m = n then (case (view t st v, view_fields fs st rest) of
        (Some d, Some ds) \<Rightarrow> Some ((n, d) # ds) | _ \<Rightarrow> None) else None)"
  by simp_all

lemma reach_eval:
  "reach (TVal k) st v = []"
  "reach (TPtr t) st (Ptr None) = []"
  "reach (TSlice t) st (Slice None) = []"
  "reach TMap st (MapRef None) = []"
  "reach TMap st (MapRef (Some a)) = [a]"
  "reach_fields FNil st vs = []"
  "reach (TPtr t) st (Ptr (Some a)) = a # (case pointee st a of None \<Rightarrow> [] | Some w \<Rightarrow> reach t st w)"
  "reach (TSlice t) st (Slice (Some s)) =
     fst s # (case elems st s of None \<Rightarrow> [] | Some vs \<Rightarrow> concat (map (reach t st) vs))"
  "reach (TStruct fs) st (Struct vs) = reach_fields fs st vs"
  "reach_fields (FCons n t fs) st ((m, v) # rest) = reach t st v @ reach_fields fs st rest"
  by simp_all

lemma store_example_reads:
  "pointee store_example 0 = Some (set_fld ''Items'' (Slice (Some (6, 0, 2))) (zero_value SmsListType))"
  "elems store_example (6, 0, 2) = Some [sms_example ''a'', sms_example ''b'']"
  "elems store_example (2, 2, 2) = Some [Val (Byte 1), Val (Byte 2)]"
  "pointee store_example 3 = Some (Val (Boolean True))"
  "entries store_example 4 = Some [''k'' \<mapsto> ''v'']"
  "pointee store_example 5 = Some (sms_example ''c'')"
  by (simp_all add: store_example_def pointee_def elems_def entries_def)

lemmas example_simps = store_example_reads sms_example_def spec_example_def type_defs set_fld_def

lemma view_store_example:
  "\<exists>d. view (TPtr SmsListType) store_example (Ptr (Some 0)) = Some d"
  "\<exists>d. view (TPtr SmsType) store_example (Ptr (Some 5)) = Some d"
  by (simp_all add: example_simps view_eval del: view.simps view_fields.simps)

theorem SnapshotMetadataServiceList_independent_witness:
  "\<exists>q st'. SnapshotMetadataServiceList_DeepCopy (Some 0) store_example = (q, st') \<and>
     view (TPtr SmsListType) (put 2 (Array []) st') (Ptr q) =
       view (TPtr SmsListType) store_example (Ptr (Some 0))"
proof -
  obtain d where d: "view (TPtr SmsListType) store_example (Ptr (Some 0)) = Some d"
    using view_store_example(1) by blast
  obtain q st' where q: "SnapshotMetadataServiceList_DeepCopy (Some 0) store_example = (q, st')"
    by (cases "SnapshotMetadataServiceList_DeepCopy (Some 0) store_example")
  have x: "copy_pointer SnapshotMetadataServiceList_DeepCopy (Ptr (Some 0)) store_example = (Ptr q, st')"
    using q by (simp add: copy_pointer_def)
  have "2 \<in> set (reach (TPtr SmsListType) store_example (Ptr (Some 0)))"
    by (simp add: example_simps reach_eval del: reach.simps reach_fields.simps)
  then have "2 \<in> set (reach (TPtr SmsListType) st' (Ptr (Some 0)))"
    using list_ptr.original_view(2) [OF wf_store_example d x] by simp
  then show ?thesis
    using SnapshotMetadataServiceList_independent [OF wf_store_example d q, of "Array []"] d q by simp
qed

theorem SnapshotMetadataService_DeepCopyObject_spec_witness:
  "\<exists>b st'. SnapshotMetadataService_DeepCopyObject (Some 5) store_example =
       (Some (''*v1beta1.SnapshotMetadataService'', Some b), st') \<and> 7 \<le> b \<and>
     view (TPtr SmsType) st' (Ptr (Some b)) = view (TPtr SmsType) store_example (Ptr (Some 5))"
proof -
  obtain d where d: "view (TPtr SmsType) store_example (Ptr (Some 5)) = Some d"
    using view_store_example(2) by blast
  obtain r st' where r: "SnapshotMetadataService_DeepCopyObject (Some 5) store_example = (r, st')"
    by (cases "SnapshotMetadataService_DeepCopyObject (Some 5) store_example")
  show ?thesis
    using SnapshotMetadataService_DeepCopyObject_spec [OF wf_store_example d r] d r
    by (auto simp: store_example_def)
qed

end
