(* ===== verification/JunitFilter.thy ===== *)
theory JunitFilter
  imports Flags
begin

text \<open>
  \<open>release-tools/filter-junit.go\<close>: merges JUnit files and keeps the test cases whose name matches a
  regular expression, each name once. The decoder and encoder of XML, the compiler of regular
  expressions, the files and the order in which a Go map is ranged over are the environment.
\<close>

subsection \<open>Test cases\<close>

record test_case =
  tc_Name :: string
  tc_Time :: string
  tc_SystemOut :: string
  tc_SystemErr :: string
  tc_Failure :: string
  tc_Skipped :: string

text \<open>\<open>SkipReason\<close>: an element that is present but empty is kept as one blank, absence as the empty string.\<close>

definition SkipReason_UnmarshalText :: "string \<Rightarrow> string" where
  "SkipReason_UnmarshalText t = (let s = t in if s = '''' then '' '' else s)"

definition SkipReason_MarshalText :: "string \<Rightarrow> string" where
  "SkipReason_MarshalText s = (if s = '' '' then '''' else s)"

subsection \<open>Environment and state\<close>

record junit_env =
  je_ReadFile :: "string \<Rightarrow> gerr + string"
  je_stdin_Read :: "nat \<Rightarrow> string \<Rightarrow> gerr + nat"
  je_stdout_Write :: "string \<Rightarrow> gerr option"
  je_WriteFile :: "string \<Rightarrow> string \<Rightarrow> gerr option"
  je_Compile :: "string \<Rightarrow> gerr + (string \<Rightarrow> bool)"
  je_Unmarshal_TestSuite :: "string \<Rightarrow> gerr + test_case list"
  je_Unmarshal_TestResults :: "string \<Rightarrow> gerr + test_case list"
  je_MarshalIndent :: "test_case list \<Rightarrow> gerr + string"
  je_range :: "(string \<rightharpoonup> test_case) \<Rightarrow> string list"

record junit_state =
  js_stdin :: string
  js_stdout :: string
  js_files :: "(string \<times> string) list"

record junit_flags =
  jf_output :: string
  jf_tests :: string

definition junit_flag_defs :: "junit_flags flag_def list" where
  "junit_flag_defs = [flag_String ''o'' (\<lambda>x v. v\<lparr>jf_output := x\<rparr>), flag_String ''t'' (\<lambda>x v. v\<lparr>jf_tests := x\<rparr>)]"

definition junit_flag_defaults :: junit_flags where
  "junit_flag_defaults = \<lparr>jf_output = ''-'', jf_tests = ''''\<rparr>"

subsection \<open>Reading the inputs\<close>

text \<open>
  \<open>os.Stdin.Read(data)\<close> fills at most \<open>len(data)\<close> bytes; with an empty buffer it reads nothing and
  succeeds. It overwrites the start of what the buffer held.
\<close>

definition Stdin_Read :: "junit_env \<Rightarrow> string \<Rightarrow> (junit_state, string) io" where
  "Stdin_Read env data = (\<lambda>s.
     if data = [] then (Inr data, s)
     else (case je_stdin_Read env (length data) (js_stdin s) of
             Inl err \<Rightarrow> (Inl (Failed err), s)
           | Inr n \<Rightarrow>
               (let k = min n (min (length data) (length (js_stdin s)))
                in (Inr (take k (js_stdin s) @ drop k data), s\<lparr>js_stdin := drop k (js_stdin s)\<rparr>))))"

text \<open>\<open>if err != nil { panic(err) }\<close>\<close>

definition or_panic :: "('s, 'a) io \<Rightarrow> ('s, 'a) io" where
  "or_panic m = io_catch m (\<lambda>err. io_panic (error_text err))"

definition read_input :: "junit_env \<Rightarrow> string \<Rightarrow> string \<Rightarrow> (junit_state, string) io" where
  "read_input env input data =
     (if input = ''-'' then or_panic (Stdin_Read env data)
      else or_panic (lift_sum (je_ReadFile env input)))"

definition decode_input :: "junit_env \<Rightarrow> string \<Rightarrow> test_case list \<Rightarrow> (junit_state, test_case list) io" where
  "decode_input env data cases =
     (case je_Unmarshal_TestSuite env data of
        Inr cs \<Rightarrow> io_ret (cases @ cs)
      | Inl err \<Rightarrow>
          (if error_text err \<noteq> ''expected element type <testsuite> but have <testsuites>''
           then io_panic (error_text err)
           else io_bind (or_panic (lift_sum (je_Unmarshal_TestResults env data)))
                  (\<lambda>cs. io_ret (cases @ cs))))"

fun read_inputs :: "junit_env \<Rightarrow> string list \<Rightarrow> string \<Rightarrow> test_case list \<Rightarrow> (junit_state, test_case list) io" where
  "read_inputs env [] data cases = io_ret cases"
| "read_inputs env (input # inputs) data cases =
     io_bind (read_input env input data) (\<lambda>data.
     io_bind (decode_input env data cases) (\<lambda>cases.
     read_inputs env inputs data cases))"

subsection \<open>Filtering and writing\<close>

fun filter_loop :: "(string \<Rightarrow> bool) \<Rightarrow> test_case list \<Rightarrow> (string \<rightharpoonup> test_case) \<Rightarrow> string \<rightharpoonup> test_case" where
  "filter_loop matches [] filtered = filtered"
| "filter_loop matches (testcase # cases) filtered =
     (if \<not> matches (tc_Name testcase) then filter_loop matches cases filtered
      else filter_loop matches cases
        (case filtered (tc_Name testcase) of
           None \<Rightarrow> filtered(tc_Name testcase \<mapsto> testcase)
         | Some entry \<Rightarrow>
             if tc_Skipped entry \<noteq> '''' \<and> tc_Skipped testcase = ''''
             then filtered(tc_Name testcase \<mapsto> testcase) else filtered))"

definition ranged :: "junit_env \<Rightarrow> (string \<rightharpoonup> test_case) \<Rightarrow> test_case list" where
  "ranged env m = List.map_filter m (je_range env m)"

definition write_output :: "junit_env \<Rightarrow> string \<Rightarrow> string \<Rightarrow> (junit_state, unit) io" where
  "write_output env out data =
     (if out = ''-''
      then or_panic (case je_stdout_Write env data of
             Some err \<Rightarrow> io_fail err
           | None \<Rightarrow> (\<lambda>s. (Inr (), s\<lparr>js_stdout := js_stdout s @ data\<rparr>)))
      else or_panic (case je_WriteFile env out data of
             Some err \<Rightarrow> io_fail err
           | None \<Rightarrow> (\<lambda>s. (Inr (), s\<lparr>js_files := js_files s @ [(out, data)]\<rparr>))))"

text \<open>\<open>main\<close> after the program name: the exit code, or a panic.\<close>

definition junit_main :: "junit_env \<Rightarrow> string list \<Rightarrow> (junit_state, nat) io" where
  "junit_main env argv =
     (case FlagSet_Parse ExitOnError junit_flag_defs argv junit_flag_defaults of
        FlagsExit c \<Rightarrow> io_ret c
      | FlagsErr err \<Rightarrow> io_ret 2
      | FlagsPanic err \<Rightarrow> io_panic (error_text err)
      | FlagsOk v inputs \<Rightarrow>
          io_bind (or_panic (lift_sum (je_Compile env (jf_tests v)))) (\<lambda>matches.
          io_bind (read_inputs env inputs [] []) (\<lambda>cases.
          io_bind (or_panic (lift_sum (je_MarshalIndent env
             (ranged env (filter_loop matches cases Map.empty))))) (\<lambda>data.
          io_then (write_output env (jf_output v) data)
          (io_ret 0)))))"


subsection \<open>What is kept\<close>

text \<open>The test case reported for a name: the first real run, or else the first that was skipped.\<close>

definition best_run :: "test_case list \<Rightarrow> string \<Rightarrow> test_case option" where
  "best_run cases n =
     (let named = [c \<leftarrow> cases. tc_Name c = n]
      in (case [c \<leftarrow> named. tc_Skipped c = ''''] of
            c # _ \<Rightarrow> Some c
          | [] \<Rightarrow> (case named of c # _ \<Rightarrow> Some c | [] \<Rightarrow> None)))"

definition better :: "test_case option \<Rightarrow> test_case option \<Rightarrow> test_case option" where
  "better old new =
     (case old of
        None \<Rightarrow> new
      | Some e \<Rightarrow> (case new of
          None \<Rightarrow> Some e | Some c \<Rightarrow> if tc_Skipped e \<noteq> '''' \<and> tc_Skipped c = '''' then Some c else Some e))"

lemma better_None [simp]: "better None x = x" "better x None = x"
  by (simp_all add: better_def split: option.split)

lemma better_assoc: "better (better x y) z = better x (better y z)"
  by (auto simp: better_def split: option.splits)

lemma best_run_Cons:
  "best_run (c # cases) n = (if tc_Name c = n then better (Some c) (best_run cases n) else best_run cases n)"
  by (auto simp: best_run_def better_def Let_def filter_empty_conv split: list.splits)
    (auto simp: filter_eq_Cons_iff)

lemma filter_loop_best:
  "filter_loop matches cases m n =
     better (m n) (if matches n then best_run cases n else None)"
proof (induction cases arbitrary: m)
  case Nil
  then show ?case by (simp add: best_run_def better_def split: option.split)
next
  case (Cons c cases)
  show ?case
  proof (cases "matches (tc_Name c)")
    case True
    let ?m = "case m (tc_Name c) of None \<Rightarrow> m(tc_Name c \<mapsto> c)
         | Some entry \<Rightarrow> if tc_Skipped entry \<noteq> '''' \<and> tc_Skipped c = '''' then m(tc_Name c \<mapsto> c) else m"
    have "?m n = (if n = tc_Name c then better (m n) (Some c) else m n)"
      by (auto simp: better_def split: option.split)
    with True show ?thesis by (auto simp: Cons.IH best_run_Cons better_assoc)
  next
    case False
    then show ?thesis by (auto simp: Cons.IH best_run_Cons)
  qed
qed

lemma best_run_Nil [simp]: "best_run [] n = None"
  by (simp add: best_run_def)

lemma best_run_None: "best_run cases n = None \<longleftrightarrow> n \<notin> tc_Name ` set cases"
  by (induction cases) (auto simp: best_run_Cons better_def split: option.splits)

lemma best_run_Some:
  "best_run cases n = Some c \<Longrightarrow> c \<in> set cases \<and> tc_Name c = n \<and>
     (tc_Skipped c = '''' \<longleftrightarrow> (\<exists>d \<in> set cases. tc_Name d = n \<and> tc_Skipped d = ''''))"
proof (induction cases arbitrary: c)
  case Nil
  then show ?case by simp
next
  case (Cons a cases)
  have none: "tc_Name d \<noteq> n" if "best_run cases n = None" "d \<in> set cases" for d
    using that by (auto simp: best_run_None)
  show ?case
  proof (cases "best_run cases n")
    case None
    with Cons.prems none show ?thesis by (auto simp: best_run_Cons split: if_splits)
  next
    case (Some d)
    with Cons.IH [OF Some] Cons.prems show ?thesis
      by (auto simp: best_run_Cons better_def split: if_splits)
  qed
qed

lemma filter_loop_spec:
  "filter_loop matches cases Map.empty n = (if matches n then best_run cases n else None)"
  by (simp add: filter_loop_best)

lemma filter_loop_dom:
  "dom (filter_loop matches cases Map.empty) = {n \<in> tc_Name ` set cases. matches n}"
proof (rule set_eqI)
  fix n
  show "n \<in> dom (filter_loop matches cases Map.empty) \<longleftrightarrow> n \<in> {n \<in> tc_Name ` set cases. matches n}"
    by (cases "matches n") (simp_all add: domIff filter_loop_spec best_run_None)
qed

lemma ranged_names:
  assumes "range_order m (je_range env m)" "\<And>n c. m n = Some c \<Longrightarrow> tc_Name c = n"
  shows "map tc_Name (ranged env m) = je_range env m" "set (ranged env m) = ran m"
proof -
  have "map tc_Name (List.map_filter m ns) = ns \<and> set (List.map_filter m ns) = {c. \<exists>n \<in> set ns. m n = Some c}"
    if "set ns \<subseteq> dom m" for ns
    using that
  proof (induction ns)
    case (Cons n ns)
    then obtain c where "m n = Some c" by auto
    with Cons assms(2) show ?case by (auto simp: map_filter_simps)
  qed (simp add: map_filter_simps)
  from this [of "je_range env m"] assms(1)
  show "map tc_Name (ranged env m) = je_range env m" "set (ranged env m) = ran m"
    by (auto simp: ranged_def range_order_def ran_def)
qed

subsection \<open>Runs of the program\<close>

lemma or_panic_run [io_run]:
  "or_panic m s = (case m s of (Inl (Failed e), t) \<Rightarrow> (Inl (Panicked (error_text e)), t) | r \<Rightarrow> r)"
  by (simp add: or_panic_def io_run split: prod.split sum.split exn.split)

text \<open>The test cases of a file in either format.\<close>

definition decoded :: "junit_env \<Rightarrow> string \<Rightarrow> test_case list" where
  "decoded env data =
     (case je_Unmarshal_TestSuite env data of
        Inr cs \<Rightarrow> cs
      | Inl err \<Rightarrow> (case je_Unmarshal_TestResults env data of Inr cs \<Rightarrow> cs | Inl err \<Rightarrow> []))"

definition file_cases :: "junit_env \<Rightarrow> string \<Rightarrow> test_case list" where
  "file_cases env name = (case je_ReadFile env name of Inr data \<Rightarrow> decoded env data | Inl err \<Rightarrow> [])"

lemma decode_input_ok:
  "decode_input env data cases s = (Inr cases', s') \<Longrightarrow> cases' = cases @ decoded env data \<and> s' = s"
  by (auto simp: decode_input_def decoded_def io_run split: sum.splits if_splits)

lemma read_inputs_files:
  "''-'' \<notin> set inputs \<Longrightarrow> read_inputs env inputs data cases s = (Inr cases', s') \<Longrightarrow>
     cases' = cases @ concat (map (file_cases env) inputs) \<and> s' = s"
proof (induction inputs arbitrary: data cases s)
  case Nil
  then show ?case by (simp add: io_run)
next
  case (Cons f inputs)
  from Cons.prems obtain data' cs t t' where r: "je_ReadFile env f = Inr data'"
    and d: "decode_input env data' cases s = (Inr cs, t')"
    and i: "read_inputs env inputs data' cs t' = (Inr cases', s')"
    by (auto simp: read_input_def io_run split: sum.splits prod.splits)
  from decode_input_ok [OF d] Cons.IH [OF _ i] Cons.prems(1) r show ?case
    by (auto simp: file_cases_def)
qed


text \<open>
  C26. A run that succeeds writes exactly one test case for every matching name of its input files,
  taken from the inputs, and reports a test as skipped only if every run of it was skipped, whatever
  the order of the files and of the map.
\<close>

theorem junit_main_merges:
  assumes run: "junit_main env argv s = (Inr 0, s')"
    and flags: "FlagSet_Parse ExitOnError junit_flag_defs argv junit_flag_defaults = FlagsOk v inputs"
    and files: "''-'' \<notin> set inputs"
    and re: "je_Compile env (jf_tests v) = Inr matches"
    and cases: "cases = concat (map (file_cases env) inputs)"
    and range: "range_order (filter_loop matches cases Map.empty)
                  (je_range env (filter_loop matches cases Map.empty))"
  shows "\<exists>kept data. je_MarshalIndent env kept = Inr data \<and>
    s' = (if jf_output v = ''-'' then s\<lparr>js_stdout := js_stdout s @ data\<rparr>
          else s\<lparr>js_files := js_files s @ [(jf_output v, data)]\<rparr>) \<and>
    distinct (map tc_Name kept) \<and> set kept \<subseteq> set cases \<and>
    tc_Name ` set kept = {n \<in> tc_Name ` set cases. matches n} \<and>
    (\<forall>c \<in> set kept. tc_Skipped c = '''' \<longleftrightarrow>
       (\<exists>d \<in> set cases. tc_Name d = tc_Name c \<and> tc_Skipped d = ''''))"
proof -
  let ?m = "filter_loop matches cases Map.empty"
  have m: "?m n = Some c \<Longrightarrow> matches n \<and> best_run cases n = Some c" for n c
    by (simp add: filter_loop_spec split: if_splits)
  then have n: "tc_Name c = n" if "?m n = Some c" for n c
    using best_run_Some that by blast
  note kept = ranged_names [OF range n]
  from run obtain cs t data where i: "read_inputs env inputs [] [] s = (Inr cs, t)"
    and e: "je_MarshalIndent env (ranged env (filter_loop matches cs Map.empty)) = Inr data"
    and w: "write_output env (jf_output v) data t = (Inr (), s')"
    by (auto simp: junit_main_def flags re io_run split: sum.splits prod.splits exn.splits)
  from read_inputs_files [OF files i] have "cs = cases" "t = s" by (simp_all add: cases)
  moreover have "s' = (if jf_output v = ''-'' then t\<lparr>js_stdout := js_stdout t @ data\<rparr>
          else t\<lparr>js_files := js_files t @ [(jf_output v, data)]\<rparr>)"
    using w by (auto simp: write_output_def io_run split: option.splits if_splits)
  moreover have "distinct (map tc_Name (ranged env ?m))"
    using kept(1) range by (simp add: range_order_def)
  moreover have "tc_Name ` set (ranged env ?m) = {n \<in> tc_Name ` set cases. matches n}"
    using kept(1) range filter_loop_dom [of matches cases]
    by (metis list.set_map range_order_def)
  moreover have "c \<in> set cases \<and> (tc_Skipped c = '''' \<longleftrightarrow>
       (\<exists>d \<in> set cases. tc_Name d = tc_Name c \<and> tc_Skipped d = ''''))"
    if "c \<in> set (ranged env ?m)" for c
  proof -
    from that kept(2) obtain n where "?m n = Some c" by (auto simp: ran_def)
    with m best_run_Some show ?thesis by blast
  qed
  ultimately show ?thesis using e by (intro exI [of _ "ranged env ?m"] exI [of _ data]) auto
qed

text \<open>
  C27. With \<open>-\<close> as its first input the program never reads standard input: the buffer is empty, so
  nothing is read, and the empty document makes it panic with whatever standard input holds.
\<close>

theorem junit_main_stdin_panics:
  assumes "FlagSet_Parse ExitOnError junit_flag_defs argv junit_flag_defaults = FlagsOk v (''-'' # inputs)"
    and "je_Compile env (jf_tests v) = Inr matches"
    and "je_Unmarshal_TestSuite env '''' = Inl err"
    and "error_text err \<noteq> ''expected element type <testsuite> but have <testsuites>''"
  shows "junit_main env argv s = (Inl (Panicked (error_text err)), s)"
  using assms by (simp add: junit_main_def io_run read_input_def Stdin_Read_def decode_input_def)

text \<open>
  The text of a \<open>skipped\<close> element survives decoding and encoding, except for one blank, which becomes
  the empty text; the decoded reason is never empty, so a skipped test is never taken for a real run.
\<close>

lemma SkipReason_roundtrip:
  "SkipReason_MarshalText (SkipReason_UnmarshalText t) = (if t = '' '' then '''' else t)"
  "SkipReason_UnmarshalText t \<noteq> ''''"
  by (simp_all add: SkipReason_MarshalText_def SkipReason_UnmarshalText_def Let_def)

subsection \<open>An example\<close>

definition run_example :: "string \<Rightarrow> string \<Rightarrow> test_case" where
  "run_example name skipped =
     \<lparr>tc_Name = name, tc_Time = ''1'', tc_SystemOut = '''', tc_SystemErr = '''', tc_Failure = '''',
      tc_Skipped = skipped\<rparr>"

text \<open>Two files: \<open>a\<close> was skipped in the first and run in the second, \<open>b\<close> skipped in both.\<close>

definition junit_env_example :: junit_env where
  "junit_env_example =
     \<lparr>je_ReadFile = (\<lambda>f. if f = ''f1'' \<or> f = ''f2'' then Inr f else Inl (Plain ''no such file'')),
      je_stdin_Read = (\<lambda>n s. if s = [] then Inl (Plain ''EOF'') else Inr n),
      je_stdout_Write = (\<lambda>t. None), je_WriteFile = (\<lambda>f t. None),
      je_Compile = (\<lambda>r. Inr (\<lambda>n. has_prefix n r)),
      je_Unmarshal_TestSuite = (\<lambda>d.
        if d = ''f1'' then Inr [run_example ''ta'' '' '', run_example ''tb'' ''slow'', run_example ''x'' '''']
        else if d = ''f2'' then Inl (Plain ''expected element type <testsuite> but have <testsuites>'')
        else Inl (Plain ''EOF'')),
      je_Unmarshal_TestResults = (\<lambda>d. Inr [run_example ''ta'' '''', run_example ''tb'' ''slow'']),
      je_MarshalIndent = (\<lambda>cs. Inr (concat (map (\<lambda>c. tc_Name c @ tc_Skipped c) cs))),
      je_range = (\<lambda>m. [''tb'', ''ta''])\<rparr>"

definition junit_start :: junit_state where
  "junit_start = \<lparr>js_stdin = ''<testsuite/>'', js_stdout = '''', js_files = []\<rparr>"

lemma junit_flags_example:
  "FlagSet_Parse ExitOnError junit_flag_defs [''-t'', ''t'', ''-o=out'', ''f1'', ''f2''] junit_flag_defaults =
     FlagsOk \<lparr>jf_output = ''out'', jf_tests = ''t''\<rparr> [''f1'', ''f2'']"
  "FlagSet_Parse ExitOnError junit_flag_defs [''-''] junit_flag_defaults = FlagsOk junit_flag_defaults [''-'']"
  by code_simp+

lemma junit_run_example:
  "junit_main junit_env_example [''-t'', ''t'', ''-o=out'', ''f1'', ''f2''] junit_start =
     (Inr 0, junit_start\<lparr>js_files := [(''out'', ''tbslowta'')]\<rparr>)"
  by (simp add: junit_main_def junit_flags_example io_run junit_env_example_def junit_start_def
      read_input_def decode_input_def write_output_def has_prefix_def run_example_def ranged_def
      map_filter_simps)

theorem junit_main_merges_witness:
  "\<exists>kept. je_MarshalIndent junit_env_example kept = Inr ''tbslowta'' \<and>
     distinct (map tc_Name kept) \<and> tc_Name ` set kept = {''ta'', ''tb''}"
proof -
  let ?cases = "concat (map (file_cases junit_env_example) [''f1'', ''f2''])"
  let ?m = "filter_loop (\<lambda>n. has_prefix n ''t'') ?cases Map.empty"
  have cs: "?cases = [run_example ''ta'' '' '', run_example ''tb'' ''slow'', run_example ''x'' '''',
      run_example ''ta'' '''', run_example ''tb'' ''slow'']"
    by (simp add: file_cases_def decoded_def junit_env_example_def)
  have d: "dom ?m = {''ta'', ''tb''}"
    unfolding cs filter_loop_dom by (auto simp: run_example_def has_prefix_def)
  have o: "range_order ?m (je_range junit_env_example ?m)"
    unfolding range_order_def d by (auto simp: junit_env_example_def)
  have n: "tc_Name ` set ?cases = {''ta'', ''tb'', ''x''}"
    unfolding cs by (auto simp: run_example_def)
  have c: "je_Compile junit_env_example (jf_tests \<lparr>jf_output = ''out'', jf_tests = ''t''\<rparr>) =
      Inr (\<lambda>n. has_prefix n ''t'')"
    by (simp add: junit_env_example_def)
  obtain kept data where k: "je_MarshalIndent junit_env_example kept = Inr data"
      "js_files (junit_start\<lparr>js_files := [(''out'', ''tbslowta'')]\<rparr>) = [(''out'', data)]"
      "distinct (map tc_Name kept)"
      "tc_Name ` set kept = {n \<in> tc_Name ` set ?cases. has_prefix n ''t''}"
    using junit_main_merges [OF junit_run_example junit_flags_example(1) _ c refl o]
    by (auto simp: junit_start_def)
  have "tc_Name ` set kept = {''ta'', ''tb''}"
    unfolding k(4) n by (auto simp: has_prefix_def)
  with k(1-3) show ?thesis by auto
qed

theorem junit_main_stdin_panics_witness:
  "junit_main junit_env_example [''-''] junit_start = (Inl (Panicked ''EOF''), junit_start)"
  using junit_main_stdin_panics [where env = junit_env_example and s = junit_start, OF junit_flags_example(2)]
  by (simp add: junit_env_example_def)

end
