(* ===== verification/RestClient.thy ===== *)
theory RestClient
  imports Flags Api
begin

text \<open>
  The REST client of \<open>client-go\<close> as far as the typed client of the custom resource uses it: paths,
  the chain of calls that builds a request, the configuration it is made from, and \<open>Do\<close>.
  The transport, the codecs, the parser of URLs and the rate limiters are the environment. A request
  is recorded once it is handed to the transport, however often the transport retries it.
\<close>

subsection \<open>Package \<open>path\<close>\<close>

fun clean_segs :: "bool \<Rightarrow> string list \<Rightarrow> string list \<Rightarrow> string list" where
  "clean_segs rooted out [] = rev out"
| "clean_segs rooted out (s # ss) =
     (if s = '''' \<or> s = ''.'' then clean_segs rooted out ss
      else if s = ''..'' then
        (if out \<noteq> [] \<and> hd out \<noteq> ''..'' then clean_segs rooted (tl out) ss
         else if rooted then clean_segs rooted out ss
         else clean_segs rooted (''..'' # out) ss)
      else clean_segs rooted (s # out) ss)"

definition path_Clean :: "string \<Rightarrow> string" where
  "path_Clean p =
     (if p = [] then ''.''
      else let rooted = (hd p = CHR ''/'');
               out = join_with ''/'' (clean_segs rooted [] (split_on (CHR ''/'') p))
           in if rooted then CHR ''/'' # out else if out = [] then ''.'' else out)"

definition path_Join :: "string list \<Rightarrow> string" where
  "path_Join elems =
     (if \<forall>e \<in> set elems. e = [] then []
      else path_Clean (join_with ''/'' (dropWhile (\<lambda>e. e = []) elems)))"

subsection \<open>Configuration and clients\<close>

text \<open>The bits of an IEEE number: zero has two signs, and no comparison with NaN holds.\<close>

definition float32_zero :: "float32 \<Rightarrow> bool" where
  "float32_zero q \<longleftrightarrow> q = 0 \<or> q = 0x80000000"

definition float32_positive :: "float32 \<Rightarrow> bool" where
  "float32_positive q \<longleftrightarrow> 0 < q \<and> q \<le> 0x7F800000"

datatype transport = DefaultTransport | Transport nat

datatype http_client = DefaultClient | HttpClient transport int64

text \<open>A rate limiter is given by the caller, or the n-th one that was created.\<close>

datatype rate_limiter = GivenLimiter nat | TokenBucket nat

record client_config =
  cc_Host :: string
  cc_APIPath :: string
  cc_GroupVersion :: "(string \<times> string) option"
  cc_NegotiatedSerializer :: "string option"
  cc_AcceptContentTypes :: string
  cc_ContentType :: string
  cc_UserAgent :: string
  cc_DefaultTLS :: bool
  cc_QPS :: float32
  cc_Burst :: int64
  cc_RateLimiter :: "rate_limiter option"
  cc_Timeout :: int64

record parsed_url =
  url_Scheme :: string
  url_Host :: string
  url_Path :: string

record rest_client =
  rc_base :: parsed_url
  rc_versionedAPIPath :: string
  rc_AcceptContentTypes :: string
  rc_ContentType :: string
  rc_rateLimiter :: "rate_limiter option"
  rc_Client :: "http_client option"

record http_request =
  hr_method :: string
  hr_scheme :: string
  hr_host :: string
  hr_path :: string
  hr_query :: "string \<rightharpoonup> string list"
  hr_headers :: "string \<rightharpoonup> string"
  hr_body :: "string option"

text \<open>The outcome of an exchange; \<open>res_err\<close> is what \<open>Result.Error\<close> returns.\<close>

record rest_result =
  res_err :: "gerr option"
  res_body :: string
  res_contentType :: string
  res_statusCode :: nat
  res_decoder :: bool

text \<open>
  \<open>'o\<close> are the objects that can be a body. The first argument of \<open>re_Do\<close>, \<open>re_Watch\<close> and \<open>re_Wait\<close> is what
  has been sent before.
\<close>

record 'o rest_env =
  re_TransportFor :: "client_config \<Rightarrow> gerr + transport"
  re_url_Parse :: "string \<Rightarrow> gerr + parsed_url"
  re_DefaultUserAgent :: string
  re_Duration_String :: "int64 \<Rightarrow> string"
  re_Encode :: "string \<Rightarrow> 'o \<Rightarrow> gerr + string"
  re_Wait :: "http_request list \<Rightarrow> rate_limiter \<Rightarrow> gerr option"
  re_Do :: "http_request list \<Rightarrow> http_request \<Rightarrow> rest_result"
  re_Watch :: "http_request list \<Rightarrow> http_request \<Rightarrow> gerr + nat"

record rest_state =
  limiters :: "(float32 \<times> int64) list"
  sent :: "http_request list"

definition HTTPClientFor :: "'o rest_env \<Rightarrow> client_config \<Rightarrow> (rest_state, http_client) io" where
  "HTTPClientFor env config =
     io_bind (lift_sum (re_TransportFor env config)) (\<lambda>t.
     io_ret (if t \<noteq> DefaultTransport \<or> 0 <s cc_Timeout config
             then HttpClient t (cc_Timeout config) else DefaultClient))"

definition NewTokenBucketRateLimiter :: "float32 \<Rightarrow> int64 \<Rightarrow> (rest_state, rate_limiter) io" where
  "NewTokenBucketRateLimiter qps burst = (\<lambda>s.
     (Inr (TokenBucket (length (limiters s))), s\<lparr>limiters := limiters s @ [(qps, burst)]\<rparr>))"

definition DefaultVersionedAPIPath :: "string \<Rightarrow> string \<times> string \<Rightarrow> string" where
  "DefaultVersionedAPIPath apiPath gv =
     (let versionedAPIPath = path_Join [''/'', apiPath]
      in if fst gv \<noteq> [] then path_Join [versionedAPIPath, fst gv, snd gv]
         else path_Join [versionedAPIPath, snd gv])"

definition DefaultServerURL ::
  "'o rest_env \<Rightarrow> string \<Rightarrow> string \<Rightarrow> string \<times> string \<Rightarrow> bool \<Rightarrow> gerr + parsed_url \<times> string" where
  "DefaultServerURL env host apiPath gv defaultTLS =
     (if host = [] then Inl (Plain ''host must be a URL or a host:port pair'')
      else let hostURL =
        (case re_url_Parse env host of
           Inr u \<Rightarrow>
             if url_Scheme u = [] \<or> url_Host u = [] then None else Some u
         | Inl err \<Rightarrow> None)
      in (case hostURL of
            Some u \<Rightarrow> Inr (u, DefaultVersionedAPIPath apiPath gv)
          | None \<Rightarrow>
              (case re_url_Parse env ((if defaultTLS then ''https://'' else ''http://'') @ host) of
                 Inl err \<Rightarrow> Inl err
               | Inr u \<Rightarrow>
                   if url_Path u \<noteq> [] \<and> url_Path u \<noteq> ''/''
                   then Inl (Plain (''host must be a URL or a host:port pair: '' @ quote host))
                   else Inr (u, DefaultVersionedAPIPath apiPath gv))))"

definition DefaultServerUrlFor :: "'o rest_env \<Rightarrow> client_config \<Rightarrow> gerr + parsed_url \<times> string" where
  "DefaultServerUrlFor env config =
     (let host = (if cc_Host config = [] then ''localhost'' else cc_Host config)
      in DefaultServerURL env host (cc_APIPath config)
           (case cc_GroupVersion config of Some gv \<Rightarrow> gv | None \<Rightarrow> ([], [])) (cc_DefaultTLS config))"

text \<open>The limiter of a client: the configured one, or a new one unless the rate is negative.\<close>

definition config_limiter :: "client_config \<Rightarrow> (rest_state, rate_limiter option) io" where
  "config_limiter config =
     (case cc_RateLimiter config of
        Some l \<Rightarrow> io_ret (Some l)
      | None \<Rightarrow>
          (let qps = (if float32_zero (cc_QPS config) then 0x40A00000 else cc_QPS config);
               burst = (if cc_Burst config = 0 then 10 else cc_Burst config)
           in if float32_positive qps
              then io_bind (NewTokenBucketRateLimiter qps burst) (\<lambda>l. io_ret (Some l))
              else io_ret None))"

definition NewRESTClient ::
  "parsed_url \<Rightarrow> string \<Rightarrow> client_config \<Rightarrow> rate_limiter option \<Rightarrow> http_client option \<Rightarrow> rest_client" where
  "NewRESTClient baseURL versionedAPIPath config l client =
     \<lparr>rc_base = baseURL\<lparr>url_Path :=
        (if url_Path baseURL \<noteq> [] \<and> last (url_Path baseURL) = CHR ''/'' then url_Path baseURL
         else url_Path baseURL @ ''/'')\<rparr>,
      rc_versionedAPIPath = versionedAPIPath, rc_AcceptContentTypes = cc_AcceptContentTypes config,
      rc_ContentType = cc_ContentType config, rc_rateLimiter = l, rc_Client = client\<rparr>"

definition RESTClientForConfigAndClient ::
  "'o rest_env \<Rightarrow> client_config \<Rightarrow> http_client option \<Rightarrow> (rest_state, rest_client) io" where
  "RESTClientForConfigAndClient env config client =
     (if cc_GroupVersion config = None
      then io_fail (Plain ''GroupVersion is required when initializing a RESTClient'')
      else if cc_NegotiatedSerializer config = None
      then io_fail (Plain ''NegotiatedSerializer is required when initializing a RESTClient'')
      else io_bind (lift_sum (DefaultServerUrlFor env config)) (\<lambda>(baseURL, versionedAPIPath).
           io_bind (config_limiter config) (\<lambda>l.
           io_ret (NewRESTClient baseURL versionedAPIPath config l client))))"

definition UnversionedRESTClientForConfigAndClient ::
  "'o rest_env \<Rightarrow> client_config \<Rightarrow> http_client option \<Rightarrow> (rest_state, rest_client) io" where
  "UnversionedRESTClientForConfigAndClient env config client =
     (if cc_NegotiatedSerializer config = None
      then io_fail (Plain ''NegotiatedSerializer is required when initializing a RESTClient'')
      else io_bind (lift_sum (DefaultServerUrlFor env config)) (\<lambda>(baseURL, versionedAPIPath).
           io_bind (config_limiter config) (\<lambda>l.
           io_ret (NewRESTClient baseURL versionedAPIPath config l client))))"

text \<open>The discovery client raises the burst and the timeout that are not set.\<close>

definition setDiscoveryDefaults :: "'o rest_env \<Rightarrow> client_config \<Rightarrow> client_config" where
  "setDiscoveryDefaults env config =
     config\<lparr>cc_APIPath := [], cc_GroupVersion := None,
            cc_Timeout := (if cc_Timeout config = 0 then 32000000000 else cc_Timeout config),
            cc_Burst := (if cc_Burst config = 0 then 300 else cc_Burst config),
            cc_NegotiatedSerializer := Some ''discovery'',
            cc_UserAgent := (if cc_UserAgent config = [] then re_DefaultUserAgent env else cc_UserAgent config)\<rparr>"

definition NewDiscoveryClientForConfigAndClient ::
  "'o rest_env \<Rightarrow> client_config \<Rightarrow> http_client option \<Rightarrow> (rest_state, rest_client) io" where
  "NewDiscoveryClientForConfigAndClient env c client =
     UnversionedRESTClientForConfigAndClient env (setDiscoveryDefaults env c) client"


subsection \<open>Building a request\<close>

text \<open>
  \<open>Request\<close> without the namespace, which a cluster scoped client never sets; \<open>url.Values\<close> is a map from
  names to the values added so far. Once \<open>err\<close> is set every further call leaves the request alone.
\<close>

record rest_request =
  rr_c :: rest_client
  rr_timeout :: int64
  rr_contentType :: string
  rr_verb :: string
  rr_pathPrefix :: string
  rr_subpath :: string
  rr_params :: "string \<rightharpoonup> string list"
  rr_headers :: "string \<rightharpoonup> string"
  rr_resource :: string
  rr_resourceName :: string
  rr_subresource :: string
  rr_err :: "gerr option"
  rr_body :: "string option"

definition client_timeout :: "http_client option \<Rightarrow> int64" where
  "client_timeout c = (case c of Some (HttpClient t d) \<Rightarrow> d | _ \<Rightarrow> 0)"

definition accept_header :: "rest_client \<Rightarrow> string \<Rightarrow> string" where
  "accept_header c contentType =
     (if rc_AcceptContentTypes c \<noteq> [] then rc_AcceptContentTypes c else contentType @ '', */*'')"

definition NewRequest :: "rest_client \<Rightarrow> rest_request" where
  "NewRequest c =
     (let contentType = (if rc_ContentType c = [] then ''application/json'' else rc_ContentType c)
      in \<lparr>rr_c = c, rr_timeout = client_timeout (rc_Client c), rr_contentType = contentType,
          rr_verb = [], rr_pathPrefix = path_Join [''/'', url_Path (rc_base c), rc_versionedAPIPath c],
          rr_subpath = [], rr_params = Map.empty,
          rr_headers = [''Accept'' \<mapsto> accept_header c contentType],
          rr_resource = [], rr_resourceName = [], rr_subresource = [], rr_err = None, rr_body = None\<rparr>)"

definition Verb :: "string \<Rightarrow> rest_client \<Rightarrow> rest_request" where
  "Verb verb c = (NewRequest c)\<lparr>rr_verb := verb\<rparr>"

definition verb_Patch :: "string \<Rightarrow> rest_client \<Rightarrow> rest_request" where
  "verb_Patch pt c =
     (let r = Verb ''PATCH'' c in r\<lparr>rr_headers := (rr_headers r)(''Content-Type'' \<mapsto> pt)\<rparr>)"

definition IsValidPathSegmentName :: "string \<Rightarrow> string list" where
  "IsValidPathSegmentName name =
     (if name = ''.'' then [''may not be '' @ [CHR 0x27] @ ''.'' @ [CHR 0x27]]
      else if name = ''..'' then [''may not be '' @ [CHR 0x27] @ ''..'' @ [CHR 0x27]]
      else (if CHR ''/'' \<in> set name then [''may not contain '' @ [CHR 0x27] @ ''/'' @ [CHR 0x27]] else []) @
           (if CHR ''%'' \<in> set name then [''may not contain '' @ [CHR 0x27] @ ''%'' @ [CHR 0x27]] else []))"

definition invalid_segment :: "string \<Rightarrow> string \<Rightarrow> string list \<Rightarrow> gerr" where
  "invalid_segment what s msgs =
     Plain (''invalid '' @ what @ '' '' @ quote s @ '': ['' @ join_with '' '' msgs @ '']'')"

definition already_set :: "string \<Rightarrow> string \<Rightarrow> string \<Rightarrow> gerr" where
  "already_set what old s =
     Plain (what @ '' already set to '' @ quote old @ '', cannot change to '' @ quote s)"

definition req_Resource :: "string \<Rightarrow> rest_request \<Rightarrow> rest_request" where
  "req_Resource resource r =
     (if rr_err r \<noteq> None then r
      else if rr_resource r \<noteq> []
      then r\<lparr>rr_err := Some (already_set ''resource'' (rr_resource r) resource)\<rparr>
      else (case IsValidPathSegmentName resource of
              [] \<Rightarrow> r\<lparr>rr_resource := resource\<rparr>
            | msgs \<Rightarrow> r\<lparr>rr_err := Some (invalid_segment ''resource'' resource msgs)\<rparr>))"

definition req_Name :: "string \<Rightarrow> rest_request \<Rightarrow> rest_request" where
  "req_Name resourceName r =
     (if rr_err r \<noteq> None then r
      else if resourceName = [] then r\<lparr>rr_err := Some (Plain ''resource name may not be empty'')\<rparr>
      else if rr_resourceName r \<noteq> []
      then r\<lparr>rr_err := Some (already_set ''resource name'' (rr_resourceName r) resourceName)\<rparr>
      else (case IsValidPathSegmentName resourceName of
              [] \<Rightarrow> r\<lparr>rr_resourceName := resourceName\<rparr>
            | msgs \<Rightarrow> r\<lparr>rr_err := Some (invalid_segment ''resource name'' resourceName msgs)\<rparr>))"

fun first_invalid :: "string list \<Rightarrow> gerr option" where
  "first_invalid [] = None"
| "first_invalid (s # ss) =
     (case IsValidPathSegmentName s of
        [] \<Rightarrow> first_invalid ss | msgs \<Rightarrow> Some (invalid_segment ''subresource'' s msgs))"

definition req_SubResource :: "string list \<Rightarrow> rest_request \<Rightarrow> rest_request" where
  "req_SubResource subresources r =
     (if rr_err r \<noteq> None then r
      else let subresource = path_Join subresources
      in if rr_subresource r \<noteq> []
      then r\<lparr>rr_err := Some (already_set ''subresource'' (rr_subresource r) subresource)\<rparr>
      else (case first_invalid subresources of
              Some err \<Rightarrow> r\<lparr>rr_err := Some err\<rparr>
            | None \<Rightarrow> r\<lparr>rr_subresource := subresource\<rparr>))"

text \<open>The encoded options are a list of names and values, each added once.\<close>

definition add_value :: "string \<times> string \<Rightarrow> (string \<rightharpoonup> string list) \<Rightarrow> string \<rightharpoonup> string list" where
  "add_value kv m =
     m(fst kv \<mapsto> (case m (fst kv) of None \<Rightarrow> [] | Some vs \<Rightarrow> vs) @ [snd kv])"

definition req_VersionedParams :: "(string \<times> string) list \<Rightarrow> rest_request \<Rightarrow> rest_request" where
  "req_VersionedParams params r =
     (if rr_err r \<noteq> None then r else r\<lparr>rr_params := fold add_value params (rr_params r)\<rparr>)"

definition req_Timeout :: "int64 \<Rightarrow> rest_request \<Rightarrow> rest_request" where
  "req_Timeout d r = (if rr_err r \<noteq> None then r else r\<lparr>rr_timeout := d\<rparr>)"

text \<open>A body is bytes, or a pointer to an object, which may be nil and then is ignored.\<close>

datatype 'o body_arg = BodyBytes string | BodyObject "'o option"

definition req_Body :: "'o rest_env \<Rightarrow> 'o body_arg \<Rightarrow> rest_request \<Rightarrow> rest_request" where
  "req_Body env obj r =
     (if rr_err r \<noteq> None then r
      else (case obj of
        BodyBytes data \<Rightarrow> r\<lparr>rr_body := Some data\<rparr>
      | BodyObject None \<Rightarrow> r
      | BodyObject (Some x) \<Rightarrow>
          (case re_Encode env (rr_contentType r) x of
             Inl err \<Rightarrow> r\<lparr>rr_err := Some err\<rparr>
           | Inr data \<Rightarrow>
               r\<lparr>rr_body := Some data,
                 rr_headers := (rr_headers r)(''Content-Type'' \<mapsto> rr_contentType r)\<rparr>)))"

definition request_path :: "rest_request \<Rightarrow> string" where
  "request_path r =
     (let p = rr_pathPrefix r;
          p = (if rr_resource r \<noteq> [] then path_Join [p, map lower_byte (rr_resource r)] else p)
      in if rr_resourceName r \<noteq> [] \<or> rr_subpath r \<noteq> [] \<or> rr_subresource r \<noteq> []
         then path_Join [p, rr_resourceName r, rr_subresource r, rr_subpath r] else p)"

text \<open>\<open>URL\<close> and \<open>newHTTPRequest\<close>: a timeout other than zero is a parameter too.\<close>

definition newHTTPRequest :: "'o rest_env \<Rightarrow> rest_request \<Rightarrow> http_request" where
  "newHTTPRequest env r =
     \<lparr>hr_method = rr_verb r, hr_scheme = url_Scheme (rc_base (rr_c r)), hr_host = url_Host (rc_base (rr_c r)),
      hr_path = request_path r,
      hr_query = (if rr_timeout r \<noteq> 0
                  then (rr_params r)(''timeout'' \<mapsto> [re_Duration_String env (rr_timeout r)])
                  else rr_params r),
      hr_headers = rr_headers r, hr_body = rr_body r\<rparr>"

subsection \<open>Sending it\<close>

definition err_result :: "gerr \<Rightarrow> rest_result" where
  "err_result err =
     \<lparr>res_err = Some err, res_body = [], res_contentType = [], res_statusCode = 0, res_decoder = False\<rparr>"

text \<open>\<open>Do\<close>: a construction error or a failed wait for the rate limiter ends it before anything is sent.\<close>

definition Do :: "'o rest_env \<Rightarrow> rest_request \<Rightarrow> (rest_state, rest_result) io" where
  "Do env r = (\<lambda>s.
     case rr_err r of
       Some err \<Rightarrow> (Inr (err_result err), s)
     | None \<Rightarrow>
         (case (case rc_rateLimiter (rr_c r) of None \<Rightarrow> None | Some l \<Rightarrow> re_Wait env (sent s) l) of
            Some err \<Rightarrow> (Inr (err_result err), s)
          | None \<Rightarrow>
              (let req = newHTTPRequest env r
               in (Inr (re_Do env (sent s) req), s\<lparr>sent := sent s @ [req]\<rparr>))))"

text \<open>\<open>Watch\<close> is not subject to the rate limiter.\<close>

definition req_Watch :: "'o rest_env \<Rightarrow> rest_request \<Rightarrow> (rest_state, nat) io" where
  "req_Watch env r = (\<lambda>s.
     case rr_err r of
       Some err \<Rightarrow> (Inl (Failed err), s)
     | None \<Rightarrow>
         (let req = newHTTPRequest env r
          in (case re_Watch env (sent s) req of Inl err \<Rightarrow> Inl (Failed err) | Inr w \<Rightarrow> Inr w,
              s\<lparr>sent := sent s @ [req]\<rparr>)))"

text \<open>\<open>Into\<close> fills an object that is zero before; the decoder returns what it left in it and its error.\<close>

definition Into :: "(string \<Rightarrow> 'a \<times> gerr option) \<Rightarrow> 'a \<Rightarrow> rest_result \<Rightarrow> 'a \<times> gerr option" where
  "Into decode zero r =
     (case res_err r of
        Some err \<Rightarrow> (zero, Some err)
      | None \<Rightarrow>
          if \<not> res_decoder r
          then (zero, Some (Plain (''serializer for '' @ res_contentType r @ '' doesn'' @ [CHR 0x27] @ ''t exist'')))
          else if res_body r = []
          then (zero, Some (Plain (''0-length response with status code: '' @ nat_dec (res_statusCode r) @
                 '' and content type: '' @ res_contentType r)))
          else decode (res_body r))"


subsection \<open>Facts on paths\<close>

text \<open>A segment that can be part of a path without changing what the path means.\<close>

definition plain_seg :: "string \<Rightarrow> bool" where
  "plain_seg s \<longleftrightarrow> s \<noteq> '''' \<and> s \<noteq> ''.'' \<and> s \<noteq> ''..'' \<and> CHR ''/'' \<notin> set s"

definition abs_path :: "string list \<Rightarrow> string" where
  "abs_path segs = CHR ''/'' # join_with ''/'' segs"

definition path_segs :: "string \<Rightarrow> string list" where
  "path_segs p = clean_segs True [] (split_on (CHR ''/'') p)"

lemma IsValidPathSegmentName_ok:
  "IsValidPathSegmentName s = [] \<longleftrightarrow> s \<noteq> ''.'' \<and> s \<noteq> ''..'' \<and> CHR ''/'' \<notin> set s \<and> CHR ''%'' \<notin> set s"
  by (simp add: IsValidPathSegmentName_def)

lemma split_on_join:
  "ss \<noteq> [] \<Longrightarrow> split_on c (join_with [c] ss) = concat (map (split_on c) ss)"
proof (induction ss rule: induct_list012)
  case (3 s t ss)
  have "split_on c (s @ c # u) = split_on c s @ split_on c u" for u
    by (induction s) (auto split: list.split)
  with 3 show ?case by simp
qed simp_all

lemma clean_segs_rooted:
  "clean_segs True out (ss @ ts) = clean_segs True (rev (clean_segs True out ss)) ts"
  by (induction "True" out ss rule: clean_segs.induct) simp_all

lemma clean_segs_no_dots:
  "''..'' \<notin> set ss \<Longrightarrow> clean_segs r out ss = rev out @ [s \<leftarrow> ss. s \<noteq> '''' \<and> s \<noteq> ''.'']"
  by (induction ss arbitrary: out) auto

lemma clean_segs_plain:
  "(\<forall>s \<in> set out. plain_seg s) \<Longrightarrow> (\<forall>s \<in> set ss. CHR ''/'' \<notin> set s) \<Longrightarrow>
     \<forall>s \<in> set (clean_segs True out ss). plain_seg s"
proof (induction ss arbitrary: out)
  case (Cons s ss)
  have t: "\<forall>x \<in> set (tl out). plain_seg x" using Cons.prems(1) by (cases out) simp_all
  have h: "out \<noteq> [] \<Longrightarrow> hd out \<noteq> ''..''" using Cons.prems(1) by (cases out) (simp_all add: plain_seg_def)
  have ss: "\<forall>s \<in> set ss. CHR ''/'' \<notin> set s" using Cons.prems(2) by simp
  consider "s = '''' \<or> s = ''.''" | "s = ''..''" | "plain_seg s"
    using Cons.prems(2) unfolding plain_seg_def by (metis list.set_intros(1))
  then show ?case
  proof cases
    case 3
    then have "clean_segs True out (s # ss) = clean_segs True (s # out) ss" by (simp add: plain_seg_def)
    moreover have "\<forall>x \<in> set (s # out). plain_seg x" using 3 Cons.prems(1) by simp
    ultimately show ?thesis using Cons.IH [OF _ ss] by metis
  qed (use Cons.IH [OF Cons.prems(1) ss] Cons.IH [OF t ss] h in auto)
qed simp

lemma path_segs_plain: "\<forall>s \<in> set (path_segs p). plain_seg s"
  unfolding path_segs_def by (rule clean_segs_plain) (auto dest: split_on_parts)

lemma split_plain: "plain_seg s \<Longrightarrow> split_on (CHR ''/'') s = [s]"
  by (rule split_on_no_sep) (simp add: plain_seg_def)

lemma split_abs_path:
  assumes "\<forall>s \<in> set ss. plain_seg s" "ss \<noteq> []"
  shows "split_on (CHR ''/'') (abs_path ss) = [] # ss"
proof -
  have "concat (map (split_on (CHR ''/'')) ss) = ss"
    using assms(1) by (induction ss) (auto simp: split_plain)
  then show ?thesis using split_on_join [OF assms(2), of "CHR ''/''"] by (simp add: abs_path_def)
qed

lemma path_segs_abs_path:
  assumes "\<forall>s \<in> set ss. plain_seg s"
  shows "path_segs (abs_path ss) = ss"
proof (cases "ss = []")
  case True
  then show ?thesis by (simp add: path_segs_def abs_path_def)
next
  case False
  have "''..'' \<notin> set ss" "[s \<leftarrow> ss. s \<noteq> '''' \<and> s \<noteq> ''.''] = ss"
    using assms by (auto simp: plain_seg_def intro: filter_True)
  then show ?thesis using split_abs_path [OF assms False]
    by (simp add: path_segs_def clean_segs_no_dots)
qed

text \<open>Joining onto an absolute path appends the cleaned segments.\<close>

lemma path_Join_abs:
  assumes "p \<noteq> []" "hd p = CHR ''/''"
  shows "path_Join (p # es) =
    abs_path (clean_segs True (rev (path_segs p)) (concat (map (split_on (CHR ''/'')) es)))"
proof -
  let ?j = "join_with ''/'' (p # es)"
  have "hd ?j = CHR ''/''" "?j \<noteq> []" using assms by (cases es; cases p; simp)+
  moreover have "split_on (CHR ''/'') ?j = split_on (CHR ''/'') p @ concat (map (split_on (CHR ''/'')) es)"
    using split_on_join [of "p # es" "CHR ''/''"] by simp
  ultimately show ?thesis using assms(1)
    by (auto simp: path_Join_def path_Clean_def abs_path_def path_segs_def Let_def clean_segs_rooted)
qed

lemma abs_path_rooted [simp]: "abs_path ss \<noteq> []" "hd (abs_path ss) = CHR ''/''"
  by (simp_all add: abs_path_def)

lemma path_Join_plain:
  assumes "\<forall>s \<in> set ss. plain_seg s" "\<forall>e \<in> set es. e = [] \<or> plain_seg e"
  shows "path_Join (abs_path ss # es) = abs_path (ss @ [e \<leftarrow> es. e \<noteq> []])"
proof -
  have "concat (map (split_on (CHR ''/'')) es) = es"
    using assms(2) by (induction es) (auto simp: split_plain)
  moreover have "''..'' \<notin> set es" "[e \<leftarrow> es. e \<noteq> '''' \<and> e \<noteq> ''.''] = [e \<leftarrow> es. e \<noteq> []]"
    using assms(2) by (auto simp: plain_seg_def intro: filter_cong)
  ultimately show ?thesis
    by (simp add: path_Join_abs path_segs_abs_path [OF assms(1)] clean_segs_no_dots)
qed


text \<open>The segments that every path of a client starts with.\<close>

definition base_segs :: "rest_client \<Rightarrow> string list" where
  "base_segs c = clean_segs True (rev (path_segs (url_Path (rc_base c)))) (split_on (CHR ''/'') (rc_versionedAPIPath c))"

lemma base_segs_plain: "\<forall>s \<in> set (base_segs c). plain_seg s"
  unfolding base_segs_def
  by (rule clean_segs_plain) (use path_segs_plain in \<open>auto dest: split_on_parts\<close>)

lemma NewRequest_prefix: "rr_pathPrefix (NewRequest c) = abs_path (base_segs c)"
proof -
  have "path_segs ''/'' = []" by (simp add: path_segs_def)
  then show ?thesis
    using path_Join_abs [of "''/''" "[url_Path (rc_base c), rc_versionedAPIPath c]"]
    by (simp add: NewRequest_def base_segs_def Let_def path_segs_def clean_segs_rooted)
qed

lemma valid_name_plain: "IsValidPathSegmentName s = [] \<Longrightarrow> s \<noteq> [] \<Longrightarrow> plain_seg s"
  by (simp add: IsValidPathSegmentName_ok plain_seg_def)

text \<open>How the chain of calls changes each part of a request.\<close>

named_theorems request_simps \<open>fields of a request after a call of the chain\<close>

lemma NewRequest_fields [request_simps]:
  "rr_c (NewRequest c) = c" "rr_subpath (NewRequest c) = []" "rr_params (NewRequest c) = Map.empty"
  "rr_resource (NewRequest c) = []" "rr_resourceName (NewRequest c) = []"
  "rr_subresource (NewRequest c) = []" "rr_err (NewRequest c) = None" "rr_body (NewRequest c) = None"
  "rr_timeout (NewRequest c) = client_timeout (rc_Client c)"
  by (simp_all add: NewRequest_def Let_def)

lemma Verb_fields [request_simps]:
  "rr_c (Verb v c) = c" "rr_subpath (Verb v c) = []" "rr_params (Verb v c) = Map.empty"
  "rr_resource (Verb v c) = []" "rr_resourceName (Verb v c) = []" "rr_verb (Verb v c) = v"
  "rr_subresource (Verb v c) = []" "rr_err (Verb v c) = None" "rr_body (Verb v c) = None"
  "rr_timeout (Verb v c) = client_timeout (rc_Client c)"
  "rr_pathPrefix (Verb v c) = abs_path (base_segs c)"
  by (simp_all add: Verb_def request_simps NewRequest_prefix)

lemma split_join_plain:
  "\<forall>s \<in> set ss. plain_seg s \<Longrightarrow>
     split_on (CHR ''/'') (join_with ''/'' ss) = (if ss = [] then [[]] else ss)"
proof -
  assume a: "\<forall>s \<in> set ss. plain_seg s"
  then have "concat (map (split_on (CHR ''/'')) ss) = ss" by (induction ss) (auto simp: split_plain)
  then show ?thesis using split_on_join [of ss "CHR ''/''"] by simp
qed

lemma request_path_eq:
  assumes "rr_pathPrefix r = abs_path segs" "\<forall>s \<in> set segs. plain_seg s"
    and "plain_seg (map lower_byte (rr_resource r))" "rr_resource r \<noteq> []"
    and "rr_resourceName r = [] \<or> plain_seg (rr_resourceName r)"
    and "rr_subresource r = join_with ''/'' subs" "\<forall>s \<in> set subs. plain_seg s" "rr_subpath r = []"
  shows "request_path r = abs_path (segs @ [map lower_byte (rr_resource r)] @
    (if rr_resourceName r = [] then [] else [rr_resourceName r]) @ subs)"
proof -
  have p: "path_Join [rr_pathPrefix r, map lower_byte (rr_resource r)] =
      abs_path (segs @ [map lower_byte (rr_resource r)])"
    using path_Join_plain [OF assms(2), of "[map lower_byte (rr_resource r)]"] assms(1,3)
    by (auto simp: plain_seg_def)
  have "\<forall>s \<in> set (segs @ [map lower_byte (rr_resource r)]). plain_seg s" using assms(2,3) by auto
  note base = path_segs_abs_path [OF this]
  have s: "concat (map (split_on (CHR ''/'')) [rr_resourceName r, rr_subresource r, []]) =
      rr_resourceName r # (if subs = [] then [[]] else subs) @ [[]]"
    using assms(5,6) split_join_plain [OF assms(7)] by (auto simp: split_plain)
  have n: "''..'' \<notin> set (rr_resourceName r # (if subs = [] then [[]] else subs) @ [[]])"
    "[s \<leftarrow> rr_resourceName r # (if subs = [] then [[]] else subs) @ [[]]. s \<noteq> '''' \<and> s \<noteq> ''.''] =
       (if rr_resourceName r = [] then [] else [rr_resourceName r]) @ subs"
    using assms(5,7) by (auto simp: plain_seg_def intro: filter_True)
  show ?thesis
  proof (cases "rr_resourceName r = [] \<and> subs = []")
    case True
    then show ?thesis using assms(4,6,8) p by (simp add: request_path_def)
  next
    case False
    then have "rr_resourceName r \<noteq> [] \<or> rr_subresource r \<noteq> []"
      using assms(6,7) by (cases "([CHR ''/''], subs)" rule: join_with.cases) (auto simp: plain_seg_def)
    then have "request_path r = path_Join [abs_path (segs @ [map lower_byte (rr_resource r)]),
        rr_resourceName r, rr_subresource r, []]"
      using assms(4,8) p by (simp add: request_path_def)
    also have "\<dots> = abs_path (clean_segs True (rev (segs @ [map lower_byte (rr_resource r)]))
        (rr_resourceName r # (if subs = [] then [[]] else subs) @ [[]]))"
      unfolding path_Join_abs [OF abs_path_rooted] s base by (rule refl)
    also have "\<dots> = abs_path (segs @ [map lower_byte (rr_resource r)] @
        (if rr_resourceName r = [] then [] else [rr_resourceName r]) @ subs)"
      unfolding clean_segs_no_dots [OF n(1)] n(2) by simp
    finally show ?thesis .
  qed
qed

lemma path_Join_relative:
  assumes "\<forall>e \<in> set es. e = [] \<or> plain_seg e"
  shows "path_Join es = join_with ''/'' [e \<leftarrow> es. e \<noteq> []]"
proof (cases "\<forall>e \<in> set es. e = []")
  case True
  then have "[e \<leftarrow> es. e \<noteq> []] = []" by (simp add: filter_empty_conv)
  with True show ?thesis by (simp add: path_Join_def del: filter_empty_conv)
next
  case False
  obtain f fs where d: "dropWhile (\<lambda>e. e = []) es = f # fs" "f \<noteq> []"
    using False by (cases "dropWhile (\<lambda>e. e = []) es") (auto simp: dropWhile_eq_Cons_conv dropWhile_eq_Nil_conv)
  have es: "es = takeWhile (\<lambda>e. e = []) es @ f # fs" using d(1) by (metis takeWhile_dropWhile_id)
  then have e: "\<forall>e \<in> set (f # fs). e = [] \<or> plain_seg e" using assms by (metis Un_iff set_append)
  have "[e \<leftarrow> takeWhile (\<lambda>e. e = []) es. e \<noteq> []] = []"
    by (auto simp: filter_empty_conv dest: set_takeWhileD)
  then have k: "[e \<leftarrow> es. e \<noteq> []] = [e \<leftarrow> f # fs. e \<noteq> []]" by (subst es) simp
  have "concat (map (split_on (CHR ''/'')) xs) = xs" if "\<forall>e \<in> set xs. e = [] \<or> plain_seg e" for xs
    using that by (induction xs) (auto simp: split_plain)
  then have c: "split_on (CHR ''/'') (join_with ''/'' (f # fs)) = f # fs"
    using split_on_join [of "f # fs" "CHR ''/''"] e by (auto simp: split_plain)
  have "plain_seg f" using d(2) e by simp
  then obtain x xs where f: "f = x # xs" "x \<noteq> CHR ''/''" by (cases f) (auto simp: plain_seg_def)
  have j: "join_with ''/'' (f # fs) \<noteq> []" "hd (join_with ''/'' (f # fs)) \<noteq> CHR ''/''"
    using f by (cases fs; simp)+
  have "clean_segs False [] (f # fs) = [e \<leftarrow> f # fs. e \<noteq> []]"
    using e by (subst clean_segs_no_dots) (auto simp: plain_seg_def intro!: filter_cong)
  moreover have "join_with ''/'' [e \<leftarrow> f # fs. e \<noteq> []] \<noteq> []"
    using d(2) by (cases "[e \<leftarrow> fs. e \<noteq> []]") simp_all
  ultimately show ?thesis
    using False c j d(1) k by (simp add: path_Join_def path_Clean_def Let_def del: join_with.simps filter.simps)
qed

end
