(* ===== verification/Clientset.thy ===== *)
theory Clientset
  imports RestClient
begin

text \<open>
  The generated clientset of \<open>client/clientset/versioned\<close>: its construction from a configuration, and
  the typed client of \<open>SnapshotMetadataService\<close> whose operations each build one request.
\<close>

subsection \<open>Options as query parameters\<close>

record get_options =
  go_ResourceVersion :: string

record list_options =
  lo_LabelSelector :: string
  lo_FieldSelector :: string
  lo_Watch :: bool
  lo_AllowWatchBookmarks :: bool
  lo_ResourceVersion :: string
  lo_ResourceVersionMatch :: string
  lo_TimeoutSeconds :: "int64 option"
  lo_Limit :: int64
  lo_Continue :: string
  lo_SendInitialEvents :: "bool option"

record write_options =
  wo_DryRun :: "string list"
  wo_FieldManager :: string
  wo_FieldValidation :: string

record patch_options = write_options +
  po_Force :: "bool option"

record delete_options =
  do_GracePeriodSeconds :: "int64 option"
  do_Preconditions :: "(string option \<times> string option) option"
  do_OrphanDependents :: "bool option"
  do_PropagationPolicy :: "string option"
  do_DryRun :: "string list"
  do_IgnoreStoreReadError :: "bool option"

text \<open>
  \<open>queryparams.Convert\<close>: a field with \<open>omitempty\<close> is left out when it is zero, a pointer only when
  it is nil; every element of a list is a value of its own.
\<close>

definition str_param :: "string \<Rightarrow> string \<Rightarrow> (string \<times> string) list" where
  "str_param tag v = (if v = '''' then [] else [(tag, v)])"

definition bool_text :: "bool \<Rightarrow> string" where
  "bool_text b = (if b then ''true'' else ''false'')"

definition bool_param :: "string \<Rightarrow> bool \<Rightarrow> (string \<times> string) list" where
  "bool_param tag b = (if b then [(tag, bool_text b)] else [])"

definition ptr_param :: "string \<Rightarrow> ('a \<Rightarrow> string) \<Rightarrow> 'a option \<Rightarrow> (string \<times> string) list" where
  "ptr_param tag f v = (case v of None \<Rightarrow> [] | Some x \<Rightarrow> [(tag, f x)])"

definition int64_text :: "int64 \<Rightarrow> string" where
  "int64_text n = int_dec (sint n)"

definition list_param :: "string \<Rightarrow> string list \<Rightarrow> (string \<times> string) list" where
  "list_param tag vs = concat (map (str_param tag) vs)"

definition GetOptions_params :: "get_options \<Rightarrow> (string \<times> string) list" where
  "GetOptions_params o1 = str_param ''resourceVersion'' (go_ResourceVersion o1)"

definition ListOptions_params :: "list_options \<Rightarrow> (string \<times> string) list" where
  "ListOptions_params o1 =
     str_param ''labelSelector'' (lo_LabelSelector o1) @ str_param ''fieldSelector'' (lo_FieldSelector o1) @
     bool_param ''watch'' (lo_Watch o1) @ bool_param ''allowWatchBookmarks'' (lo_AllowWatchBookmarks o1) @
     str_param ''resourceVersion'' (lo_ResourceVersion o1) @
     str_param ''resourceVersionMatch'' (lo_ResourceVersionMatch o1) @
     ptr_param ''timeoutSeconds'' int64_text (lo_TimeoutSeconds o1) @
     (if lo_Limit o1 = 0 then [] else [(''limit'', int64_text (lo_Limit o1))]) @
     str_param ''continue'' (lo_Continue o1) @ ptr_param ''sendInitialEvents'' bool_text (lo_SendInitialEvents o1)"

definition WriteOptions_params :: "'a write_options_scheme \<Rightarrow> (string \<times> string) list" where
  "WriteOptions_params o1 =
     list_param ''dryRun'' (wo_DryRun o1) @ str_param ''fieldManager'' (wo_FieldManager o1) @
     str_param ''fieldValidation'' (wo_FieldValidation o1)"

definition PatchOptions_params :: "patch_options \<Rightarrow> (string \<times> string) list" where
  "PatchOptions_params o1 = WriteOptions_params o1 @ ptr_param ''force'' bool_text (po_Force o1)"

subsection \<open>The typed client\<close>

datatype sms_body = SmsBody sms_cr | DeleteOptionsBody delete_options

record sms_list =
  sl_ResourceVersion :: string
  sl_Continue :: string
  sl_Items :: "sms_cr list"

definition zero_sms :: sms_cr where
  "zero_sms = \<lparr>sms_name = [], sms_spec = \<lparr>sms_audience = [], sms_address = [], sms_caCert = [],
     sms_requireBaseSnapshotForDelta = None\<rparr>\<rparr>"

definition zero_sms_list :: sms_list where
  "zero_sms_list = \<lparr>sl_ResourceVersion = [], sl_Continue = [], sl_Items = []\<rparr>"

text \<open>The decoders of the two types: what they leave in the zero object, and their error.\<close>

record sms_rest_env = "sms_body rest_env" +
  decode_sms :: "string \<Rightarrow> sms_cr \<times> gerr option"
  decode_sms_list :: "string \<Rightarrow> sms_list \<times> gerr option"

definition rest_of :: "sms_rest_env \<Rightarrow> sms_body rest_env" where
  "rest_of env = rest_env.truncate env"

text \<open>\<open>time.Duration(*opts.TimeoutSeconds) * time.Second\<close> wraps.\<close>

definition timeout_of :: "int64 option \<Rightarrow> int64" where
  "timeout_of t = (case t of None \<Rightarrow> 0 | Some n \<Rightarrow> n * 1000000000)"

definition sms_resource :: string where "sms_resource = ''snapshotmetadataservices''"

text \<open>The client is an interface that may be nil; a call of a method of it then panics.\<close>

definition snapshotMetadataServices_Get ::
  "sms_rest_env \<Rightarrow> rest_client option \<Rightarrow> string \<Rightarrow> get_options \<Rightarrow> (rest_state, sms_cr \<times> gerr option) io" where
  "snapshotMetadataServices_Get env client name options =
     io_bind (deref client) (\<lambda>c.
     io_bind (Do (rest_of env)
       (req_VersionedParams (GetOptions_params options)
       (req_Name name
       (req_Resource sms_resource
       (Verb ''GET'' c))))) (\<lambda>r.
     io_ret (Into (decode_sms env) zero_sms r)))"

definition snapshotMetadataServices_List ::
  "sms_rest_env \<Rightarrow> rest_client option \<Rightarrow> list_options \<Rightarrow> (rest_state, sms_list \<times> gerr option) io" where
  "snapshotMetadataServices_List env client opts =
     (let timeout = timeout_of (lo_TimeoutSeconds opts)
      in io_bind (deref client) (\<lambda>c.
         io_bind (Do (rest_of env)
           (req_Timeout timeout
           (req_VersionedParams (ListOptions_params opts)
           (req_Resource sms_resource
           (Verb ''GET'' c))))) (\<lambda>r.
         io_ret (Into (decode_sms_list env) zero_sms_list r))))"

definition snapshotMetadataServices_Watch ::
  "sms_rest_env \<Rightarrow> rest_client option \<Rightarrow> list_options \<Rightarrow> (rest_state, nat) io" where
  "snapshotMetadataServices_Watch env client opts =
     (let timeout = timeout_of (lo_TimeoutSeconds opts);
          opts = opts\<lparr>lo_Watch := True\<rparr>
      in io_bind (deref client) (\<lambda>c.
         req_Watch (rest_of env)
           (req_Timeout timeout
           (req_VersionedParams (ListOptions_params opts)
           (req_Resource sms_resource
           (Verb ''GET'' c))))))"

definition snapshotMetadataServices_Create ::
  "sms_rest_env \<Rightarrow> rest_client option \<Rightarrow> sms_cr option \<Rightarrow> write_options \<Rightarrow> (rest_state, sms_cr \<times> gerr option) io" where
  "snapshotMetadataServices_Create env client snapshotMetadataService opts =
     io_bind (deref client) (\<lambda>c.
     io_bind (Do (rest_of env)
       (req_Body (rest_of env) (BodyObject (map_option SmsBody snapshotMetadataService))
       (req_VersionedParams (WriteOptions_params opts)
       (req_Resource sms_resource
       (Verb ''POST'' c))))) (\<lambda>r.
     io_ret (Into (decode_sms env) zero_sms r)))"

definition snapshotMetadataServices_Update ::
  "sms_rest_env \<Rightarrow> rest_client option \<Rightarrow> sms_cr option \<Rightarrow> write_options \<Rightarrow> (rest_state, sms_cr \<times> gerr option) io" where
  "snapshotMetadataServices_Update env client snapshotMetadataService opts =
     io_bind (deref client) (\<lambda>c.
     io_bind (deref snapshotMetadataService) (\<lambda>obj.
     io_bind (Do (rest_of env)
       (req_Body (rest_of env) (BodyObject (Some (SmsBody obj)))
       (req_VersionedParams (WriteOptions_params opts)
       (req_Name (sms_name obj)
       (req_Resource sms_resource
       (Verb ''PUT'' c)))))) (\<lambda>r.
     io_ret (Into (decode_sms env) zero_sms r))))"

definition snapshotMetadataServices_Delete ::
  "sms_rest_env \<Rightarrow> rest_client option \<Rightarrow> string \<Rightarrow> delete_options \<Rightarrow> (rest_state, gerr option) io" where
  "snapshotMetadataServices_Delete env client name opts =
     io_bind (deref client) (\<lambda>c.
     io_bind (Do (rest_of env)
       (req_Body (rest_of env) (BodyObject (Some (DeleteOptionsBody opts)))
       (req_Name name
       (req_Resource sms_resource
       (Verb ''DELETE'' c))))) (\<lambda>r.
     io_ret (res_err r)))"

definition snapshotMetadataServices_DeleteCollection ::
  "sms_rest_env \<Rightarrow> rest_client option \<Rightarrow> delete_options \<Rightarrow> list_options \<Rightarrow> (rest_state, gerr option) io" where
  "snapshotMetadataServices_DeleteCollection env client opts listOpts =
     (let timeout = timeout_of (lo_TimeoutSeconds listOpts)
      in io_bind (deref client) (\<lambda>c.
         io_bind (Do (rest_of env)
           (req_Body (rest_of env) (BodyObject (Some (DeleteOptionsBody opts)))
           (req_Timeout timeout
           (req_VersionedParams (ListOptions_params listOpts)
           (req_Resource sms_resource
           (Verb ''DELETE'' c)))))) (\<lambda>r.
         io_ret (res_err r))))"

definition snapshotMetadataServices_Patch ::
  "sms_rest_env \<Rightarrow> rest_client option \<Rightarrow> string \<Rightarrow> string \<Rightarrow> string \<Rightarrow> patch_options \<Rightarrow> string list \<Rightarrow>
     (rest_state, sms_cr \<times> gerr option) io" where
  "snapshotMetadataServices_Patch env client name pt data opts subresources =
     io_bind (deref client) (\<lambda>c.
     io_bind (Do (rest_of env)
       (req_Body (rest_of env) (BodyBytes data)
       (req_VersionedParams (PatchOptions_params opts)
       (req_SubResource subresources
       (req_Name name
       (req_Resource sms_resource
       (verb_Patch pt c))))))) (\<lambda>r.
     io_ret (Into (decode_sms env) zero_sms r)))"

subsection \<open>The client of the group\<close>

text \<open>\<open>CbtV1beta1Client\<close>; methods are called on a pointer to it, which \<open>RESTClient\<close> lets be nil.\<close>

record cbt_client =
  restClient :: "rest_client option"

definition SchemeGroupVersion :: "string \<times> string" where
  "SchemeGroupVersion = (GroupName, ''v1beta1'')"

definition setConfigDefaults :: "'o rest_env \<Rightarrow> client_config \<Rightarrow> gerr + client_config" where
  "setConfigDefaults env config =
     (let gv = SchemeGroupVersion;
          config = config\<lparr>cc_GroupVersion := Some gv, cc_APIPath := ''/apis'',
                          cc_NegotiatedSerializer := Some ''scheme.Codecs''\<rparr>;
          config = (if cc_UserAgent config = [] then config\<lparr>cc_UserAgent := re_DefaultUserAgent env\<rparr> else config)
      in Inr config)"

definition cbt_NewForConfigAndClient ::
  "'o rest_env \<Rightarrow> client_config \<Rightarrow> http_client option \<Rightarrow> (rest_state, cbt_client) io" where
  "cbt_NewForConfigAndClient env c h =
     io_bind (lift_sum (setConfigDefaults env c)) (\<lambda>config.
     io_bind (RESTClientForConfigAndClient env config h) (\<lambda>client.
     io_ret \<lparr>restClient = Some client\<rparr>))"

definition cbt_NewForConfig :: "'o rest_env \<Rightarrow> client_config \<Rightarrow> (rest_state, cbt_client) io" where
  "cbt_NewForConfig env c =
     io_bind (lift_sum (setConfigDefaults env c)) (\<lambda>config.
     io_bind (HTTPClientFor env config) (\<lambda>httpClient.
     cbt_NewForConfigAndClient env config (Some httpClient)))"

definition or_die :: "('s, 'a) io \<Rightarrow> ('s, 'a) io" where
  "or_die m = io_catch m (\<lambda>err. io_panic (error_text err))"

definition cbt_NewForConfigOrDie :: "'o rest_env \<Rightarrow> client_config \<Rightarrow> (rest_state, cbt_client) io" where
  "cbt_NewForConfigOrDie env c = or_die (cbt_NewForConfig env c)"

definition cbt_New :: "rest_client option \<Rightarrow> cbt_client" where
  "cbt_New c = \<lparr>restClient = c\<rparr>"

definition RESTClient :: "cbt_client option \<Rightarrow> rest_client option" where
  "RESTClient c = (case c of None \<Rightarrow> None | Some c \<Rightarrow> restClient c)"

definition newSnapshotMetadataServices :: "cbt_client option \<Rightarrow> rest_client option" where
  "newSnapshotMetadataServices c = RESTClient c"

definition SnapshotMetadataServices :: "cbt_client option \<Rightarrow> rest_client option" where
  "SnapshotMetadataServices c = newSnapshotMetadataServices c"

subsection \<open>The clientset\<close>

record clientset =
  DiscoveryClient :: "rest_client option"
  cbtV1beta1 :: "cbt_client option"

definition CbtV1beta1 :: "clientset option \<Rightarrow> ('s, cbt_client option) io" where
  "CbtV1beta1 c = io_bind (deref c) (\<lambda>c. io_ret (cbtV1beta1 c))"

definition Discovery :: "clientset option \<Rightarrow> rest_client option" where
  "Discovery c = (case c of None \<Rightarrow> None | Some c \<Rightarrow> DiscoveryClient c)"

definition versioned_NewForConfigAndClient ::
  "'o rest_env \<Rightarrow> client_config \<Rightarrow> http_client option \<Rightarrow> (rest_state, clientset) io" where
  "versioned_NewForConfigAndClient env c httpClient =
     io_bind
       (if cc_RateLimiter c = None \<and> float32_positive (cc_QPS c) then
          (if cc_Burst c \<le>s 0
           then io_fail (Plain ''burst is required to be greater than 0 when RateLimiter is not set and QPS is set to greater than 0'')
           else io_bind (NewTokenBucketRateLimiter (cc_QPS c) (cc_Burst c)) (\<lambda>l.
                io_ret (c\<lparr>cc_RateLimiter := Some l\<rparr>)))
        else io_ret c) (\<lambda>configShallowCopy.
     io_bind (cbt_NewForConfigAndClient env configShallowCopy httpClient) (\<lambda>cbt.
     io_bind (NewDiscoveryClientForConfigAndClient env configShallowCopy httpClient) (\<lambda>discovery.
     io_ret \<lparr>DiscoveryClient = Some discovery, cbtV1beta1 = Some cbt\<rparr>)))"

definition versioned_NewForConfig :: "'o rest_env \<Rightarrow> client_config \<Rightarrow> (rest_state, clientset) io" where
  "versioned_NewForConfig env c =
     (let configShallowCopy =
        (if cc_UserAgent c = [] then c\<lparr>cc_UserAgent := re_DefaultUserAgent env\<rparr> else c)
      in io_bind (HTTPClientFor env configShallowCopy) (\<lambda>httpClient.
         versioned_NewForConfigAndClient env configShallowCopy (Some httpClient)))"

definition versioned_NewForConfigOrDie :: "'o rest_env \<Rightarrow> client_config \<Rightarrow> (rest_state, clientset) io" where
  "versioned_NewForConfigOrDie env c = or_die (versioned_NewForConfig env c)"

definition versioned_New :: "rest_client option \<Rightarrow> clientset" where
  "versioned_New c = \<lparr>DiscoveryClient = c, cbtV1beta1 = Some (cbt_New c)\<rparr>"


subsection \<open>What the calls of the chain leave alone\<close>

lemmas chain_defs = req_Resource_def req_Name_def req_SubResource_def req_VersionedParams_def
  req_Timeout_def req_Body_def

lemma verb_Patch_fields [request_simps]:
  "rr_c (verb_Patch p c) = c" "rr_subpath (verb_Patch p c) = []" "rr_params (verb_Patch p c) = Map.empty"
  "rr_resource (verb_Patch p c) = []" "rr_resourceName (verb_Patch p c) = []" "rr_verb (verb_Patch p c) = ''PATCH''"
  "rr_subresource (verb_Patch p c) = []" "rr_err (verb_Patch p c) = None"
  "rr_pathPrefix (verb_Patch p c) = abs_path (base_segs c)"
  by (simp_all add: verb_Patch_def Let_def request_simps)

lemma chain_c [request_simps]:
  "rr_c (req_Resource x r) = rr_c r" "rr_c (req_Name x r) = rr_c r" "rr_c (req_SubResource xs r) = rr_c r"
  "rr_c (req_VersionedParams ps r) = rr_c r" "rr_c (req_Timeout d r) = rr_c r" "rr_c (req_Body env b r) = rr_c r"
  by (simp_all add: chain_defs Let_def split: list.split option.split sum.split body_arg.split)

lemma chain_verb [request_simps]:
  "rr_verb (req_Resource x r) = rr_verb r" "rr_verb (req_Name x r) = rr_verb r"
  "rr_verb (req_SubResource xs r) = rr_verb r" "rr_verb (req_VersionedParams ps r) = rr_verb r"
  "rr_verb (req_Timeout d r) = rr_verb r" "rr_verb (req_Body env b r) = rr_verb r"
  by (simp_all add: chain_defs Let_def split: list.split option.split sum.split body_arg.split)

lemma chain_prefix [request_simps]:
  "rr_pathPrefix (req_Resource x r) = rr_pathPrefix r" "rr_pathPrefix (req_Name x r) = rr_pathPrefix r"
  "rr_pathPrefix (req_SubResource xs r) = rr_pathPrefix r"
  "rr_pathPrefix (req_VersionedParams ps r) = rr_pathPrefix r"
  "rr_pathPrefix (req_Timeout d r) = rr_pathPrefix r" "rr_pathPrefix (req_Body env b r) = rr_pathPrefix r"
  by (simp_all add: chain_defs Let_def split: list.split option.split sum.split body_arg.split)

lemma chain_subpath [request_simps]:
  "rr_subpath (req_Resource x r) = rr_subpath r" "rr_subpath (req_Name x r) = rr_subpath r"
  "rr_subpath (req_SubResource xs r) = rr_subpath r" "rr_subpath (req_VersionedParams ps r) = rr_subpath r"
  "rr_subpath (req_Timeout d r) = rr_subpath r" "rr_subpath (req_Body env b r) = rr_subpath r"
  by (simp_all add: chain_defs Let_def split: list.split option.split sum.split body_arg.split)

lemma chain_resource [request_simps]:
  "rr_resource (req_Name x r) = rr_resource r" "rr_resource (req_SubResource xs r) = rr_resource r"
  "rr_resource (req_VersionedParams ps r) = rr_resource r" "rr_resource (req_Timeout d r) = rr_resource r"
  "rr_resource (req_Body env b r) = rr_resource r"
  by (simp_all add: chain_defs Let_def split: list.split option.split sum.split body_arg.split)

lemma chain_name [request_simps]:
  "rr_resourceName (req_Resource x r) = rr_resourceName r"
  "rr_resourceName (req_SubResource xs r) = rr_resourceName r"
  "rr_resourceName (req_VersionedParams ps r) = rr_resourceName r"
  "rr_resourceName (req_Timeout d r) = rr_resourceName r" "rr_resourceName (req_Body env b r) = rr_resourceName r"
  by (simp_all add: chain_defs Let_def split: list.split option.split sum.split body_arg.split)

lemma chain_sub [request_simps]:
  "rr_subresource (req_Resource x r) = rr_subresource r" "rr_subresource (req_Name x r) = rr_subresource r"
  "rr_subresource (req_VersionedParams ps r) = rr_subresource r"
  "rr_subresource (req_Timeout d r) = rr_subresource r" "rr_subresource (req_Body env b r) = rr_subresource r"
  by (simp_all add: chain_defs Let_def split: list.split option.split sum.split body_arg.split)

text \<open>A request without an error has passed every check on the way.\<close>

lemma no_err [request_simps]:
  "rr_err (req_VersionedParams ps r) = rr_err r" "rr_err (req_Timeout d r) = rr_err r"
  "rr_err (req_Resource x r) = None \<longleftrightarrow> rr_err r = None \<and> rr_resource r = [] \<and> IsValidPathSegmentName x = []"
  "rr_err (req_Name x r) = None \<longleftrightarrow>
     rr_err r = None \<and> x \<noteq> [] \<and> rr_resourceName r = [] \<and> IsValidPathSegmentName x = []"
  "rr_err (req_SubResource xs r) = None \<longleftrightarrow>
     rr_err r = None \<and> rr_subresource r = [] \<and> first_invalid xs = None"
  by (auto simp: chain_defs Let_def split: list.split option.split)

lemma no_err_body: "rr_err (req_Body env b r) = None \<Longrightarrow> rr_err r = None"
  by (cases "rr_err r") (simp_all add: chain_defs)

lemma set_parts:
  "rr_err (req_Resource x r) = None \<Longrightarrow> rr_resource (req_Resource x r) = x"
  "rr_err (req_Name x r) = None \<Longrightarrow> rr_resourceName (req_Name x r) = x"
  "rr_err (req_SubResource xs r) = None \<Longrightarrow> rr_subresource (req_SubResource xs r) = path_Join xs"
  by (auto simp: chain_defs Let_def split: list.splits option.splits if_splits)

lemma sms_resource_simps [request_simps]:
  "IsValidPathSegmentName sms_resource = []" "map lower_byte sms_resource = sms_resource"
  "sms_resource \<noteq> []" "plain_seg sms_resource"
  by (code_simp)+

lemma resource_set [request_simps]:
  "rr_resource (req_Resource sms_resource (Verb v c)) = sms_resource"
  "rr_resource (req_Resource sms_resource (verb_Patch v c)) = sms_resource"
  "rr_err (req_Resource sms_resource (Verb v c)) = None"
  "rr_err (req_Resource sms_resource (verb_Patch v c)) = None"
  by (simp_all add: set_parts request_simps)

lemma first_invalid_None:
  "first_invalid xs = None \<longleftrightarrow> (\<forall>x \<in> set xs. IsValidPathSegmentName x = [])"
  by (induction xs) (auto split: list.splits)

lemma valid_subs_plain:
  assumes "first_invalid xs = None"
  shows "path_Join xs = join_with ''/'' [x \<leftarrow> xs. x \<noteq> []]" "\<forall>s \<in> set [x \<leftarrow> xs. x \<noteq> []]. plain_seg s"
proof -
  have a: "\<forall>x \<in> set xs. x = [] \<or> plain_seg x"
    using assms by (auto simp: first_invalid_None intro: valid_name_plain)
  show "path_Join xs = join_with ''/'' [x \<leftarrow> xs. x \<noteq> []]" by (rule path_Join_relative [OF a])
  show "\<forall>s \<in> set [x \<leftarrow> xs. x \<noteq> []]. plain_seg s" using a by auto
qed


subsection \<open>Where requests go\<close>

text \<open>The operations of the typed client, the state each leaves, and the request each makes.\<close>

datatype sms_op =
    OpGet string get_options
  | OpList list_options
  | OpWatch list_options
  | OpCreate "sms_cr option" write_options
  | OpUpdate sms_cr write_options
  | OpDelete string delete_options
  | OpDeleteCollection delete_options list_options
  | OpPatch string string string patch_options "string list"

fun sms_op_run :: "sms_rest_env \<Rightarrow> rest_client \<Rightarrow> sms_op \<Rightarrow> rest_state \<Rightarrow> rest_state" where
  "sms_op_run env c (OpGet n o1) s = snd (snapshotMetadataServices_Get env (Some c) n o1 s)"
| "sms_op_run env c (OpList o1) s = snd (snapshotMetadataServices_List env (Some c) o1 s)"
| "sms_op_run env c (OpWatch o1) s = snd (snapshotMetadataServices_Watch env (Some c) o1 s)"
| "sms_op_run env c (OpCreate x o1) s = snd (snapshotMetadataServices_Create env (Some c) x o1 s)"
| "sms_op_run env c (OpUpdate x o1) s = snd (snapshotMetadataServices_Update env (Some c) (Some x) o1 s)"
| "sms_op_run env c (OpDelete n o1) s = snd (snapshotMetadataServices_Delete env (Some c) n o1 s)"
| "sms_op_run env c (OpDeleteCollection o1 o2) s =
     snd (snapshotMetadataServices_DeleteCollection env (Some c) o1 o2 s)"
| "sms_op_run env c (OpPatch n pt data o1 subs) s =
     snd (snapshotMetadataServices_Patch env (Some c) n pt data o1 subs s)"

fun op_method :: "sms_op \<Rightarrow> string" where
  "op_method (OpGet n o1) = ''GET''"
| "op_method (OpList o1) = ''GET''"
| "op_method (OpWatch o1) = ''GET''"
| "op_method (OpCreate x o1) = ''POST''"
| "op_method (OpUpdate x o1) = ''PUT''"
| "op_method (OpDelete n o1) = ''DELETE''"
| "op_method (OpDeleteCollection o1 o2) = ''DELETE''"
| "op_method (OpPatch n pt data o1 subs) = ''PATCH''"

fun op_target :: "sms_op \<Rightarrow> string list" where
  "op_target (OpGet n o1) = [n]"
| "op_target (OpUpdate x o1) = [sms_name x]"
| "op_target (OpDelete n o1) = [n]"
| "op_target (OpPatch n pt data o1 subs) = n # [s \<leftarrow> subs. s \<noteq> []]"
| "op_target op = []"

definition request_to :: "rest_client \<Rightarrow> string list \<Rightarrow> http_request \<Rightarrow> bool" where
  "request_to c target req \<longleftrightarrow>
     hr_scheme req = url_Scheme (rc_base c) \<and> hr_host req = url_Host (rc_base c) \<and>
     split_on (CHR ''/'') (hr_path req) = [] # base_segs c @ sms_resource # target"

lemma request_to_newHTTPRequest:
  assumes "rr_c r = c" "rr_pathPrefix r = abs_path (base_segs c)" "rr_resource r = sms_resource"
    and "rr_resourceName r = [] \<or> plain_seg (rr_resourceName r)"
    and "rr_subresource r = join_with ''/'' subs" "\<forall>s \<in> set subs. plain_seg s" "rr_subpath r = []"
  shows "request_to c ((if rr_resourceName r = [] then [] else [rr_resourceName r]) @ subs) (newHTTPRequest env r)"
proof -
  let ?ss = "base_segs c @ [sms_resource] @ (if rr_resourceName r = [] then [] else [rr_resourceName r]) @ subs"
  have "request_path r = abs_path ?ss"
    using request_path_eq [OF assms(2) base_segs_plain _ _ assms(4-7)]
    by (simp add: assms(3) request_simps)
  moreover have "split_on (CHR ''/'') (abs_path ?ss) = [] # ?ss"
    by (rule split_abs_path) (use base_segs_plain assms(4,6) in \<open>auto simp: request_simps\<close>)
  ultimately show ?thesis by (simp add: request_to_def newHTTPRequest_def assms(1))
qed

lemma Do_state:
  "snd (Do env r s) = s \<or>
     (rr_err r = None \<and> snd (Do env r s) = s\<lparr>sent := sent s @ [newHTTPRequest env r]\<rparr>)"
  by (simp add: Do_def Let_def split: option.split)

lemma Watch_state:
  "snd (req_Watch env r s) = s \<or>
     (rr_err r = None \<and> snd (req_Watch env r s) = s\<lparr>sent := sent s @ [newHTTPRequest env r]\<rparr>)"
  by (simp add: req_Watch_def Let_def split: option.split)

lemma newHTTPRequest_method [simp]: "hr_method (newHTTPRequest env r) = rr_verb r"
  by (simp add: newHTTPRequest_def)

text \<open>The request an operation builds, from which its state is read off.\<close>

fun op_request :: "sms_rest_env \<Rightarrow> rest_client \<Rightarrow> sms_op \<Rightarrow> rest_request" where
  "op_request env c (OpGet n o1) =
     req_VersionedParams (GetOptions_params o1) (req_Name n (req_Resource sms_resource (Verb ''GET'' c)))"
| "op_request env c (OpList o1) =
     req_Timeout (timeout_of (lo_TimeoutSeconds o1)) (req_VersionedParams (ListOptions_params o1)
       (req_Resource sms_resource (Verb ''GET'' c)))"
| "op_request env c (OpWatch o1) =
     req_Timeout (timeout_of (lo_TimeoutSeconds o1)) (req_VersionedParams (ListOptions_params (o1\<lparr>lo_Watch := True\<rparr>))
       (req_Resource sms_resource (Verb ''GET'' c)))"
| "op_request env c (OpCreate x o1) =
     req_Body (rest_of env) (BodyObject (map_option SmsBody x)) (req_VersionedParams (WriteOptions_params o1)
       (req_Resource sms_resource (Verb ''POST'' c)))"
| "op_request env c (OpUpdate x o1) =
     req_Body (rest_of env) (BodyObject (Some (SmsBody x))) (req_VersionedParams (WriteOptions_params o1)
       (req_Name (sms_name x) (req_Resource sms_resource (Verb ''PUT'' c))))"
| "op_request env c (OpDelete n o1) =
     req_Body (rest_of env) (BodyObject (Some (DeleteOptionsBody o1)))
       (req_Name n (req_Resource sms_resource (Verb ''DELETE'' c)))"
| "op_request env c (OpDeleteCollection o1 o2) =
     req_Body (rest_of env) (BodyObject (Some (DeleteOptionsBody o1)))
       (req_Timeout (timeout_of (lo_TimeoutSeconds o2)) (req_VersionedParams (ListOptions_params o2)
         (req_Resource sms_resource (Verb ''DELETE'' c))))"
| "op_request env c (OpPatch n pt data o1 subs) =
     req_Body (rest_of env) (BodyBytes data) (req_VersionedParams (PatchOptions_params o1)
       (req_SubResource subs (req_Name n (req_Resource sms_resource (verb_Patch pt c)))))"

lemma snd_bind_ret: "snd (io_bind m (\<lambda>x. io_ret (f x)) s) = snd (m s)"
  by (simp add: io_run split: prod.split sum.split)

lemma deref_Some_bind [simp]: "io_bind (deref (Some c)) f = f c"
  by (rule ext) (simp add: io_run)

lemma sms_op_state:
  "sms_op_run env c op s = s \<or>
     (rr_err (op_request env c op) = None \<and>
      sms_op_run env c op s = s\<lparr>sent := sent s @ [newHTTPRequest (rest_of env) (op_request env c op)]\<rparr>)"
proof (cases op)
  case (OpWatch o1)
  then show ?thesis
    using Watch_state [of "rest_of env" "op_request env c op" s]
    by (simp add: snapshotMetadataServices_Watch_def Let_def)
qed (use Do_state [of "rest_of env" "op_request env c op" s] in
    \<open>simp_all add: snd_bind_ret Let_def snapshotMetadataServices_Get_def snapshotMetadataServices_List_def
      snapshotMetadataServices_Create_def snapshotMetadataServices_Update_def
      snapshotMetadataServices_Delete_def snapshotMetadataServices_DeleteCollection_def
      snapshotMetadataServices_Patch_def\<close>)


definition safe_seg :: "string \<Rightarrow> bool" where
  "safe_seg s \<longleftrightarrow> plain_seg s \<and> CHR ''%'' \<notin> set s"

lemma valid_safe: "IsValidPathSegmentName s = [] \<Longrightarrow> s \<noteq> [] \<Longrightarrow> safe_seg s"
  by (simp add: safe_seg_def plain_seg_def IsValidPathSegmentName_ok)

lemma name_request:
  assumes "rr_err (req_Name n (req_Resource sms_resource r)) = None"
  shows "rr_resourceName (req_Name n (req_Resource sms_resource r)) = n" "safe_seg n" "n \<noteq> []"
  using assms by (auto simp: request_simps set_parts intro: valid_safe)

lemma op_request_target:
  assumes "rr_err (op_request env c op) = None"
  shows "request_to c (op_target op) (newHTTPRequest env' (op_request env c op)) \<and> list_all safe_seg (op_target op)"
proof -
  have named: ?thesis
    if "op_request env c op = f (req_Name n (req_Resource sms_resource r))" "op_target op = [n]"
      "rr_err (f (req_Name n (req_Resource sms_resource r))) = None \<Longrightarrow>
         rr_err (req_Name n (req_Resource sms_resource r)) = None"
      "\<And>q. rr_c (f q) = rr_c q" "\<And>q. rr_pathPrefix (f q) = rr_pathPrefix q" "\<And>q. rr_resource (f q) = rr_resource q"
      "\<And>q. rr_resourceName (f q) = rr_resourceName q" "\<And>q. rr_subresource (f q) = rr_subresource q"
      "\<And>q. rr_subpath (f q) = rr_subpath q" "\<exists>v. r = Verb v c"
    for f n r
  proof -
    have e: "rr_err (req_Name n (req_Resource sms_resource r)) = None" using that(1,3) assms by simp
    note n = name_request [OF e]
    from that(10) obtain v where r: "r = Verb v c" by blast
    have "request_to c ((if n = [] then [] else [n]) @ []) (newHTTPRequest env' (op_request env c op))"
      using request_to_newHTTPRequest [of "op_request env c op" c "[]" env'] n r that(1,4-9)
      by (simp add: request_simps safe_seg_def)
    then show ?thesis using n that(2) by simp
  qed
  show ?thesis
  proof (cases op)
    case (OpGet n o1)
    then show ?thesis by (intro named [where f = "req_VersionedParams (GetOptions_params o1)"]) (auto simp: request_simps)
  next
    case (OpUpdate x o1)
    then show ?thesis
      by (intro named [where f = "\<lambda>q. req_Body (rest_of env) (BodyObject (Some (SmsBody x)))
           (req_VersionedParams (WriteOptions_params o1) q)"])
        (auto simp: request_simps dest!: no_err_body)
  next
    case (OpDelete n o1)
    then show ?thesis
      by (intro named [where f = "req_Body (rest_of env) (BodyObject (Some (DeleteOptionsBody o1)))"])
        (auto simp: request_simps dest!: no_err_body)
  next
    case (OpPatch n pt data o1 subs)
    let ?r = "req_Name n (req_Resource sms_resource (verb_Patch pt c))"
    have e: "rr_err (req_SubResource subs ?r) = None"
      using assms OpPatch by (auto simp: request_simps dest!: no_err_body)
    then have "rr_err ?r = None" "first_invalid subs = None" by (simp_all add: request_simps)
    note n = name_request [OF this(1)] and subs = valid_subs_plain [OF this(2)] this(2)
    have "list_all safe_seg [s \<leftarrow> subs. s \<noteq> []]"
      using subs(3) by (auto simp: list_all_iff first_invalid_None intro: valid_safe)
    moreover have "request_to c ([n] @ [s \<leftarrow> subs. s \<noteq> []]) (newHTTPRequest env' (op_request env c op))"
      using request_to_newHTTPRequest [of "op_request env c op" c "[s \<leftarrow> subs. s \<noteq> []]" env'] n subs OpPatch
      by (simp add: request_simps safe_seg_def set_parts(3) [OF e])
    ultimately show ?thesis using n OpPatch by simp
  qed (use request_to_newHTTPRequest [of "op_request env c op" c "[]" env'] in \<open>simp_all add: request_simps\<close>)
qed

lemma op_request_verb: "rr_verb (op_request env c op) = op_method op"
  by (cases op) (simp_all add: request_simps)

text \<open>
  C20. Whatever names, options and subresources it is given, an operation of the typed client either
  sends nothing or exactly one request with its method to the configured host, whose path is the
  collection of the resource followed by the name that was asked for: no name can lead elsewhere.
\<close>

theorem sms_op_stays_in_collection:
  "sms_op_run env c op s = s \<or>
     (\<exists>req. sms_op_run env c op s = s\<lparr>sent := sent s @ [req]\<rparr> \<and> hr_method req = op_method op \<and>
        request_to c (op_target op) req \<and> list_all safe_seg (op_target op))"
  using sms_op_state [of env c op s] op_request_target [of env c op "rest_of env"] op_request_verb [of env c op]
  by (metis newHTTPRequest_method)


subsection \<open>Reading one resource\<close>

definition throttled :: "'o rest_env \<Rightarrow> rest_client \<Rightarrow> rest_state \<Rightarrow> gerr option" where
  "throttled env c s = (case rc_rateLimiter c of None \<Rightarrow> None | Some l \<Rightarrow> re_Wait env (sent s) l)"

lemma Do_ok:
  "rr_err r = None \<Longrightarrow> throttled env (rr_c r) s = None \<Longrightarrow>
     Do env r s = (Inr (re_Do env (sent s) (newHTTPRequest env r)), s\<lparr>sent := sent s @ [newHTTPRequest env r]\<rparr>)"
  by (simp add: Do_def throttled_def Let_def)

lemma Do_not_sent:
  "rr_err r = Some err \<Longrightarrow> Do env r s = (Inr (err_result err), s)"
  "rr_err r = None \<Longrightarrow> throttled env (rr_c r) s = Some err \<Longrightarrow> Do env r s = (Inr (err_result err), s)"
  by (simp_all add: Do_def throttled_def)

lemma Into_err [simp]: "Into dec z (err_result err) = (z, Some err)"
  by (simp add: Into_def err_result_def)

text \<open>
  C21. \<open>Get\<close> of an invalid name fails without a request and returns the zero object with the error; a
  failed wait for the rate limiter does the same; otherwise one request without a body goes out and
  the answer is what the decoder makes of its reply.
\<close>

theorem Get_spec:
  "case snapshotMetadataServices_Get env (Some c) name o1 s of (r, s') \<Rightarrow>
     (if name \<noteq> [] \<and> IsValidPathSegmentName name = []
      then (case throttled (rest_of env) c s of
              Some err \<Rightarrow> r = Inr (zero_sms, Some err) \<and> s' = s
            | None \<Rightarrow> (\<exists>req. s' = s\<lparr>sent := sent s @ [req]\<rparr> \<and> request_to c [name] req \<and>
                hr_method req = ''GET'' \<and> hr_body req = None \<and>
                r = Inr (Into (decode_sms env) zero_sms (re_Do (rest_of env) (sent s) req))))
      else (\<exists>err. r = Inr (zero_sms, Some err)) \<and> s' = s)"
proof -
  let ?r = "op_request env c (OpGet name o1)"
  have get: "snapshotMetadataServices_Get env (Some c) name o1 s =
      (case Do (rest_of env) ?r s of
         (Inr x, t) \<Rightarrow> (Inr (Into (decode_sms env) zero_sms x), t) | (Inl e, t) \<Rightarrow> (Inl e, t))"
    by (simp add: snapshotMetadataServices_Get_def io_run split: prod.split sum.split)
  show ?thesis
  proof (cases "name = [] \<or> IsValidPathSegmentName name \<noteq> []")
    case True
    then have "rr_err ?r \<noteq> None" by (auto simp: request_simps)
    then obtain err where "rr_err ?r = Some err" by blast
    from Do_not_sent(1) [OF this, of "rest_of env" s] True show ?thesis
      by (simp only: get) (auto simp del: op_request.simps)
  next
    case False
    then have e: "rr_err ?r = None" by (simp add: request_simps)
    have c: "rr_c ?r = c" by (simp add: request_simps)
    have b: "hr_body (newHTTPRequest (rest_of env) ?r) = None"
      by (simp add: newHTTPRequest_def chain_defs Verb_def NewRequest_def Let_def split: list.split)
    show ?thesis
    proof (cases "throttled (rest_of env) c s")
      case None
      from Do_ok [OF e, of "rest_of env" s] None c False b op_request_target [OF e, of "rest_of env"]
        op_request_verb [of env c "OpGet name o1"]
      show ?thesis by (simp only: get) (auto simp del: op_request.simps)
    next
      case (Some err)
      from Do_not_sent(2) [OF e, of "rest_of env" s] Some c False
      show ?thesis by (simp only: get) (simp del: op_request.simps)
    qed
  qed
qed

subsection \<open>Timeouts of list requests\<close>

lemma fold_add_value:
  "fold add_value ps m k =
     (case [v. (k', v) \<leftarrow> ps, k' = k] of
        [] \<Rightarrow> m k | vs \<Rightarrow> Some ((case m k of None \<Rightarrow> [] | Some us \<Rightarrow> us) @ vs))"
proof (induction ps arbitrary: m)
  case (Cons p ps)
  obtain k' v where "p = (k', v)" by (cases p)
  with Cons show ?case by (auto simp: add_value_def split: list.split option.split)
qed simp

lemma timeout_of_range:
  "sint (timeout_of (Some n)) = sint n * 1000000000 \<longleftrightarrow> \<bar>sint n\<bar> \<le> 9223372036"
proof
  have r: "- (2 ^ 63) \<le> sint (timeout_of (Some n))" "sint (timeout_of (Some n)) < 2 ^ 63"
    using sint_ge [of "timeout_of (Some n)"] sint_less [of "timeout_of (Some n)"] by simp_all
  assume "sint (timeout_of (Some n)) = sint n * 1000000000"
  with r show "\<bar>sint n\<bar> \<le> 9223372036" by simp
next
  assume a: "\<bar>sint n\<bar> \<le> 9223372036"
  have "sint (timeout_of (Some n)) = signed_take_bit 63 (sint n * 1000000000)"
    by (simp add: timeout_of_def sint_word_ariths)
  also have "\<dots> = sint n * 1000000000"
    by (rule signed_take_bit_int_eq_self) (use a in auto)
  finally show "sint (timeout_of (Some n)) = sint n * 1000000000" .
qed

text \<open>
  C22. A \<open>List\<close> request carries its timeout twice: \<open>timeoutSeconds\<close> as given, and \<open>timeout\<close> as a duration,
  which is that number of seconds exactly up to about 292 years either way and wraps beyond.
\<close>

theorem List_timeout:
  "(sms_op_run env c (OpList o1) s = s \<or>
     (\<exists>req. sms_op_run env c (OpList o1) s = s\<lparr>sent := sent s @ [req]\<rparr> \<and>
        hr_query req ''timeoutSeconds'' = map_option (\<lambda>n. [int_dec (sint n)]) (lo_TimeoutSeconds o1) \<and>
        hr_query req ''timeout'' =
          (if timeout_of (lo_TimeoutSeconds o1) = 0 then None
           else Some [re_Duration_String (rest_of env) (timeout_of (lo_TimeoutSeconds o1))]))) \<and>
   (case lo_TimeoutSeconds o1 of
      None \<Rightarrow> timeout_of (lo_TimeoutSeconds o1) = 0
    | Some n \<Rightarrow> (sint (timeout_of (lo_TimeoutSeconds o1)) = sint n * 1000000000) =
        (\<bar>sint n\<bar> \<le> 9223372036))"
proof -
  let ?r = "op_request env c (OpList o1)" and ?req = "newHTTPRequest (rest_of env) (op_request env c (OpList o1))"
  have r: "rr_timeout ?r = timeout_of (lo_TimeoutSeconds o1)"
    "rr_params ?r = fold add_value (ListOptions_params o1) Map.empty"
    by (simp_all add: chain_defs request_simps)
  have p: "rr_params ?r ''timeoutSeconds'' = map_option (\<lambda>n. [int_dec (sint n)]) (lo_TimeoutSeconds o1)"
    "rr_params ?r ''timeout'' = None"
    unfolding r(2) fold_add_value
    by (simp_all add: ListOptions_params_def str_param_def bool_param_def ptr_param_def int64_text_def
        split: option.split)
  have "hr_query ?req ''timeoutSeconds'' = map_option (\<lambda>n. [int_dec (sint n)]) (lo_TimeoutSeconds o1)"
    "hr_query ?req ''timeout'' = (if timeout_of (lo_TimeoutSeconds o1) = 0 then None
       else Some [re_Duration_String (rest_of env) (timeout_of (lo_TimeoutSeconds o1))])"
    using p r(1) by (simp_all add: newHTTPRequest_def del: op_request.simps)
  moreover have "case lo_TimeoutSeconds o1 of
      None \<Rightarrow> timeout_of (lo_TimeoutSeconds o1) = 0
    | Some n \<Rightarrow> (sint (timeout_of (lo_TimeoutSeconds o1)) = sint n * 1000000000) = (\<bar>sint n\<bar> \<le> 9223372036)"
    by (cases "lo_TimeoutSeconds o1") (simp_all only: option.case timeout_of_range, simp add: timeout_of_def)
  ultimately show ?thesis using sms_op_state [of env c "OpList o1" s] by blast
qed

subsection \<open>Constructing a clientset\<close>

lemma DefaultServerUrlFor_path:
  "DefaultServerUrlFor env config = Inr (u, p) \<Longrightarrow>
     p = DefaultVersionedAPIPath (cc_APIPath config) (case cc_GroupVersion config of Some gv \<Rightarrow> gv | None \<Rightarrow> ([], []))"
  by (auto simp: DefaultServerUrlFor_def DefaultServerURL_def Let_def split: if_splits sum.splits option.splits)

lemma group_api_path:
  "DefaultVersionedAPIPath ''/apis'' SchemeGroupVersion = ''/apis/cbt.storage.k8s.io/v1beta1''"
  by code_simp

lemma group_api_segs:
  "split_on (CHR ''/'') ''/apis/cbt.storage.k8s.io/v1beta1'' = [[], ''apis'', ''cbt.storage.k8s.io'', ''v1beta1'']"
  by code_simp

lemma group_base_segs:
  "rc_versionedAPIPath c = ''/apis/cbt.storage.k8s.io/v1beta1'' \<Longrightarrow>
     base_segs c = path_segs (url_Path (rc_base c)) @ [''apis'', ''cbt.storage.k8s.io'', ''v1beta1'']"
  by (simp add: base_segs_def group_api_segs clean_segs_no_dots)

lemma NewRESTClient_fields [simp]:
  "rc_versionedAPIPath (NewRESTClient u p config l h) = p" "rc_rateLimiter (NewRESTClient u p config l h) = l"
  "rc_Client (NewRESTClient u p config l h) = h"
  by (simp_all add: NewRESTClient_def)

text \<open>What the limiter of a client made from a configuration is, and which limiters that creates.\<close>

definition limiter_of :: "client_config \<Rightarrow> nat \<Rightarrow> rate_limiter option" where
  "limiter_of config n =
     (case cc_RateLimiter config of
        Some l \<Rightarrow> Some l
      | None \<Rightarrow> if float32_zero (cc_QPS config) \<or> float32_positive (cc_QPS config) then Some (TokenBucket n) else None)"

definition created :: "client_config \<Rightarrow> (float32 \<times> int64) list" where
  "created config =
     (case cc_RateLimiter config of
        Some l \<Rightarrow> []
      | None \<Rightarrow>
          if float32_zero (cc_QPS config) \<or> float32_positive (cc_QPS config)
          then [(if float32_zero (cc_QPS config) then 0x40A00000 else cc_QPS config,
                 if cc_Burst config = 0 then 10 else cc_Burst config)] else [])"

lemma float32_default: "float32_positive 0x40A00000"
  by (simp add: float32_positive_def)

lemma config_limiter_run:
  "config_limiter config s =
     (Inr (limiter_of config (length (limiters s))), s\<lparr>limiters := limiters s @ created config\<rparr>)"
  by (simp add: config_limiter_def limiter_of_def created_def Let_def NewTokenBucketRateLimiter_def io_run
      float32_default split: option.split)

lemma setConfigDefaults_spec:
  "\<exists>config. setConfigDefaults env c = Inr config \<and> cc_GroupVersion config = Some SchemeGroupVersion \<and>
     cc_APIPath config = ''/apis'' \<and> cc_NegotiatedSerializer config \<noteq> None \<and>
     limiter_of config = limiter_of c \<and> created config = created c"
  by (cases "cc_UserAgent c = []"; cases "cc_RateLimiter c")
    (simp_all add: setConfigDefaults_def limiter_of_def created_def fun_eq_iff)

lemma cbt_NewForConfigAndClient_run:
  "(case cbt_NewForConfigAndClient env c h s of
      (Inr cbt, s') \<Rightarrow> \<exists>t. cbt = \<lparr>restClient = Some t\<rparr> \<and> rc_Client t = h \<and>
          base_segs t = path_segs (url_Path (rc_base t)) @ [''apis'', ''cbt.storage.k8s.io'', ''v1beta1''] \<and>
          rc_rateLimiter t = limiter_of c (length (limiters s)) \<and>
          s' = s\<lparr>limiters := limiters s @ created c\<rparr>
    | (Inl e, s') \<Rightarrow> (\<exists>err. e = Failed err) \<and> s' = s)"
proof -
  obtain config where config: "setConfigDefaults env c = Inr config"
    and g: "cc_GroupVersion config = Some SchemeGroupVersion" "cc_APIPath config = ''/apis''"
      "cc_NegotiatedSerializer config \<noteq> None"
    and l: "limiter_of config = limiter_of c" "created config = created c"
    using setConfigDefaults_spec by blast
  show ?thesis
  proof (cases "DefaultServerUrlFor env config")
    case (Inl err)
    then show ?thesis
      using g by (simp add: cbt_NewForConfigAndClient_def RESTClientForConfigAndClient_def config io_run)
  next
    case (Inr up)
    obtain u p where up: "up = (u, p)" by (cases up)
    have "p = ''/apis/cbt.storage.k8s.io/v1beta1''"
      using DefaultServerUrlFor_path [of env config u p] Inr up g by (simp add: group_api_path)
    then show ?thesis
      using Inr up g l
      by (simp add: cbt_NewForConfigAndClient_def RESTClientForConfigAndClient_def config io_run
          config_limiter_run group_base_segs)
  qed
qed

lemma Discovery_run:
  "(case NewDiscoveryClientForConfigAndClient env c h s of
      (Inr d, s') \<Rightarrow> rc_Client d = h \<and>
          rc_rateLimiter d = limiter_of c (length (limiters s)) \<and>
          s' = s\<lparr>limiters := limiters s @ created (c\<lparr>cc_Burst := if cc_Burst c = 0 then 300 else cc_Burst c\<rparr>)\<rparr>
    | (Inl e, s') \<Rightarrow> (\<exists>err. e = Failed err) \<and> s' = s)"
proof -
  have l: "limiter_of (setDiscoveryDefaults env c) = limiter_of c"
    "created (setDiscoveryDefaults env c) = created (c\<lparr>cc_Burst := if cc_Burst c = 0 then 300 else cc_Burst c\<rparr>)"
    by (cases "cc_RateLimiter c"; simp add: limiter_of_def created_def setDiscoveryDefaults_def fun_eq_iff)+
  have n: "cc_NegotiatedSerializer (setDiscoveryDefaults env c) \<noteq> None"
    by (simp add: setDiscoveryDefaults_def)
  show ?thesis
    using n l by (simp add: NewDiscoveryClientForConfigAndClient_def UnversionedRESTClientForConfigAndClient_def
        io_run config_limiter_run split: sum.split prod.split)
qed


lemma float32_zero_not_positive: "float32_zero q \<Longrightarrow> \<not> float32_positive q"
  by (auto simp: float32_zero_def float32_positive_def)

lemma clients_run:
  "(case (io_bind (cbt_NewForConfigAndClient env c h) (\<lambda>cbt.
          io_bind (NewDiscoveryClientForConfigAndClient env c h) (\<lambda>discovery.
          io_ret \<lparr>DiscoveryClient = Some discovery, cbtV1beta1 = Some cbt\<rparr>))) s of
      (Inl e, s') \<Rightarrow> (\<exists>err. e = Failed err) \<and> sent s' = sent s
    | (Inr cs, s') \<Rightarrow> sent s' = sent s \<and>
        (\<exists>d t. cs = \<lparr>DiscoveryClient = Some d, cbtV1beta1 = Some \<lparr>restClient = Some t\<rparr>\<rparr> \<and>
           rc_Client t = h \<and> rc_Client d = h \<and>
           base_segs t = path_segs (url_Path (rc_base t)) @ [''apis'', ''cbt.storage.k8s.io'', ''v1beta1''] \<and>
           rc_rateLimiter t = limiter_of c (length (limiters s)) \<and>
           rc_rateLimiter d = limiter_of c (length (limiters s @ created c)) \<and>
           limiters s' = limiters s @ created c @
             created (c\<lparr>cc_Burst := if cc_Burst c = 0 then 300 else cc_Burst c\<rparr>)))"
proof (cases "cbt_NewForConfigAndClient env c h s")
  case (Pair r1 s1)
  note cbt = cbt_NewForConfigAndClient_run [where env = env and c = c and h = h and s = s, unfolded Pair]
  obtain r2 s2 where d: "NewDiscoveryClientForConfigAndClient env c h s1 = (r2, s2)"
    by (cases "NewDiscoveryClientForConfigAndClient env c h s1")
  note disc = Discovery_run [where env = env and c = c and h = h and s = s1, unfolded d]
  show ?thesis
    using cbt disc by (cases r1; cases r2) (auto simp: io_run Pair d)
qed

text \<open>
  What a clientset made from a configuration and an HTTP client looks like: both clients use that HTTP
  client, the typed one below the path of the group; with a limiter or a positive rate given they
  share one limiter, without a rate each has one of its own, with a negative rate none.
\<close>

definition clientset_for ::
  "client_config \<Rightarrow> http_client option \<Rightarrow> rest_state \<Rightarrow> clientset \<Rightarrow> rest_state \<Rightarrow> bool" where
  "clientset_for c h s cs s' \<longleftrightarrow>
     (\<exists>d t. cs = \<lparr>DiscoveryClient = Some d, cbtV1beta1 = Some \<lparr>restClient = Some t\<rparr>\<rparr> \<and>
        rc_Client t = h \<and> rc_Client d = h \<and>
        base_segs t = path_segs (url_Path (rc_base t)) @ [''apis'', ''cbt.storage.k8s.io'', ''v1beta1''] \<and>
        (case cc_RateLimiter c of
           Some l \<Rightarrow> rc_rateLimiter t = Some l \<and> rc_rateLimiter d = Some l \<and> limiters s' = limiters s
         | None \<Rightarrow>
             if float32_positive (cc_QPS c)
             then 0 <s cc_Burst c \<and> limiters s' = limiters s @ [(cc_QPS c, cc_Burst c)] \<and>
               rc_rateLimiter t = Some (TokenBucket (length (limiters s))) \<and> rc_rateLimiter d = rc_rateLimiter t
             else if float32_zero (cc_QPS c)
             then limiters s' = limiters s @ [(0x40A00000, if cc_Burst c = 0 then 10 else cc_Burst c),
                 (0x40A00000, if cc_Burst c = 0 then 300 else cc_Burst c)] \<and>
               rc_rateLimiter t = Some (TokenBucket (length (limiters s))) \<and>
               rc_rateLimiter d = Some (TokenBucket (length (limiters s) + 1))
             else limiters s' = limiters s \<and> rc_rateLimiter t = None \<and> rc_rateLimiter d = None))"

definition clientset_result ::
  "client_config \<Rightarrow> http_client option \<Rightarrow> rest_state \<Rightarrow> (exn + clientset) \<times> rest_state \<Rightarrow> bool" where
  "clientset_result c h s r \<longleftrightarrow> sent (snd r) = sent s \<and>
     (case fst r of Inl e \<Rightarrow> \<exists>err. e = Failed err | Inr cs \<Rightarrow> clientset_for c h s cs (snd r))"

abbreviation make_clients :: "'o rest_env \<Rightarrow> client_config \<Rightarrow> http_client option \<Rightarrow> (rest_state, clientset) io" where
  "make_clients env c h \<equiv>
     io_bind (cbt_NewForConfigAndClient env c h) (\<lambda>cbt.
     io_bind (NewDiscoveryClientForConfigAndClient env c h) (\<lambda>discovery.
     io_ret \<lparr>DiscoveryClient = Some discovery, cbtV1beta1 = Some cbt\<rparr>))"

lemma make_clients_Inr:
  assumes "make_clients env c h s = (Inr cs, s')"
  obtains d t where "sent s' = sent s" "cs = \<lparr>DiscoveryClient = Some d, cbtV1beta1 = Some \<lparr>restClient = Some t\<rparr>\<rparr>"
    "rc_Client t = h" "rc_Client d = h"
    "base_segs t = path_segs (url_Path (rc_base t)) @ [''apis'', ''cbt.storage.k8s.io'', ''v1beta1'']"
    "rc_rateLimiter t = limiter_of c (length (limiters s))"
    "rc_rateLimiter d = limiter_of c (length (limiters s @ created c))"
    "limiters s' = limiters s @ created c @ created (c\<lparr>cc_Burst := if cc_Burst c = 0 then 300 else cc_Burst c\<rparr>)"
  using clients_run [where env = env and c = c and h = h and s = s, unfolded assms] by auto

lemma make_clients_Inl:
  assumes "make_clients env c h s = (Inl e, s')"
  shows "(\<exists>err. e = Failed err) \<and> sent s' = sent s"
  using clients_run [where env = env and c = c and h = h and s = s, unfolded assms] by simp

text \<open>A limiter made from the rate of the configuration is shared.\<close>

lemma clientset_limited:
  assumes l: "cc_RateLimiter c = None" and q: "float32_positive (cc_QPS c)"
  shows "clientset_result c h s (versioned_NewForConfigAndClient env c h s)"
proof (cases "cc_Burst c \<le>s 0")
  case True
  then show ?thesis
    using assms by (simp add: versioned_NewForConfigAndClient_def clientset_result_def io_run)
next
  case False
  let ?c2 = "c\<lparr>cc_RateLimiter := Some (TokenBucket (length (limiters s)))\<rparr>"
  let ?s = "s\<lparr>limiters := limiters s @ [(cc_QPS c, cc_Burst c)]\<rparr>"
  have b: "0 <s cc_Burst c" using False by (simp add: word_sle_eq word_sless_alt)
  have c2: "limiter_of ?c2 n = Some (TokenBucket (length (limiters s)))" "created ?c2 = []"
    "created (?c2\<lparr>cc_Burst := x\<rparr>) = []" for n x
    by (simp_all add: limiter_of_def created_def)
  have run: "versioned_NewForConfigAndClient env c h s = make_clients env ?c2 h ?s"
    unfolding versioned_NewForConfigAndClient_def
    using assms False by (simp add: io_bind_def io_ret_def NewTokenBucketRateLimiter_def)
  obtain r s' where r: "make_clients env ?c2 h ?s = (r, s')" by (cases "make_clients env ?c2 h ?s")
  show ?thesis
  proof (cases r)
    case (Inl e)
    with make_clients_Inl [of env ?c2 h ?s e s'] r show ?thesis
      by (simp add: run clientset_result_def)
  next
    case (Inr cs)
    from make_clients_Inr [OF r [unfolded Inr], unfolded c2]
    obtain d t where t: "sent s' = sent ?s"
      "cs = \<lparr>DiscoveryClient = Some d, cbtV1beta1 = Some \<lparr>restClient = Some t\<rparr>\<rparr>" "rc_Client t = h" "rc_Client d = h"
      "base_segs t = path_segs (url_Path (rc_base t)) @ [''apis'', ''cbt.storage.k8s.io'', ''v1beta1'']"
      "rc_rateLimiter t = Some (TokenBucket (length (limiters s)))"
      "rc_rateLimiter d = Some (TokenBucket (length (limiters s)))"
      "limiters s' = limiters ?s @ [] @ []"
      by blast
    then show ?thesis
      unfolding run r Inr clientset_result_def clientset_for_def by (simp add: l q b)
  qed
qed

text \<open>In all other cases the configuration is passed on as it is.\<close>

lemma clientset_unlimited:
  assumes "cc_RateLimiter c \<noteq> None \<or> \<not> float32_positive (cc_QPS c)"
  shows "clientset_result c h s (versioned_NewForConfigAndClient env c h s)"
proof -
  have run: "versioned_NewForConfigAndClient env c h s = make_clients env c h s"
    unfolding versioned_NewForConfigAndClient_def using assms by (auto simp: io_bind_def io_ret_def)
  have l: "limiter_of c n = (case cc_RateLimiter c of Some l \<Rightarrow> Some l
      | None \<Rightarrow> if float32_zero (cc_QPS c) then Some (TokenBucket n) else None)" for n
    using assms by (cases "cc_RateLimiter c") (simp_all add: limiter_of_def)
  have k: "created (c\<lparr>cc_Burst := b\<rparr>) = (case cc_RateLimiter c of Some l \<Rightarrow> []
      | None \<Rightarrow> if float32_zero (cc_QPS c) then [(0x40A00000, if b = 0 then 10 else b)] else [])" for b
    using assms by (cases "cc_RateLimiter c") (simp_all add: created_def)
  have k1: "created c = (case cc_RateLimiter c of Some l \<Rightarrow> []
      | None \<Rightarrow> if float32_zero (cc_QPS c) then [(0x40A00000, if cc_Burst c = 0 then 10 else cc_Burst c)] else [])"
    using assms by (cases "cc_RateLimiter c") (simp_all add: created_def)
  obtain r s' where r: "make_clients env c h s = (r, s')" by (cases "make_clients env c h s")
  show ?thesis
  proof (cases r)
    case (Inl e)
    with make_clients_Inl [of env c h s e s'] r show ?thesis
      by (simp add: run clientset_result_def)
  next
    case (Inr cs)
    from make_clients_Inr [OF r [unfolded Inr]]
    obtain d t where t: "sent s' = sent s"
      "cs = \<lparr>DiscoveryClient = Some d, cbtV1beta1 = Some \<lparr>restClient = Some t\<rparr>\<rparr>" "rc_Client t = h" "rc_Client d = h"
      "base_segs t = path_segs (url_Path (rc_base t)) @ [''apis'', ''cbt.storage.k8s.io'', ''v1beta1'']"
      and x: "rc_rateLimiter t = limiter_of c (length (limiters s))"
      "rc_rateLimiter d = limiter_of c (length (limiters s @ created c))"
      "limiters s' = limiters s @ created c @ created (c\<lparr>cc_Burst := if cc_Burst c = 0 then 300 else cc_Burst c\<rparr>)" .
    show ?thesis
      unfolding run r Inr clientset_result_def clientset_for_def
      using t x [unfolded l k k1] assms
      by (cases "cc_RateLimiter c"; cases "float32_zero (cc_QPS c)"; simp)
  qed
qed

text \<open>
  C23. \<open>NewForConfig\<close> either fails with an error, among others for a positive rate without a positive
  burst, or returns a clientset whose two clients share the HTTP client and, where a limiter or a rate
  is given, one limiter. Nothing is sent and nothing panics.
\<close>

theorem NewForConfig_spec:
  "\<exists>h. clientset_result c h s (versioned_NewForConfig env c s) \<and>
     (case versioned_NewForConfig env c s of
        (Inl e, s') \<Rightarrow> True
      | (Inr cs, s') \<Rightarrow> h \<noteq> None)"
proof -
  define c1 where "c1 = (if cc_UserAgent c = [] then c\<lparr>cc_UserAgent := re_DefaultUserAgent env\<rparr> else c)"
  have c1: "cc_RateLimiter c1 = cc_RateLimiter c" "cc_QPS c1 = cc_QPS c" "cc_Burst c1 = cc_Burst c"
    by (simp_all add: c1_def)
  have run: "versioned_NewForConfig env c s =
      io_bind (HTTPClientFor env c1) (\<lambda>h. versioned_NewForConfigAndClient env c1 (Some h)) s"
    by (simp add: versioned_NewForConfig_def c1_def Let_def)
  have same: "clientset_result c1 h s r = clientset_result c h s r" for h r
    unfolding clientset_result_def clientset_for_def c1 by (rule refl)
  show ?thesis
  proof (cases "re_TransportFor env c1")
    case (Inl err)
    then show ?thesis by (simp add: run HTTPClientFor_def io_run clientset_result_def)
  next
    case (Inr tr)
    then obtain h where r: "versioned_NewForConfig env c s = versioned_NewForConfigAndClient env c1 (Some h) s"
      by (simp add: run HTTPClientFor_def io_run)
    have "clientset_result c (Some h) s (versioned_NewForConfig env c s)"
      using clientset_limited [of c1 "Some h" s env] clientset_unlimited [of c1 "Some h" s env] same r by metis
    then show ?thesis
      by (intro exI [of _ "Some h"])
        (auto simp: clientset_result_def clientset_for_def split: prod.split sum.split option.splits if_splits)
  qed
qed

end
