(* ===== verification/FakeClientset.thy ===== *)
theory FakeClientset
  imports Clientset "HOL-Library.AList" "HOL-Library.List_Lexorder" "HOL-Library.Product_Lexorder"
    "HOL-Library.Char_ord"
begin

text \<open>
  The fake clientset of \<open>client/clientset/versioned/fake\<close> that tests of the consumers of the API use
  in place of the clientset: the typed fake client, the chain of reactors of \<open>client-go/testing\<close> it
  calls, and the object tracker that plays the server. An object is a value here, since the tracker stores and returns
  deep copies (theory \<open>DeepCopy\<close>).
\<close>

subsection \<open>Objects and actions\<close>

text \<open>Of the metadata of an object the fake client reads the name, the namespace and the labels.\<close>

record fake_sms = sms_cr +
  fs_Namespace :: string
  fs_Labels :: "string \<rightharpoonup> string"

record fake_sms_list =
  fsl_ResourceVersion :: string
  fsl_Items :: "fake_sms list"

definition zero_fake_sms :: fake_sms where
  "zero_fake_sms = \<lparr>sms_name = [], sms_spec = \<lparr>sms_audience = [], sms_address = [], sms_caCert = [],
     sms_requireBaseSnapshotForDelta = None\<rparr>, fs_Namespace = [], fs_Labels = Map.empty\<rparr>"

definition obj_key :: "fake_sms \<Rightarrow> string \<times> string" where
  "obj_key o1 = (fs_Namespace o1, sms_name o1)"

text \<open>A \<open>runtime.Object\<close>: nil, a pointer of one of the two types, or an object of another type.\<close>

datatype robj = NilObject | SmsObject "fake_sms option" | SmsListObject "fake_sms_list option" | OtherObject string

type_synonym group_version_kind = "string \<times> string \<times> string"

definition snapshotmetadataservicesResource :: group_version_resource where
  "snapshotmetadataservicesResource = WithResource ''snapshotmetadataservices''"

definition snapshotmetadataservicesKind :: group_version_kind where
  "snapshotmetadataservicesKind = (fst SchemeGroupVersion, snd SchemeGroupVersion, ''SnapshotMetadataService'')"

text \<open>A parsed selector: its text and the sets of labels it matches.\<close>

record fake_selector =
  fsel_String :: string
  fsel_Matches :: "(string \<rightharpoonup> string) \<Rightarrow> bool"

record action_impl =
  act_Verb :: string
  act_Resource :: group_version_resource
  act_Subresource :: string
  act_Namespace :: string

datatype fake_action =
  GetActionImpl action_impl string get_options
| ListActionImpl action_impl group_version_kind fake_selector string
| WatchActionImpl action_impl list_options fake_selector string
| CreateActionImpl action_impl "fake_sms option" write_options
| UpdateActionImpl action_impl "fake_sms option" write_options
| DeleteActionImpl action_impl string delete_options
| DeleteCollectionActionImpl action_impl delete_options list_options fake_selector string
| PatchActionImpl action_impl string string string patch_options

fun action_base :: "fake_action \<Rightarrow> action_impl" where
  "action_base (GetActionImpl b n o1) = b"
| "action_base (ListActionImpl b k l f) = b"
| "action_base (WatchActionImpl b o1 l f) = b"
| "action_base (CreateActionImpl b x o1) = b"
| "action_base (UpdateActionImpl b x o1) = b"
| "action_base (DeleteActionImpl b n o1) = b"
| "action_base (DeleteCollectionActionImpl b o1 o2 l f) = b"
| "action_base (PatchActionImpl b n pt d o1) = b"

text \<open>
  The parsers of selectors, the patch machinery (JSON, merge and strategic merge patches from an object
  to its patched version, and the parser of an apply patch) and two error texts are parameters.
\<close>

record fake_env =
  parse_labels :: "string \<Rightarrow> gerr + fake_selector"
  parse_fields :: "string \<Rightarrow> gerr + string"
  decode_apply :: "string \<Rightarrow> gerr option"
  patch_object :: "string \<Rightarrow> string \<Rightarrow> fake_sms \<Rightarrow> gerr + fake_sms"
  not_registered :: "group_version_kind \<Rightarrow> gerr"
  unhandled_watch :: "fake_action \<Rightarrow> gerr"

definition root_action :: "string \<Rightarrow> group_version_resource \<Rightarrow> string \<Rightarrow> action_impl" where
  "root_action verb resource sub =
     \<lparr>act_Verb = verb, act_Resource = resource, act_Subresource = sub, act_Namespace = []\<rparr>"

definition zero_write_options :: write_options where
  "zero_write_options = \<lparr>wo_DryRun = [], wo_FieldManager = [], wo_FieldValidation = []\<rparr>"

definition zero_patch_options :: patch_options where
  "zero_patch_options = \<lparr>wo_DryRun = [], wo_FieldManager = [], wo_FieldValidation = [], po_Force = None\<rparr>"

definition zero_delete_options :: delete_options where
  "zero_delete_options = \<lparr>do_GracePeriodSeconds = None, do_Preconditions = None, do_OrphanDependents = None,
     do_PropagationPolicy = None, do_DryRun = [], do_IgnoreStoreReadError = None\<rparr>"

definition invalid_selector :: "string \<Rightarrow> gerr \<Rightarrow> string" where
  "invalid_selector s err = ''invalid selector '' @ quote s @ '': '' @ error_text err"

definition ExtractFromListOptions :: "fake_env \<Rightarrow> list_options \<Rightarrow> ('s, fake_selector \<times> string) io" where
  "ExtractFromListOptions env opts =
     (case parse_labels env (lo_LabelSelector opts) of
        Inl err \<Rightarrow> io_panic (invalid_selector (lo_LabelSelector opts) err)
      | Inr labelSelector \<Rightarrow>
          (case parse_fields env (lo_FieldSelector opts) of
             Inl err \<Rightarrow> io_panic (invalid_selector (lo_FieldSelector opts) err)
           | Inr fieldSelector \<Rightarrow> io_ret (labelSelector, fieldSelector)))"

definition NewRootGetAction :: "group_version_resource \<Rightarrow> string \<Rightarrow> fake_action" where
  "NewRootGetAction resource name =
     GetActionImpl (root_action ''get'' resource []) name \<lparr>go_ResourceVersion = []\<rparr>"

definition NewRootListAction ::
  "fake_env \<Rightarrow> group_version_resource \<Rightarrow> group_version_kind \<Rightarrow> list_options \<Rightarrow> ('s, fake_action) io" where
  "NewRootListAction env resource kind opts =
     io_bind (ExtractFromListOptions env opts) (\<lambda>(l, f).
     io_ret (ListActionImpl (root_action ''list'' resource []) kind l f))"

definition NewRootWatchAction ::
  "fake_env \<Rightarrow> group_version_resource \<Rightarrow> list_options \<Rightarrow> ('s, fake_action) io" where
  "NewRootWatchAction env resource opts =
     io_bind (ExtractFromListOptions env opts) (\<lambda>(l, f).
     io_ret (WatchActionImpl (root_action ''watch'' resource []) opts l f))"

definition NewRootCreateAction :: "group_version_resource \<Rightarrow> fake_sms option \<Rightarrow> fake_action" where
  "NewRootCreateAction resource object =
     CreateActionImpl (root_action ''create'' resource []) object zero_write_options"

definition NewRootUpdateAction :: "group_version_resource \<Rightarrow> fake_sms option \<Rightarrow> fake_action" where
  "NewRootUpdateAction resource object =
     UpdateActionImpl (root_action ''update'' resource []) object zero_write_options"

definition NewRootDeleteActionWithOptions ::
  "group_version_resource \<Rightarrow> string \<Rightarrow> delete_options \<Rightarrow> fake_action" where
  "NewRootDeleteActionWithOptions resource name opts =
     DeleteActionImpl (root_action ''delete'' resource []) name opts"

definition NewRootDeleteCollectionAction ::
  "fake_env \<Rightarrow> group_version_resource \<Rightarrow> list_options \<Rightarrow> ('s, fake_action) io" where
  "NewRootDeleteCollectionAction env resource listOpts =
     io_bind (ExtractFromListOptions env listOpts) (\<lambda>(l, f).
     io_ret (DeleteCollectionActionImpl (root_action ''delete-collection'' resource [])
       zero_delete_options listOpts l f))"

definition NewRootPatchSubresourceAction ::
  "group_version_resource \<Rightarrow> string \<Rightarrow> string \<Rightarrow> string \<Rightarrow> string list \<Rightarrow> fake_action" where
  "NewRootPatchSubresourceAction resource name pt patch subresources =
     PatchActionImpl (root_action ''patch'' resource (path_Join subresources)) name pt patch zero_patch_options"

subsection \<open>The object tracker\<close>

datatype watch_event = Added fake_sms | Modified fake_sms | Deleted fake_sms

record fake_watcher =
  fw_result :: "watch_event list"
  fw_Stopped :: bool

text \<open>
  \<open>t.objects\<close> has for every resource a map from namespaced names to versioned objects, an
  association list here. The watchers are numbered in the order they were made.
\<close>

record tracker =
  tk_objects :: "group_version_resource \<rightharpoonup> ((string \<times> string) \<times> (int64 \<times> fake_sms)) list"
  tk_watchers :: "group_version_resource \<rightharpoonup> (string \<rightharpoonup> nat list)"
  tk_resourceVersions :: "group_version_resource \<rightharpoonup> int64"
  tk_channels :: "fake_watcher list"

definition NewObjectTracker :: tracker where
  "NewObjectTracker = \<lparr>tk_objects = Map.empty, tk_watchers = Map.empty, tk_resourceVersions = Map.empty,
     tk_channels = []\<rparr>"

definition gr_String :: "group_version_resource \<Rightarrow> string" where
  "gr_String gvr =
     (if gvr_group gvr = [] then gvr_resource gvr else gvr_resource gvr @ ''.'' @ gvr_group gvr)"

definition api_NotFound :: "group_version_resource \<Rightarrow> string \<Rightarrow> gerr" where
  "api_NotFound gvr name = Plain (gr_String gvr @ '' '' @ quote name @ '' not found'')"

definition api_AlreadyExists :: "group_version_resource \<Rightarrow> string \<Rightarrow> gerr" where
  "api_AlreadyExists gvr name = Plain (gr_String gvr @ '' '' @ quote name @ '' already exists'')"

definition namespace_mismatch :: "string \<Rightarrow> string \<Rightarrow> gerr" where
  "namespace_mismatch ns ns' =
     Plain (''request namespace does not match object namespace, request: '' @ quote ns @ '' object: '' @ quote ns')"

definition errNotObject :: gerr where
  "errNotObject = Plain ''object does not implement the Object interfaces''"

definition DefaultChanSize :: nat where "DefaultChanSize = 100"

definition tracker_entries ::
  "tracker \<Rightarrow> group_version_resource \<Rightarrow> ((string \<times> string) \<times> (int64 \<times> fake_sms)) list" where
  "tracker_entries t gvr = (case tk_objects t gvr of None \<Rightarrow> [] | Some es \<Rightarrow> es)"

definition tracker_version :: "tracker \<Rightarrow> group_version_resource \<Rightarrow> int64" where
  "tracker_version t gvr = (case tk_resourceVersions t gvr of None \<Rightarrow> 1 | Some v \<Rightarrow> v)"

definition getWatches :: "tracker \<Rightarrow> group_version_resource \<Rightarrow> string \<Rightarrow> nat list" where
  "getWatches t gvr ns =
     (case tk_watchers t gvr of
        None \<Rightarrow> []
      | Some m \<Rightarrow> (case m ns of None \<Rightarrow> [] | Some w \<Rightarrow> w) @
                  (if ns \<noteq> [] then (case m [] of None \<Rightarrow> [] | Some w \<Rightarrow> w) else []))"

text \<open>The loop over the watchers: an event goes into the channel of each that is not stopped; a full channel panics.\<close>

fun notify :: "watch_event \<Rightarrow> nat list \<Rightarrow> (tracker, unit) io" where
  "notify ev [] t = (Inr (), t)"
| "notify ev (i # is) t =
     (let w = tk_channels t ! i
      in if fw_Stopped w then notify ev is t
         else if length (fw_result w) < DefaultChanSize
         then notify ev is (t\<lparr>tk_channels := (tk_channels t)[i := w\<lparr>fw_result := fw_result w @ [ev]\<rparr>]\<rparr>)
         else (Inl (Panicked ''channel full''), t))"

definition tracker_Get :: "group_version_resource \<Rightarrow> string \<Rightarrow> string \<Rightarrow> (tracker, fake_sms) io" where
  "tracker_Get gvr ns name t =
     (case map_of (tracker_entries t gvr) (ns, name) of
        None \<Rightarrow> (Inl (Failed (api_NotFound gvr name)), t)
      | Some (v, o1) \<Rightarrow> (Inr o1, t))"

definition tracker_add :: "group_version_resource \<Rightarrow> fake_sms \<Rightarrow> string \<Rightarrow> bool \<Rightarrow> (tracker, unit) io" where
  "tracker_add gvr obj ns replaceExisting t =
     (let obj = (if fs_Namespace obj = [] then obj\<lparr>fs_Namespace := ns\<rparr> else obj)
      in if ns \<noteq> fs_Namespace obj then (Inl (Failed (namespace_mismatch ns (fs_Namespace obj))), t)
         else let es = tracker_entries t gvr;
                  t1 = t\<lparr>tk_objects := (tk_objects t)(gvr \<mapsto> es)\<rparr>;
                  resourceVersion = tracker_version t gvr + 1;
                  t2 = t1\<lparr>tk_resourceVersions := (tk_resourceVersions t1)(gvr \<mapsto> resourceVersion),
                          tk_objects := (tk_objects t1)(gvr \<mapsto>
                            AList.update (obj_key obj) (resourceVersion, obj) es)\<rparr>
              in if map_of es (obj_key obj) \<noteq> None
                 then if replaceExisting then notify (Modified obj) (getWatches t gvr ns) t2
                      else (Inl (Failed (api_AlreadyExists gvr (sms_name obj))), t1)
                 else if replaceExisting then (Inl (Failed (api_NotFound gvr (sms_name obj))), t1)
                 else notify (Added obj) (getWatches t gvr ns) t2)"

definition tracker_Delete :: "group_version_resource \<Rightarrow> string \<Rightarrow> string \<Rightarrow> (tracker, unit) io" where
  "tracker_Delete gvr ns name t =
     (case map_of (tracker_entries t gvr) (ns, name) of
        None \<Rightarrow> (Inl (Failed (api_NotFound gvr name)), t)
      | Some (v, o1) \<Rightarrow>
          notify (Deleted o1) (getWatches t gvr ns)
            (t\<lparr>tk_objects := (tk_objects t)(gvr \<mapsto> AList.delete (ns, name) (tracker_entries t gvr))\<rparr>))"

text \<open>
  The map is visited in some order and then sorted by namespace and name, which no two entries share; so
  the order of the visit does not matter.
\<close>

definition filterByNamespace ::
  "((string \<times> string) \<times> (int64 \<times> fake_sms)) list \<Rightarrow> string \<Rightarrow> fake_sms list" where
  "filterByNamespace es ns =
     sort_key obj_key (filter (\<lambda>o1. ns = [] \<or> fs_Namespace o1 = ns) (map (snd \<circ> snd) es))"

text \<open>\<open>register.go\<close>: the kinds that \<open>addKnownTypes\<close> adds to the scheme.\<close>

definition addKnownTypes :: "group_version_kind list" where
  "addKnownTypes = map (\<lambda>k. (fst SchemeGroupVersion, snd SchemeGroupVersion, k))
     [''SnapshotMetadataService'', ''SnapshotMetadataServiceList'']"

definition tracker_List ::
  "fake_env \<Rightarrow> group_version_resource \<Rightarrow> group_version_kind \<Rightarrow> string \<Rightarrow> (tracker, fake_sms_list) io" where
  "tracker_List env gvr gvk ns t =
     (let (group, version, kind) = gvk;
          listGVK = (group, (if version = [] then ''__internal'' else version), kind @ ''List'')
      in if listGVK \<notin> set addKnownTypes then (Inl (Failed (not_registered env listGVK)), t)
         else (Inr \<lparr>fsl_ResourceVersion = int64_text (tracker_version t gvr),
                    fsl_Items = filterByNamespace (tracker_entries t gvr) ns\<rparr>, t))"

text \<open>\<open>Watch\<close> as the clientset calls it, without options: no existing object is delivered.\<close>

definition tracker_Watch :: "group_version_resource \<Rightarrow> string \<Rightarrow> (tracker, nat) io" where
  "tracker_Watch gvr ns t =
     (let i = length (tk_channels t);
          m = (case tk_watchers t gvr of None \<Rightarrow> Map.empty | Some m \<Rightarrow> m)
      in (Inr i, t\<lparr>tk_channels := tk_channels t @ [\<lparr>fw_result = [], fw_Stopped = False\<rparr>],
                   tk_watchers := (tk_watchers t)(gvr \<mapsto>
                     m(ns \<mapsto> (case m ns of None \<Rightarrow> [] | Some w \<Rightarrow> w) @ [i]))\<rparr>))"

subsection \<open>The reaction that asks the tracker\<close>

definition reaction_of :: "(tracker, robj) io \<Rightarrow> (tracker, bool \<times> robj \<times> gerr option) io" where
  "reaction_of m =
     io_catch (io_bind m (\<lambda>obj. io_ret (True, obj, None))) (\<lambda>err. io_ret (True, NilObject, Some err))"

definition got_object :: "fake_sms \<Rightarrow> ('s, robj) io" where
  "got_object o1 = io_ret (SmsObject (Some o1))"

definition react_Create :: "action_impl \<Rightarrow> fake_sms option \<Rightarrow> (tracker, robj) io" where
  "react_Create b object =
     (case object of
        None \<Rightarrow> io_fail errNotObject
      | Some o1 \<Rightarrow>
          io_then (tracker_add (act_Resource b) o1 (act_Namespace b) False)
          (io_bind (tracker_Get (act_Resource b) (act_Namespace b) (sms_name o1)) got_object))"

definition react_Update :: "action_impl \<Rightarrow> fake_sms option \<Rightarrow> (tracker, robj) io" where
  "react_Update b object =
     (case object of
        None \<Rightarrow> io_fail errNotObject
      | Some o1 \<Rightarrow>
          io_then (tracker_add (act_Resource b) o1 (act_Namespace b) True)
          (io_bind (tracker_Get (act_Resource b) (act_Namespace b) (sms_name o1)) got_object))"

definition ApplyPatchType :: string where "ApplyPatchType = ''application/apply-patch+yaml''"

definition react_Patch :: "fake_env \<Rightarrow> action_impl \<Rightarrow> string \<Rightarrow> string \<Rightarrow> string \<Rightarrow> (tracker, robj) io" where
  "react_Patch env b name pt patch =
     io_bind (tracker_Get (act_Resource b) (act_Namespace b) name) (\<lambda>old.
     io_bind (lift_sum (patch_object env pt patch old)) (\<lambda>obj.
     io_then (tracker_add (act_Resource b) obj (act_Namespace b) True)
     (got_object obj)))"

definition react_Apply :: "fake_env \<Rightarrow> action_impl \<Rightarrow> string \<Rightarrow> string \<Rightarrow> (tracker, robj) io" where
  "react_Apply env b name patch =
     (case decode_apply env patch of
        Some err \<Rightarrow> io_fail err
      | None \<Rightarrow>
          io_bind (tracker_Get (act_Resource b) (act_Namespace b) name) (\<lambda>old.
          io_bind (lift_sum (patch_object env ApplyPatchType patch old)) (\<lambda>obj.
          io_then (tracker_add (act_Resource b) obj (act_Namespace b) True)
          (io_bind (tracker_Get (act_Resource b) (act_Namespace b) name) got_object))))"

fun ObjectReaction :: "fake_env \<Rightarrow> fake_action \<Rightarrow> (tracker, bool \<times> robj \<times> gerr option) io" where
  "ObjectReaction env (ListActionImpl b kind l f) =
     reaction_of (io_bind (tracker_List env (act_Resource b) kind (act_Namespace b)) (\<lambda>xs.
       io_ret (SmsListObject (Some xs))))"
| "ObjectReaction env (GetActionImpl b name o1) =
     reaction_of (io_bind (tracker_Get (act_Resource b) (act_Namespace b) name) got_object)"
| "ObjectReaction env (CreateActionImpl b x o1) = reaction_of (react_Create b x)"
| "ObjectReaction env (UpdateActionImpl b x o1) = reaction_of (react_Update b x)"
| "ObjectReaction env (DeleteActionImpl b name o1) =
     reaction_of (io_then (tracker_Delete (act_Resource b) (act_Namespace b) name) (io_ret NilObject))"
| "ObjectReaction env (PatchActionImpl b name pt patch o1) =
     reaction_of (if pt = ApplyPatchType then react_Apply env b name patch else react_Patch env b name pt patch)"
| "ObjectReaction env (WatchActionImpl b o1 l f) =
     io_ret (False, NilObject, Some (Plain ''no reaction implemented''))"
| "ObjectReaction env (DeleteCollectionActionImpl b o1 o2 l f) =
     io_ret (False, NilObject, Some (Plain ''no reaction implemented''))"

subsection \<open>The fake and its chains of reactors\<close>

record reactor =
  re_Verb :: string
  re_Resource :: string
  re_Reaction :: "fake_action \<Rightarrow> (tracker, bool \<times> robj \<times> gerr option) io"

record watch_reactor =
  wr_Resource :: string
  wr_Reaction :: "fake_action \<Rightarrow> (tracker, bool \<times> nat option \<times> gerr option) io"

text \<open>\<open>Clientset\<close>: the embedded \<open>testing.Fake\<close> and the tracker that the reactions work on.\<close>

record fake =
  fk_actions :: "fake_action list"
  ReactionChain :: "reactor list"
  WatchReactionChain :: "watch_reactor list"
  fk_tracker :: tracker

definition resourceCovers :: "string \<Rightarrow> fake_action \<Rightarrow> bool" where
  "resourceCovers resource action =
     (let b = action_base action;
          before = takeWhile (\<lambda>c. c \<noteq> CHR ''/'') resource
      in resource = ''*'' \<or> resource = gvr_resource (act_Resource b) \<or>
         (CHR ''/'' \<in> set resource \<and> before = gvr_resource (act_Resource b) \<and>
          drop (length before + 1) resource = act_Subresource b))"

definition Handles :: "reactor \<Rightarrow> fake_action \<Rightarrow> bool" where
  "Handles r action \<longleftrightarrow>
     (re_Verb r = ''*'' \<or> re_Verb r = act_Verb (action_base action)) \<and> resourceCovers (re_Resource r) action"

fun react :: "reactor list \<Rightarrow> fake_action \<Rightarrow> robj \<Rightarrow> (tracker, robj \<times> gerr option) io" where
  "react [] action d = io_ret (d, None)"
| "react (r # rs) action d =
     (if \<not> Handles r action then react rs action d
      else io_bind (re_Reaction r action) (\<lambda>(handled, ret, err).
           if \<not> handled then react rs action d else io_ret (ret, err)))"

fun react_watch :: "fake_env \<Rightarrow> watch_reactor list \<Rightarrow> fake_action \<Rightarrow> (tracker, nat option \<times> gerr option) io" where
  "react_watch env [] action = io_ret (None, Some (unhandled_watch env action))"
| "react_watch env (r # rs) action =
     (if \<not> resourceCovers (wr_Resource r) action then react_watch env rs action
      else io_bind (wr_Reaction r action) (\<lambda>(handled, ret, err).
           if \<not> handled then react_watch env rs action else io_ret (ret, err)))"

text \<open>A computation on the tracker, after the action is recorded.\<close>

definition recorded :: "fake_action \<Rightarrow> (tracker, 'a) io \<Rightarrow> (fake, 'a) io" where
  "recorded action m fk =
     (case m (fk_tracker fk) of
        (r, t) \<Rightarrow> (r, fk\<lparr>fk_actions := fk_actions fk @ [action], fk_tracker := t\<rparr>))"

definition Invokes :: "fake_action \<Rightarrow> robj \<Rightarrow> (fake, robj \<times> gerr option) io" where
  "Invokes action defaultReturnObj fk =
     recorded action (react (ReactionChain fk) action defaultReturnObj) fk"

definition InvokesWatch :: "fake_env \<Rightarrow> fake_action \<Rightarrow> (fake, nat option \<times> gerr option) io" where
  "InvokesWatch env action fk =
     recorded action (react_watch env (WatchReactionChain fk) action) fk"

definition AddReactor ::
  "string \<Rightarrow> string \<Rightarrow> (fake_action \<Rightarrow> (tracker, bool \<times> robj \<times> gerr option) io) \<Rightarrow> fake \<Rightarrow> fake" where
  "AddReactor verb resource reaction fk =
     fk\<lparr>ReactionChain := ReactionChain fk @ [\<lparr>re_Verb = verb, re_Resource = resource, re_Reaction = reaction\<rparr>]\<rparr>"

definition PrependReactor ::
  "string \<Rightarrow> string \<Rightarrow> (fake_action \<Rightarrow> (tracker, bool \<times> robj \<times> gerr option) io) \<Rightarrow> fake \<Rightarrow> fake" where
  "PrependReactor verb resource reaction fk =
     fk\<lparr>ReactionChain := \<lparr>re_Verb = verb, re_Resource = resource, re_Reaction = reaction\<rparr> # ReactionChain fk\<rparr>"

definition AddWatchReactor ::
  "string \<Rightarrow> (fake_action \<Rightarrow> (tracker, bool \<times> nat option \<times> gerr option) io) \<Rightarrow> fake \<Rightarrow> fake" where
  "AddWatchReactor resource reaction fk =
     fk\<lparr>WatchReactionChain := WatchReactionChain fk @ [\<lparr>wr_Resource = resource, wr_Reaction = reaction\<rparr>]\<rparr>"

subsection \<open>The typed fake client\<close>

text \<open>\<open>obj.(*T)\<close> panics for an object of another type.\<close>

definition as_sms :: "robj \<Rightarrow> ('s, fake_sms option) io" where
  "as_sms obj = (case obj of SmsObject p \<Rightarrow> io_ret p | _ \<Rightarrow> io_panic ''interface conversion'')"

definition as_sms_list :: "robj \<Rightarrow> ('s, fake_sms_list option) io" where
  "as_sms_list obj = (case obj of SmsListObject p \<Rightarrow> io_ret p | _ \<Rightarrow> io_panic ''interface conversion'')"

definition sms_or_nil :: "robj \<times> gerr option \<Rightarrow> ('s, fake_sms option \<times> gerr option) io" where
  "sms_or_nil r =
     (case r of (obj, err) \<Rightarrow>
        if obj = NilObject then io_ret (None, err)
        else io_bind (as_sms obj) (\<lambda>p. io_ret (p, err)))"

definition FakeSnapshotMetadataServices_Get ::
  "string \<Rightarrow> get_options \<Rightarrow> (fake, fake_sms option \<times> gerr option) io" where
  "FakeSnapshotMetadataServices_Get name options =
     io_bind (Invokes (NewRootGetAction snapshotmetadataservicesResource name) (SmsObject (Some zero_fake_sms)))
     sms_or_nil"

definition FakeSnapshotMetadataServices_List ::
  "fake_env \<Rightarrow> list_options \<Rightarrow> (fake, fake_sms_list option \<times> gerr option) io" where
  "FakeSnapshotMetadataServices_List env opts =
     io_bind (NewRootListAction env snapshotmetadataservicesResource snapshotmetadataservicesKind opts) (\<lambda>action.
     io_bind (Invokes action (SmsListObject (Some \<lparr>fsl_ResourceVersion = [], fsl_Items = []\<rparr>))) (\<lambda>(obj, err).
     if obj = NilObject then io_ret (None, err)
     else io_bind (ExtractFromListOptions env opts) (\<lambda>(label, _).
          io_bind (as_sms_list obj) (\<lambda>p.
          io_bind (deref p) (\<lambda>l.
          io_ret (Some \<lparr>fsl_ResourceVersion = fsl_ResourceVersion l,
                        fsl_Items = filter (\<lambda>item. fsel_Matches label (fs_Labels item)) (fsl_Items l)\<rparr>, err))))))"

definition FakeSnapshotMetadataServices_Watch ::
  "fake_env \<Rightarrow> list_options \<Rightarrow> (fake, nat option \<times> gerr option) io" where
  "FakeSnapshotMetadataServices_Watch env opts =
     io_bind (NewRootWatchAction env snapshotmetadataservicesResource opts) (InvokesWatch env)"

definition FakeSnapshotMetadataServices_Create ::
  "fake_sms option \<Rightarrow> write_options \<Rightarrow> (fake, fake_sms option \<times> gerr option) io" where
  "FakeSnapshotMetadataServices_Create snapshotMetadataService opts =
     io_bind (Invokes (NewRootCreateAction snapshotmetadataservicesResource snapshotMetadataService)
       (SmsObject (Some zero_fake_sms)))
     sms_or_nil"

definition FakeSnapshotMetadataServices_Update ::
  "fake_sms option \<Rightarrow> write_options \<Rightarrow> (fake, fake_sms option \<times> gerr option) io" where
  "FakeSnapshotMetadataServices_Update snapshotMetadataService opts =
     io_bind (Invokes (NewRootUpdateAction snapshotmetadataservicesResource snapshotMetadataService)
       (SmsObject (Some zero_fake_sms)))
     sms_or_nil"

definition FakeSnapshotMetadataServices_Delete :: "string \<Rightarrow> delete_options \<Rightarrow> (fake, gerr option) io" where
  "FakeSnapshotMetadataServices_Delete name opts =
     io_bind (Invokes (NewRootDeleteActionWithOptions snapshotmetadataservicesResource name opts)
       (SmsObject (Some zero_fake_sms)))
     (\<lambda>(_, err). io_ret err)"

definition FakeSnapshotMetadataServices_DeleteCollection ::
  "fake_env \<Rightarrow> delete_options \<Rightarrow> list_options \<Rightarrow> (fake, gerr option) io" where
  "FakeSnapshotMetadataServices_DeleteCollection env opts listOpts =
     io_bind (NewRootDeleteCollectionAction env snapshotmetadataservicesResource listOpts) (\<lambda>action.
     io_bind (Invokes action (SmsListObject (Some \<lparr>fsl_ResourceVersion = [], fsl_Items = []\<rparr>))) (\<lambda>(_, err).
     io_ret err))"

definition FakeSnapshotMetadataServices_Patch ::
  "string \<Rightarrow> string \<Rightarrow> string \<Rightarrow> patch_options \<Rightarrow> string list \<Rightarrow> (fake, fake_sms option \<times> gerr option) io" where
  "FakeSnapshotMetadataServices_Patch name pt data opts subresources =
     io_bind (Invokes (NewRootPatchSubresourceAction snapshotmetadataservicesResource name pt data subresources)
       (SmsObject (Some zero_fake_sms)))
     sms_or_nil"

text \<open>The REST client of the fake is a nil pointer.\<close>

definition FakeCbtV1beta1_RESTClient :: "rest_client option" where
  "FakeCbtV1beta1_RESTClient = None"

subsection \<open>The fake clientset\<close>

definition lowercase :: "string \<Rightarrow> string" where
  "lowercase = map (\<lambda>c. if CHR ''A'' \<le> c \<and> c \<le> CHR ''Z'' then char_of (of_char c + 32 :: nat) else c)"

definition has_suffix :: "string \<Rightarrow> string \<Rightarrow> bool" where
  "has_suffix s suf \<longleftrightarrow> length suf \<le> length s \<and> drop (length s - length suf) s = suf"

definition UnsafeGuessKindToResource :: "group_version_kind \<Rightarrow> group_version_resource" where
  "UnsafeGuessKindToResource gvk =
     (let (group, version, kindName) = gvk;
          singularName = lowercase kindName;
          resource = (\<lambda>r. \<lparr>gvr_group = group, gvr_version = version, gvr_resource = r\<rparr>)
      in if kindName = [] then \<lparr>gvr_group = [], gvr_version = [], gvr_resource = []\<rparr>
         else if has_suffix singularName ''endpoints'' then resource singularName
         else if last singularName = CHR ''s'' then resource (singularName @ ''es'')
         else if last singularName = CHR ''y'' then resource (butlast singularName @ ''ies'')
         else resource (singularName @ ''s''))"

text \<open>The objects that may be given are services and lists of services.\<close>

datatype fake_arg = ObjArg fake_sms | ListArg "fake_sms list"

fun arg_objects :: "fake_arg \<Rightarrow> fake_sms list" where
  "arg_objects (ObjArg o1) = [o1]"
| "arg_objects (ListArg os) = os"

fun add_objects :: "fake_sms list \<Rightarrow> (tracker, unit) io" where
  "add_objects [] = io_ret ()"
| "add_objects (o1 # os) =
     io_then (tracker_add (UnsafeGuessKindToResource snapshotmetadataservicesKind) o1 (fs_Namespace o1) False)
     (add_objects os)"

definition tracker_Add :: "fake_arg \<Rightarrow> (tracker, unit) io" where
  "tracker_Add obj = add_objects (arg_objects obj)"

fun add_all :: "fake_arg list \<Rightarrow> (tracker, unit) io" where
  "add_all [] = io_ret ()"
| "add_all (obj # objs) =
     io_then (io_catch (tracker_Add obj) (\<lambda>err. io_panic (error_text err))) (add_all objs)"

definition watch_reaction :: "fake_action \<Rightarrow> (tracker, bool \<times> nat option \<times> gerr option) io" where
  "watch_reaction action =
     (let gvr = act_Resource (action_base action);
          ns = act_Namespace (action_base action)
      in io_catch (io_bind (tracker_Watch gvr ns) (\<lambda>w. io_ret (True, Some w, None)))
           (\<lambda>err. io_ret (False, None, Some err)))"

definition NewSimpleClientset :: "fake_env \<Rightarrow> fake_arg list \<Rightarrow> exn + fake" where
  "NewSimpleClientset env objects =
     (case add_all objects NewObjectTracker of
        (Inl e, t) \<Rightarrow> Inl e
      | (Inr _, o1) \<Rightarrow>
          Inr (AddWatchReactor ''*'' watch_reaction
              (AddReactor ''*'' ''*'' (ObjectReaction env)
                \<lparr>fk_actions = [], ReactionChain = [], WatchReactionChain = [], fk_tracker = o1\<rparr>)))"

definition fake_Tracker :: "fake \<Rightarrow> tracker" where
  "fake_Tracker c = fk_tracker c"

end
