(* ===== verification/FakeStore.thy ===== *)
theory FakeStore
  imports FakeClientset "HOL-Library.Multiset"
begin

text \<open>
  What the fake clientset promises: it behaves as a store of objects with a resource version and a queue of
  events for every watcher. The tracker keeps the store under an invariant; the locale \<open>op_simulation\<close> lifts the
  simulation of one call to runs.
\<close>

subsection \<open>The store that the fake stands for\<close>

text \<open>
  The objects by namespace and name, the resource version of the collection, and for every watcher
  the events since it was made.
\<close>

record fake_store =
  st_objects :: "(string \<times> string) \<rightharpoonup> fake_sms"
  st_version :: int64
  st_queues :: "watch_event list list"

text \<open>A write is seen by every watcher; a deletion leaves the resource version as it is.\<close>

definition store_emit :: "watch_event \<Rightarrow> fake_store \<Rightarrow> fake_store" where
  "store_emit ev s = s\<lparr>st_queues := map (\<lambda>q. q @ [ev]) (st_queues s)\<rparr>"

definition store_put :: "fake_sms \<Rightarrow> fake_store \<Rightarrow> fake_store" where
  "store_put x s = s\<lparr>st_objects := (st_objects s)(obj_key x \<mapsto> x), st_version := st_version s + 1\<rparr>"

definition store_add :: "bool \<Rightarrow> fake_sms \<Rightarrow> fake_store \<Rightarrow> gerr + fake_store" where
  "store_add replace x s =
     (if fs_Namespace x \<noteq> [] then Inl (namespace_mismatch [] (fs_Namespace x))
      else if st_objects s (obj_key x) \<noteq> None
      then (if replace then Inr (store_emit (Modified x) (store_put x s))
            else Inl (api_AlreadyExists snapshotmetadataservicesResource (sms_name x)))
      else (if replace then Inl (api_NotFound snapshotmetadataservicesResource (sms_name x))
            else Inr (store_emit (Added x) (store_put x s))))"

definition store_delete :: "string \<Rightarrow> fake_store \<Rightarrow> gerr + fake_store" where
  "store_delete name s =
     (case st_objects s ([], name) of
        None \<Rightarrow> Inl (api_NotFound snapshotmetadataservicesResource name)
      | Some x \<Rightarrow> Inr (store_emit (Deleted x) (s\<lparr>st_objects := (st_objects s)(([], name) := None)\<rparr>)))"

definition store_get :: "string \<Rightarrow> fake_store \<Rightarrow> gerr + fake_sms" where
  "store_get name s =
     (case st_objects s ([], name) of
        None \<Rightarrow> Inl (api_NotFound snapshotmetadataservicesResource name)
      | Some x \<Rightarrow> Inr x)"

definition store_sorted :: "fake_store \<Rightarrow> fake_sms list" where
  "store_sorted s = map (\<lambda>k. the (st_objects s k)) (sorted_list_of_set (dom (st_objects s)))"

text \<open>The calls of the typed client, and what a caller sees of them.\<close>

datatype fake_op =
  FGet string get_options
| FList list_options
| FWatch list_options
| FCreate "fake_sms option" write_options
| FUpdate "fake_sms option" write_options
| FDelete string delete_options
| FDeleteCollection delete_options list_options
| FPatch string string string patch_options "string list"

datatype fake_outcome =
  GotObject "fake_sms option" "gerr option"
| GotList "fake_sms_list option" "gerr option"
| GotWatch "nat option" "gerr option"
| GotError "gerr option"
| GotPanic exn

definition outcome :: "('a \<Rightarrow> fake_outcome) \<Rightarrow> (fake, 'a) io \<Rightarrow> fake \<Rightarrow> fake_outcome \<times> fake" where
  "outcome f m fk = (case m fk of (Inl e, fk') \<Rightarrow> (GotPanic e, fk') | (Inr x, fk') \<Rightarrow> (f x, fk'))"

fun fake_op_run :: "fake_env \<Rightarrow> fake_op \<Rightarrow> fake \<Rightarrow> fake_outcome \<times> fake" where
  "fake_op_run env (FGet name o1) = outcome (\<lambda>(x, e). GotObject x e) (FakeSnapshotMetadataServices_Get name o1)"
| "fake_op_run env (FList o1) = outcome (\<lambda>(x, e). GotList x e) (FakeSnapshotMetadataServices_List env o1)"
| "fake_op_run env (FWatch o1) = outcome (\<lambda>(x, e). GotWatch x e) (FakeSnapshotMetadataServices_Watch env o1)"
| "fake_op_run env (FCreate x o1) = outcome (\<lambda>(x, e). GotObject x e) (FakeSnapshotMetadataServices_Create x o1)"
| "fake_op_run env (FUpdate x o1) = outcome (\<lambda>(x, e). GotObject x e) (FakeSnapshotMetadataServices_Update x o1)"
| "fake_op_run env (FDelete name o1) = outcome GotError (FakeSnapshotMetadataServices_Delete name o1)"
| "fake_op_run env (FDeleteCollection o1 o2) =
     outcome GotError (FakeSnapshotMetadataServices_DeleteCollection env o1 o2)"
| "fake_op_run env (FPatch name pt data o1 sub) =
     outcome (\<lambda>(x, e). GotObject x e) (FakeSnapshotMetadataServices_Patch name pt data o1 sub)"

fun op_selectors :: "fake_op \<Rightarrow> list_options option" where
  "op_selectors (FList o1) = Some o1"
| "op_selectors (FWatch o1) = Some o1"
| "op_selectors (FDeleteCollection o1 o2) = Some o2"
| "op_selectors op = None"

definition store_changed :: "fake_sms option \<Rightarrow> fake_store \<Rightarrow> gerr + fake_store \<Rightarrow> fake_outcome \<times> fake_store" where
  "store_changed x s r =
     (case r of Inl e \<Rightarrow> (GotObject None (Some e), s) | Inr s' \<Rightarrow> (GotObject x None, s'))"

text \<open>A patch; an apply patch returns what is then stored under the name, the others the patched object.\<close>

definition store_patch ::
  "fake_env \<Rightarrow> string \<Rightarrow> string \<Rightarrow> string \<Rightarrow> fake_store \<Rightarrow> fake_outcome \<times> fake_store" where
  "store_patch env name pt patch s =
     (case (if pt = ApplyPatchType then decode_apply env patch else None) of
        Some e \<Rightarrow> (GotObject None (Some e), s)
      | None \<Rightarrow>
          (case store_get name s of
             Inl e \<Rightarrow> (GotObject None (Some e), s)
           | Inr old \<Rightarrow>
               (case patch_object env pt patch old of
                  Inl e \<Rightarrow> (GotObject None (Some e), s)
                | Inr new \<Rightarrow>
                    (case store_add True new s of
                       Inl e \<Rightarrow> (GotObject None (Some e), s)
                     | Inr s' \<Rightarrow> (GotObject (if pt = ApplyPatchType then st_objects s' ([], name) else Some new) None, s')))))"

text \<open>
  One call on the store: selectors of labels filter a list, selectors of fields, limits and
  every other option do nothing, and neither does \<open>DeleteCollection\<close>.
\<close>

fun store_step :: "fake_env \<Rightarrow> fake_op \<Rightarrow> fake_selector \<Rightarrow> fake_store \<Rightarrow> fake_outcome \<times> fake_store" where
  "store_step env (FGet name o1) l s =
     (case store_get name s of
        Inl e \<Rightarrow> (GotObject None (Some e), s) | Inr x \<Rightarrow> (GotObject (Some x) None, s))"
| "store_step env (FList o1) l s =
     (GotList (Some \<lparr>fsl_ResourceVersion = int64_text (st_version s),
        fsl_Items = filter (\<lambda>x. fsel_Matches l (fs_Labels x)) (store_sorted s)\<rparr>) None, s)"
| "store_step env (FWatch o1) l s =
     (GotWatch (Some (length (st_queues s))) None, s\<lparr>st_queues := st_queues s @ [[]]\<rparr>)"
| "store_step env (FCreate x o1) l s =
     (case x of None \<Rightarrow> (GotObject None (Some errNotObject), s) | Some y \<Rightarrow> store_changed x s (store_add False y s))"
| "store_step env (FUpdate x o1) l s =
     (case x of None \<Rightarrow> (GotObject None (Some errNotObject), s) | Some y \<Rightarrow> store_changed x s (store_add True y s))"
| "store_step env (FDelete name o1) l s =
     (case store_delete name s of Inl e \<Rightarrow> (GotError (Some e), s) | Inr s' \<Rightarrow> (GotError None, s'))"
| "store_step env (FDeleteCollection o1 o2) l s = (GotError None, s)"
| "store_step env (FPatch name pt patch o1 sub) l s = store_patch env name pt patch s"

text \<open>A selector that does not parse panics before anything is done or recorded.\<close>

definition store_run :: "fake_env \<Rightarrow> fake_op \<Rightarrow> fake_store \<Rightarrow> fake_outcome \<times> fake_store" where
  "store_run env op s =
     (case op_selectors op of
        None \<Rightarrow> store_step env op \<lparr>fsel_String = [], fsel_Matches = (\<lambda>_. True)\<rparr> s
      | Some opts \<Rightarrow>
          (case fst (ExtractFromListOptions env opts s) of
             Inl e \<Rightarrow> (GotPanic e, s)
           | Inr (l, f) \<Rightarrow> store_step env op l s))"

fun run_calls :: "('op \<Rightarrow> 's \<Rightarrow> 'r \<times> 's) \<Rightarrow> 'op list \<Rightarrow> 's \<Rightarrow> 'r list \<times> 's" where
  "run_calls f [] s = ([], s)"
| "run_calls f (op # ops) s =
     (let (r, s1) = f op s; (rs, s2) = run_calls f ops s1 in (r # rs, s2))"

definition tracker_view :: "tracker \<Rightarrow> fake_store" where
  "tracker_view t =
     \<lparr>st_objects = (\<lambda>k. map_option snd (map_of (tracker_entries t snapshotmetadataservicesResource) k)),
      st_version = tracker_version t snapshotmetadataservicesResource,
      st_queues = map fw_result (tk_channels t)\<rparr>"

definition tracker_good :: "nat \<Rightarrow> tracker \<Rightarrow> bool" where
  "tracker_good n t \<longleftrightarrow>
     distinct (map fst (tracker_entries t snapshotmetadataservicesResource)) \<and>
     (\<forall>(k, v, x) \<in> set (tracker_entries t snapshotmetadataservicesResource). k = obj_key x) \<and>
     getWatches t snapshotmetadataservicesResource [] = [0..<length (tk_channels t)] \<and>
     (\<forall>w \<in> set (tk_channels t). \<not> fw_Stopped w \<and> length (fw_result w) + n \<le> DefaultChanSize) \<and>
     n \<le> DefaultChanSize"

subsection \<open>The tracker keeps the store\<close>

lemma tracker_good_mono: "tracker_good n t \<Longrightarrow> m \<le> n \<Longrightarrow> tracker_good m t"
  unfolding tracker_good_def by fastforce

lemma notify_from:
  assumes "\<forall>w \<in> set (drop k (tk_channels t)). \<not> fw_Stopped w \<and> length (fw_result w) < DefaultChanSize"
    and "k \<le> length (tk_channels t)"
  shows "notify ev [k..<length (tk_channels t)] t =
    (Inr (), t\<lparr>tk_channels := take k (tk_channels t) @
       map (\<lambda>w. w\<lparr>fw_result := fw_result w @ [ev]\<rparr>) (drop k (tk_channels t))\<rparr>)"
  using assms
proof (induction "length (tk_channels t) - k" arbitrary: k t)
  case 0
  then show ?case by simp
next
  case (Suc d)
  let ?c = "tk_channels t"
  let ?w = "(?c ! k)\<lparr>fw_result := fw_result (?c ! k) @ [ev]\<rparr>"
  let ?t = "t\<lparr>tk_channels := ?c[k := ?w]\<rparr>"
  have k: "k < length ?c" using Suc.hyps(2) by simp
  have drop: "drop k ?c = ?c ! k # drop (Suc k) ?c" using k by (simp add: Cons_nth_drop_Suc)
  have "notify ev [Suc k..<length (tk_channels ?t)] ?t = (Inr (), ?t\<lparr>tk_channels := take (Suc k) (tk_channels ?t) @
      map (\<lambda>w. w\<lparr>fw_result := fw_result w @ [ev]\<rparr>) (drop (Suc k) (tk_channels ?t))\<rparr>)"
    by (rule Suc.hyps(1)) (use Suc.hyps(2) Suc.prems k drop in auto)
  moreover have "take (Suc k) (?c[k := ?w]) = take k ?c @ [?w]"
    using k by (simp add: take_Suc_conv_app_nth)
  ultimately show ?case
    using k Suc.prems(1) unfolding drop by (simp add: upt_conv_Cons Let_def)
qed

lemma notify_all:
  assumes "\<forall>w \<in> set (tk_channels t). \<not> fw_Stopped w \<and> length (fw_result w) < DefaultChanSize"
  shows "notify ev [0..<length (tk_channels t)] t =
    (Inr (), t\<lparr>tk_channels := map (\<lambda>w. w\<lparr>fw_result := fw_result w @ [ev]\<rparr>) (tk_channels t)\<rparr>)"
  using notify_from [of 0 t ev] assms by simp

lemma tracker_Get_view:
  "tracker_Get snapshotmetadataservicesResource [] name t =
     (case store_get name (tracker_view t) of Inl e \<Rightarrow> (Inl (Failed e), t) | Inr x \<Rightarrow> (Inr x, t))"
  by (simp add: tracker_Get_def store_get_def tracker_view_def split: option.split)

lemma getWatches_update [simp]:
  "getWatches (t\<lparr>tk_objects := a\<rparr>) gvr ns = getWatches t gvr ns"
  "getWatches (t\<lparr>tk_resourceVersions := b\<rparr>) gvr ns = getWatches t gvr ns"
  "getWatches (t\<lparr>tk_channels := c\<rparr>) gvr ns = getWatches t gvr ns"
  by (simp_all add: getWatches_def)

lemma tracker_entries_update [simp]:
  "tracker_entries (t\<lparr>tk_objects := (tk_objects t)(gvr \<mapsto> es)\<rparr>) gvr = es"
  "tracker_entries (t\<lparr>tk_resourceVersions := b\<rparr>) gvr = tracker_entries t gvr"
  "tracker_entries (t\<lparr>tk_channels := c\<rparr>) gvr = tracker_entries t gvr"
  "tracker_entries (t\<lparr>tk_watchers := w\<rparr>) gvr = tracker_entries t gvr"
  by (simp_all add: tracker_entries_def)

lemma tracker_version_update [simp]:
  "tracker_version (t\<lparr>tk_resourceVersions := (tk_resourceVersions t)(gvr \<mapsto> v)\<rparr>) gvr = v"
  "tracker_version (t\<lparr>tk_objects := a\<rparr>) gvr = tracker_version t gvr"
  "tracker_version (t\<lparr>tk_channels := c\<rparr>) gvr = tracker_version t gvr"
  "tracker_version (t\<lparr>tk_watchers := w\<rparr>) gvr = tracker_version t gvr"
  by (simp_all add: tracker_version_def)

text \<open>An event of a changed tracker reaches every watcher.\<close>

lemma notify_view:
  assumes t: "tracker_good (Suc n) t"
    and keys: "distinct (map fst (tracker_entries t' snapshotmetadataservicesResource))"
      "\<forall>(k, v, x) \<in> set (tracker_entries t' snapshotmetadataservicesResource). k = obj_key x"
    and same: "tk_channels t' = tk_channels t"
      "getWatches t' snapshotmetadataservicesResource [] = getWatches t snapshotmetadataservicesResource []"
  shows "\<exists>u. notify ev (getWatches t snapshotmetadataservicesResource []) t' = (Inr (), u) \<and>
    tracker_view u = store_emit ev (tracker_view t') \<and> tracker_good n u"
proof -
  have room: "\<forall>w \<in> set (tk_channels t'). \<not> fw_Stopped w \<and> length (fw_result w) < DefaultChanSize"
    using t unfolding tracker_good_def same by auto
  have w: "getWatches t snapshotmetadataservicesResource [] = [0..<length (tk_channels t')]"
    using t unfolding tracker_good_def same by simp
  let ?u = "t'\<lparr>tk_channels := map (\<lambda>w. w\<lparr>fw_result := fw_result w @ [ev]\<rparr>) (tk_channels t')\<rparr>"
  have "tracker_good n ?u"
    using t keys unfolding tracker_good_def by (auto simp: same)
  moreover have "tracker_view ?u = store_emit ev (tracker_view t')"
    by (simp add: tracker_view_def store_emit_def)
  ultimately show ?thesis
    using notify_all [OF room, of ev] w by simp
qed

lemma update_keys:
  assumes "distinct (map fst es)" "\<forall>(k, v, x) \<in> set es. k = obj_key x"
  shows "distinct (map fst (AList.update (obj_key y) (w, y) es))"
    "\<forall>(k, v, x) \<in> set (AList.update (obj_key y) (w, y) es). k = obj_key x"
proof -
  show "distinct (map fst (AList.update (obj_key y) (w, y) es))"
    using assms(1) by (rule distinct_update)
  have "set (AList.update (obj_key y) (w, y) es) \<subseteq> insert (obj_key y, w, y) (set es)"
    by (induction es) auto
  then show "\<forall>(k, v, x) \<in> set (AList.update (obj_key y) (w, y) es). k = obj_key x"
    using assms(2) by blast
qed

lemma delete_keys:
  assumes "distinct (map fst es)" "\<forall>(k, v, x) \<in> set es. k = obj_key x"
  shows "distinct (map fst (AList.delete k0 es))"
    "\<forall>(k, v, x) \<in> set (AList.delete k0 es). k = obj_key x"
  using assms by (auto simp: AList.delete_eq distinct_map_filter)

text \<open>The tracker after the entry of an object is written, and before the watchers are told.\<close>

definition tracker_put :: "fake_sms \<Rightarrow> tracker \<Rightarrow> tracker" where
  "tracker_put x t =
     (let v = tracker_version t snapshotmetadataservicesResource + 1
      in t\<lparr>tk_resourceVersions := (tk_resourceVersions t)(snapshotmetadataservicesResource \<mapsto> v),
           tk_objects := (tk_objects t)(snapshotmetadataservicesResource \<mapsto>
             AList.update (obj_key x) (v, x) (tracker_entries t snapshotmetadataservicesResource))\<rparr>)"

definition tracker_touch :: "tracker \<Rightarrow> tracker" where
  "tracker_touch t = t\<lparr>tk_objects :=
     (tk_objects t)(snapshotmetadataservicesResource \<mapsto> tracker_entries t snapshotmetadataservicesResource)\<rparr>"

lemma tracker_put_view: "tracker_view (tracker_put x t) = store_put x (tracker_view t)"
  by (auto simp: tracker_view_def store_put_def tracker_put_def Let_def tracker_entries_def tracker_version_def
      update_conv' fun_eq_iff)

lemma tracker_put_keys:
  assumes "tracker_good n t"
  shows "distinct (map fst (tracker_entries (tracker_put x t) snapshotmetadataservicesResource))"
    "\<forall>(k, v, y) \<in> set (tracker_entries (tracker_put x t) snapshotmetadataservicesResource). k = obj_key y"
proof -
  let ?es = "tracker_entries t snapshotmetadataservicesResource"
  let ?v = "tracker_version t snapshotmetadataservicesResource + 1"
  have put: "tracker_entries (tracker_put x t) snapshotmetadataservicesResource = AList.update (obj_key x) (?v, x) ?es"
    by (simp add: tracker_put_def Let_def tracker_entries_def)
  have "distinct (map fst ?es)" "\<forall>(k, v, y) \<in> set ?es. k = obj_key y"
    using assms unfolding tracker_good_def by blast+
  from update_keys [OF this, of x ?v]
  show "distinct (map fst (tracker_entries (tracker_put x t) snapshotmetadataservicesResource))"
    "\<forall>(k, v, y) \<in> set (tracker_entries (tracker_put x t) snapshotmetadataservicesResource). k = obj_key y"
    unfolding put by blast+
qed

lemma tracker_put_same [simp]:
  "tk_channels (tracker_put x t) = tk_channels t"
  "tk_watchers (tracker_put x t) = tk_watchers t"
  "getWatches (tracker_put x t) gvr ns = getWatches t gvr ns"
  by (simp_all add: tracker_put_def Let_def getWatches_def)

lemma tracker_touch_same [simp]:
  "tk_watchers (tracker_touch t) = tk_watchers t"
  "tk_channels (tracker_touch t) = tk_channels t"
  "tracker_view (tracker_touch t) = tracker_view t"
  "tracker_good n (tracker_touch t) = tracker_good n t"
  by (simp_all add: tracker_touch_def tracker_view_def tracker_good_def)

lemma tracker_add_put:
  assumes "ns = fs_Namespace x"
  shows "tracker_add snapshotmetadataservicesResource x ns replace t =
     (if st_objects (tracker_view t) (obj_key x) \<noteq> None
      then if replace then notify (Modified x) (getWatches t snapshotmetadataservicesResource ns) (tracker_put x t)
           else (Inl (Failed (api_AlreadyExists snapshotmetadataservicesResource (sms_name x))), tracker_touch t)
      else if replace then (Inl (Failed (api_NotFound snapshotmetadataservicesResource (sms_name x))), tracker_touch t)
      else notify (Added x) (getWatches t snapshotmetadataservicesResource ns) (tracker_put x t))"
proof -
  have x: "(if fs_Namespace x = [] then x\<lparr>fs_Namespace := fs_Namespace x\<rparr> else x) = x" by simp
  show ?thesis
    unfolding assms tracker_add_def Let_def x
    by (simp add: tracker_put_def tracker_touch_def Let_def tracker_view_def)
qed

lemma tracker_add_view:
  assumes t: "tracker_good (Suc n) t"
  shows "\<exists>t'. (case store_add replace x (tracker_view t) of
      Inl e \<Rightarrow> tracker_add snapshotmetadataservicesResource x [] replace t = (Inl (Failed e), t') \<and>
        tracker_view t' = tracker_view t \<and> tracker_good n t'
    | Inr s \<Rightarrow> tracker_add snapshotmetadataservicesResource x [] replace t = (Inr (), t') \<and>
        tracker_view t' = s \<and> tracker_good n t')"
proof (cases "fs_Namespace x = []")
  case False
  with tracker_good_mono [OF t, of n] show ?thesis
    by (auto simp: store_add_def tracker_add_def)
next
  case True
  have ev: "\<exists>u. notify e (getWatches t snapshotmetadataservicesResource []) (tracker_put x t) = (Inr (), u) \<and>
      tracker_view u = store_emit e (store_put x (tracker_view t)) \<and> tracker_good n u" for e
    unfolding tracker_put_view [symmetric]
    by (rule notify_view [OF t]) (simp_all add: tracker_put_keys [OF t])
  note run = tracker_add_put [of "[]" x replace t, OF True [symmetric]]
  show ?thesis
    unfolding run using True ev [of "Modified x"] ev [of "Added x"] tracker_good_mono [OF t, of n]
    by (auto simp: store_add_def)
qed

lemma tracker_Delete_view:
  assumes t: "tracker_good (Suc n) t"
  shows "\<exists>t'. (case store_delete name (tracker_view t) of
      Inl e \<Rightarrow> tracker_Delete snapshotmetadataservicesResource [] name t = (Inl (Failed e), t') \<and>
        tracker_view t' = tracker_view t \<and> tracker_good n t'
    | Inr s \<Rightarrow> tracker_Delete snapshotmetadataservicesResource [] name t = (Inr (), t') \<and>
        tracker_view t' = s \<and> tracker_good n t')"
proof (cases "map_of (tracker_entries t snapshotmetadataservicesResource) ([], name)")
  case None
  with tracker_good_mono [OF t, of n] show ?thesis
    by (auto simp: store_delete_def tracker_Delete_def tracker_view_def)
next
  case (Some vx)
  obtain v x where vx: "vx = (v, x)" by (cases vx)
  define es where "es = tracker_entries t snapshotmetadataservicesResource"
  define t2 where
    "t2 = t\<lparr>tk_objects := (tk_objects t)(snapshotmetadataservicesResource \<mapsto> AList.delete ([], name) es)\<rparr>"
  have "distinct (map fst es)" "\<forall>(k, v, x) \<in> set es. k = obj_key x"
    using t by (simp_all add: tracker_good_def es_def)
  note keys = delete_keys [OF this, of "([], name)"]
  have es2: "tracker_entries t2 snapshotmetadataservicesResource = AList.delete ([], name) es"
    by (simp add: t2_def tracker_entries_def)
  have "\<exists>u. notify (Deleted x) (getWatches t snapshotmetadataservicesResource []) t2 = (Inr (), u) \<and>
      tracker_view u = store_emit (Deleted x) (tracker_view t2) \<and> tracker_good n u"
    by (rule notify_view [OF t]) (simp_all add: es2 keys, simp_all add: t2_def)
  moreover have "tracker_view t2 =
      tracker_view t\<lparr>st_objects := (st_objects (tracker_view t))(([], name) := None)\<rparr>"
    by (auto simp: tracker_view_def es2 es_def delete_conv' fun_eq_iff) (simp_all add: t2_def)
  ultimately show ?thesis
    using Some by (auto simp: store_delete_def tracker_Delete_def vx tracker_view_def [of t] es_def t2_def)
qed

lemma filterByNamespace_view:
  assumes "tracker_good n t"
  shows "filterByNamespace (tracker_entries t snapshotmetadataservicesResource) [] = store_sorted (tracker_view t)"
proof -
  define es where "es = tracker_entries t snapshotmetadataservicesResource"
  define os where "os = sort_key obj_key (map (snd \<circ> snd) es)"
  define look where "look = (\<lambda>k. the (map_option snd (map_of es k)))"
  have es: "distinct (map fst es)" "\<forall>(k, v, x) \<in> set es. k = obj_key x"
    using assms by (auto simp: tracker_good_def es_def)
  have keys: "map obj_key (map (snd \<circ> snd) es) = map fst es"
    using es(2) by (auto simp: fun_eq_iff)
  have "mset (map obj_key os) = mset (map fst es)"
    unfolding keys [symmetric] os_def by (simp only: mset_map mset_sort)
  moreover have "sorted (map obj_key os)" by (simp add: os_def)
  ultimately have "map obj_key os = sort (map fst es)"
    by (metis properties_for_sort)
  also have "\<dots> = sorted_list_of_set (set (map fst es))"
    using es(1) by (simp only: sorted_list_of_set_sort_remdups distinct_remdups_id)
  also have "set (map fst es) = dom (map_of es)"
    by (simp add: dom_map_of_conv_image_fst)
  finally have sorted: "map obj_key os = sorted_list_of_set (dom (map_of es))" .
  have "look (obj_key x) = x" if "x \<in> set os" for x
  proof -
    from that obtain k v where kv: "(k, v, x) \<in> set es" by (auto simp: os_def)
    with es have "map_of es (obj_key x) = Some (v, x)" by auto
    then show ?thesis by (simp add: look_def)
  qed
  then have "os = map look (map obj_key os)" by (simp add: map_idI)
  then show ?thesis
    unfolding sorted by (simp add: store_sorted_def tracker_view_def filterByNamespace_def look_def os_def es_def dom_def)
qed

subsection \<open>The typed client keeps the store\<close>

definition std_reactor :: "fake_env \<Rightarrow> reactor" where
  "std_reactor env = \<lparr>re_Verb = ''*'', re_Resource = ''*'', re_Reaction = ObjectReaction env\<rparr>"

definition std_watch_reactor :: watch_reactor where
  "std_watch_reactor = \<lparr>wr_Resource = ''*'', wr_Reaction = watch_reaction\<rparr>"

definition fake_view :: "fake \<Rightarrow> fake_store" where
  "fake_view fk = tracker_view (fk_tracker fk)"

definition fake_good :: "fake_env \<Rightarrow> nat \<Rightarrow> fake \<Rightarrow> bool" where
  "fake_good env n fk \<longleftrightarrow> tracker_good n (fk_tracker fk) \<and> ReactionChain fk = [std_reactor env] \<and>
     WatchReactionChain fk = [std_watch_reactor]"

lemma reaction_of_run [io_run]:
  "reaction_of m t =
     (case m t of
        (Inr obj, u) \<Rightarrow> (Inr (True, obj, None), u)
      | (Inl (Failed e), u) \<Rightarrow> (Inr (True, NilObject, Some e), u)
      | (Inl (Panicked p), u) \<Rightarrow> (Inl (Panicked p), u))"
  by (auto simp: reaction_of_def io_run split: io_splits)

lemma react_std:
  "react [std_reactor env] action d t =
     (case ObjectReaction env action t of
        (Inl e, u) \<Rightarrow> (Inl e, u)
      | (Inr (handled, ret, err), u) \<Rightarrow> (Inr (if handled then (ret, err) else (d, None)), u))"
  by (simp add: std_reactor_def Handles_def resourceCovers_def Let_def io_run split: io_splits)

declare react.simps [simp del]

lemma extract_state:
  "ExtractFromListOptions env opts s = (fst (ExtractFromListOptions env opts t), s)"
  by (simp add: ExtractFromListOptions_def io_run split: sum.split)

text \<open>The actions that a call records.\<close>

fun op_actions :: "fake_env \<Rightarrow> fake_op \<Rightarrow> fake_action list" where
  "op_actions env (FGet name o1) = [NewRootGetAction snapshotmetadataservicesResource name]"
| "op_actions env (FList o1) =
     (case fst (NewRootListAction env snapshotmetadataservicesResource snapshotmetadataservicesKind o1 ()) of
        Inl _ \<Rightarrow> [] | Inr a \<Rightarrow> [a])"
| "op_actions env (FWatch o1) =
     (case fst (NewRootWatchAction env snapshotmetadataservicesResource o1 ()) of Inl _ \<Rightarrow> [] | Inr a \<Rightarrow> [a])"
| "op_actions env (FCreate x o1) = [NewRootCreateAction snapshotmetadataservicesResource x]"
| "op_actions env (FUpdate x o1) = [NewRootUpdateAction snapshotmetadataservicesResource x]"
| "op_actions env (FDelete name o1) = [NewRootDeleteActionWithOptions snapshotmetadataservicesResource name o1]"
| "op_actions env (FDeleteCollection o1 o2) =
     (case fst (NewRootDeleteCollectionAction env snapshotmetadataservicesResource o2 ()) of
        Inl _ \<Rightarrow> [] | Inr a \<Rightarrow> [a])"
| "op_actions env (FPatch name pt data o1 sub) =
     [NewRootPatchSubresourceAction snapshotmetadataservicesResource name pt data sub]"

definition simulated :: "fake_env \<Rightarrow> nat \<Rightarrow> fake \<Rightarrow> fake_op \<Rightarrow> bool" where
  "simulated env n fk op \<longleftrightarrow>
     (\<exists>fk'. fake_op_run env op fk = (fst (store_run env op (fake_view fk)), fk') \<and>
        fake_view fk' = snd (store_run env op (fake_view fk)) \<and> fake_good env n fk' \<and>
        fk_actions fk' = fk_actions fk @ op_actions env op)"

named_theorems fake_simps \<open>unfolds a call of the fake down to the tracker\<close>

lemmas [fake_simps] = simulated_def store_run_def outcome_def Invokes_def InvokesWatch_def recorded_def
  react_std fake_view_def fake_good_def root_action_def got_object_def sms_or_nil_def as_sms_def as_sms_list_def

lemma simulated_Get:
  assumes "fake_good env (Suc n) fk"
  shows "simulated env n fk (FGet name o1)"
  using assms tracker_good_mono [of "Suc n" "fk_tracker fk" n]
  by (auto simp: fake_simps FakeSnapshotMetadataServices_Get_def NewRootGetAction_def tracker_Get_view io_run
      split: sum.splits)

lemma simulated_List:
  assumes "fake_good env (Suc n) fk"
  shows "simulated env n fk (FList o1)"
proof -
  have known: "snapshotmetadataservicesKind = (GroupName, ''v1beta1'', ''SnapshotMetadataService'')"
    by (simp add: snapshotmetadataservicesKind_def SchemeGroupVersion_def)
  have v: "st_version (tracker_view t) = tracker_version t snapshotmetadataservicesResource" for t
    by (simp add: tracker_view_def)
  show ?thesis
    using assms tracker_good_mono [of "Suc n" "fk_tracker fk" n] filterByNamespace_view [of "Suc n" "fk_tracker fk"]
    by (auto simp: fake_simps FakeSnapshotMetadataServices_List_def NewRootListAction_def io_run known v
        tracker_List_def addKnownTypes_def SchemeGroupVersion_def ExtractFromListOptions_def split: sum.splits)
qed

lemma simulated_DeleteCollection:
  assumes "fake_good env (Suc n) fk"
  shows "simulated env n fk (FDeleteCollection o1 o2)"
  using assms tracker_good_mono [of "Suc n" "fk_tracker fk" n]
  by (auto simp: fake_simps FakeSnapshotMetadataServices_DeleteCollection_def NewRootDeleteCollectionAction_def io_run
      ExtractFromListOptions_def split: sum.splits)

lemma simulated_Delete:
  assumes "fake_good env (Suc n) fk"
  shows "simulated env n fk (FDelete name o1)"
  using assms tracker_Delete_view [of n "fk_tracker fk" name]
  by (auto simp: fake_simps FakeSnapshotMetadataServices_Delete_def NewRootDeleteActionWithOptions_def io_run
      split: sum.splits)

lemma simulated_Create:
  assumes "fake_good env (Suc n) fk"
  shows "simulated env n fk (FCreate x o1)"
proof (cases x)
  case None
  with assms tracker_good_mono [of "Suc n" "fk_tracker fk" n] show ?thesis
    by (auto simp: fake_simps FakeSnapshotMetadataServices_Create_def NewRootCreateAction_def react_Create_def io_run)
next
  case (Some y)
  have "store_get (sms_name y) s' = Inr y"
    if "store_add False y (tracker_view (fk_tracker fk)) = Inr s'" for s'
    using that by (auto simp: store_add_def store_get_def store_emit_def store_put_def obj_key_def split: if_splits)
  with Some assms tracker_add_view [of n "fk_tracker fk" y False] show ?thesis
    by (auto simp: fake_simps FakeSnapshotMetadataServices_Create_def NewRootCreateAction_def react_Create_def io_run
        store_changed_def tracker_Get_view split: sum.splits)
qed

lemma simulated_Update:
  assumes "fake_good env (Suc n) fk"
  shows "simulated env n fk (FUpdate x o1)"
proof (cases x)
  case None
  with assms tracker_good_mono [of "Suc n" "fk_tracker fk" n] show ?thesis
    by (auto simp: fake_simps FakeSnapshotMetadataServices_Update_def NewRootUpdateAction_def react_Update_def io_run)
next
  case (Some y)
  have "store_get (sms_name y) s' = Inr y"
    if "store_add True y (tracker_view (fk_tracker fk)) = Inr s'" for s'
    using that by (auto simp: store_add_def store_get_def store_emit_def store_put_def obj_key_def split: if_splits)
  with Some assms tracker_add_view [of n "fk_tracker fk" y True] show ?thesis
    by (auto simp: fake_simps FakeSnapshotMetadataServices_Update_def NewRootUpdateAction_def react_Update_def io_run
        store_changed_def tracker_Get_view split: sum.splits)
qed

text \<open>The watchers of the collection are the channels that the tracker has made.\<close>

lemma tracker_Watch_view:
  assumes "tracker_good n t"
  shows "\<exists>u. tracker_Watch snapshotmetadataservicesResource [] t = (Inr (length (tk_channels t)), u) \<and>
    tracker_view u = (tracker_view t)\<lparr>st_queues := st_queues (tracker_view t) @ [[]]\<rparr> \<and> tracker_good n u"
  using assms
  by (auto simp: tracker_Watch_def Let_def tracker_view_def tracker_good_def tracker_entries_def tracker_version_def
      getWatches_def split: option.splits)

lemma simulated_Watch:
  assumes "fake_good env (Suc n) fk"
  shows "simulated env n fk (FWatch o1)"
proof -
  have "length (st_queues (tracker_view t)) = length (tk_channels t)" for t
    by (simp add: tracker_view_def)
  then show ?thesis
    using assms tracker_Watch_view [of n "fk_tracker fk"] tracker_good_mono [of "Suc n" "fk_tracker fk" n]
    by (auto simp: fake_simps FakeSnapshotMetadataServices_Watch_def NewRootWatchAction_def io_run
        ExtractFromListOptions_def std_watch_reactor_def resourceCovers_def watch_reaction_def Let_def split: sum.splits)
qed

lemma store_add_kept:
  assumes "store_add True y s = Inr s'"
  shows "st_objects s' k = (if k = obj_key y then Some y else st_objects s k)"
  using assms by (auto simp: store_add_def store_emit_def store_put_def split: if_splits)

lemma store_get_kept:
  assumes "store_add True y s = Inr s'" "store_get name s = Inr x"
  shows "store_get name s' = Inr (the (st_objects s' ([], name)))" "st_objects s' ([], name) \<noteq> None"
  using assms by (auto simp: store_get_def store_add_kept split: option.splits)

lemmas patch_simps = fake_simps FakeSnapshotMetadataServices_Patch_def NewRootPatchSubresourceAction_def
  react_Patch_def react_Apply_def io_run store_patch_def tracker_Get_view

lemma simulated_Patch:
  assumes "fake_good env (Suc n) fk"
  shows "simulated env n fk (FPatch name pt data o1 sub)"
proof -
  let ?t = "fk_tracker fk"
  have good: "tracker_good n ?t" if "tracker_good (Suc n) ?t"
    using that by (rule tracker_good_mono) simp
  show ?thesis
  proof (cases "store_get name (tracker_view ?t)")
    case (Inl e)
    with assms good show ?thesis
      by (cases "decode_apply env data") (auto simp: patch_simps)
  next
    case x: (Inr x)
    show ?thesis
    proof (cases "patch_object env pt data x")
      case (Inl e)
      with assms good x show ?thesis
        by (cases "decode_apply env data"; cases "pt = ApplyPatchType") (auto simp: patch_simps)
    next
      case y: (Inr y)
      note add = tracker_add_view [of n ?t y True]
      show ?thesis
      proof (cases "store_add True y (tracker_view ?t)")
        case (Inl e)
        with assms good x y add show ?thesis
          by (cases "decode_apply env data"; cases "pt = ApplyPatchType") (auto simp: patch_simps)
      next
        case (Inr s')
        with assms good x y add store_get_kept [OF Inr x] show ?thesis
          by (cases "decode_apply env data"; cases "pt = ApplyPatchType") (auto simp: patch_simps)
      qed
    qed
  qed
qed

theorem fake_op_simulated: "fake_good env (Suc n) fk \<Longrightarrow> simulated env n fk op"
  by (cases op) (simp_all add: simulated_Get simulated_List simulated_Watch simulated_Create simulated_Update
      simulated_Delete simulated_DeleteCollection simulated_Patch)

subsection \<open>Runs of calls\<close>

text \<open>
  A simulation: a call on a state with room for one more event agrees with the call on what the state
  stands for, and uses up at most that room.
\<close>

locale op_simulation =
  fixes good :: "nat \<Rightarrow> 's \<Rightarrow> bool"
    and view :: "'s \<Rightarrow> 'a"
    and impl :: "'op \<Rightarrow> 's \<Rightarrow> 'r \<times> 's"
    and spec :: "'op \<Rightarrow> 'a \<Rightarrow> 'r \<times> 'a"
  assumes step: "good (Suc n) s \<Longrightarrow> impl op s = (r, s') \<Longrightarrow> spec op (view s) = (r, view s') \<and> good n s'"
    and less_room: "good n s \<Longrightarrow> m \<le> n \<Longrightarrow> good m s"
begin

lemma runs:
  assumes "good n s" "length ops \<le> n" "run_calls impl ops s = (rs, s')"
  shows "run_calls spec ops (view s) = (rs, view s') \<and> good (n - length ops) s'"
  using assms
proof (induction ops arbitrary: n s rs)
  case Nil
  then show ?case by simp
next
  case (Cons op ops)
  then obtain m where n: "n = Suc m" by (cases n) auto
  obtain r s1 where one: "impl op s = (r, s1)" by fastforce
  obtain rs1 s2 where rest: "run_calls impl ops s1 = (rs1, s2)" by fastforce
  have "spec op (view s) = (r, view s1)" "good m s1"
    using step one Cons.prems(1) n by blast+
  with Cons.IH [of m s1 rs1] Cons.prems n one rest show ?case
    by (auto simp: Let_def)
qed

lemma runs_results:
  assumes "good n s" "length ops \<le> n"
  shows "fst (run_calls impl ops s) = fst (run_calls spec ops (view s))"
  using runs [OF assms, of "fst (run_calls impl ops s)" "snd (run_calls impl ops s)"] by simp

end

definition logged_run ::
  "fake_env \<Rightarrow> fake_op \<Rightarrow> fake_action list \<times> fake_store \<Rightarrow> fake_outcome \<times> fake_action list \<times> fake_store" where
  "logged_run env op p =
     (let (r, s) = store_run env op (snd p) in (r, fst p @ op_actions env op, s))"

interpretation fake_sim: op_simulation "fake_good env" "\<lambda>fk. (fk_actions fk, fake_view fk)"
  "fake_op_run env" "logged_run env" for env
proof unfold_locales
  fix n fk op r fk'
  assume "fake_good env (Suc n) fk" and run: "fake_op_run env op fk = (r, fk')"
  from fake_op_simulated [OF this(1), of op] run
  show "logged_run env op (fk_actions fk, fake_view fk) = (r, fk_actions fk', fake_view fk') \<and> fake_good env n fk'"
    by (auto simp: simulated_def logged_run_def split: prod.splits)
next
  fix n fk m
  assume "fake_good env n fk" "m \<le> n"
  then show "fake_good env m fk"
    by (auto simp: fake_good_def intro: tracker_good_mono)
qed

lemma run_calls_logged:
  "run_calls (logged_run env) ops (as, s) =
     (fst (run_calls (store_run env) ops s), as @ concat (map (op_actions env) ops), snd (run_calls (store_run env) ops s))"
  by (induction ops arbitrary: as s) (simp_all add: logged_run_def split: prod.split)

subsection \<open>The initial objects\<close>

lemma guessed_resource:
  "UnsafeGuessKindToResource snapshotmetadataservicesKind = snapshotmetadataservicesResource"
proof -
  have "lowercase ''SnapshotMetadataService'' = ''snapshotmetadataservice''"
    by code_simp
  then show ?thesis
    by (simp add: UnsafeGuessKindToResource_def snapshotmetadataservicesKind_def snapshotmetadataservicesResource_def
        SchemeGroupVersion_def WithResource_def has_suffix_def)
qed

definition initial_store :: "fake_sms list \<Rightarrow> fake_store" where
  "initial_store os =
     \<lparr>st_objects = map_of (map (\<lambda>x. (obj_key x, x)) os), st_version = 1 + of_nat (length os), st_queues = []\<rparr>"

definition unwatched :: "tracker \<Rightarrow> bool" where
  "unwatched t \<longleftrightarrow> tk_watchers t = Map.empty \<and> tk_channels t = []"

lemma tracker_add_unwatched:
  assumes "unwatched t" "tracker_good n t"
  shows "\<exists>u. unwatched u \<and> tracker_good n u \<and>
    tracker_add snapshotmetadataservicesResource x (fs_Namespace x) False t =
      (if st_objects (tracker_view t) (obj_key x) = None then (Inr (), u)
       else (Inl (Failed (api_AlreadyExists snapshotmetadataservicesResource (sms_name x))), u)) \<and>
    (st_objects (tracker_view t) (obj_key x) = None \<longrightarrow> tracker_view u = store_put x (tracker_view t))"
proof -
  have "unwatched (tracker_put x t)" "tracker_good n (tracker_put x t)"
    using assms tracker_put_keys [OF assms(2)] by (simp_all add: unwatched_def tracker_good_def)
  moreover have "unwatched (tracker_touch t)" "tracker_good n (tracker_touch t)"
    using assms by (simp_all add: unwatched_def)
  ultimately show ?thesis
    using assms(1) tracker_add_put [of "fs_Namespace x" x False t] tracker_put_view
    by (auto simp: unwatched_def getWatches_def)
qed

lemma add_objects_view:
  assumes "unwatched t" "tracker_good n t"
  shows "\<exists>u. unwatched u \<and> tracker_good n u \<and>
    (if distinct (map obj_key os) \<and> (\<forall>x \<in> set os. st_objects (tracker_view t) (obj_key x) = None)
     then add_objects os t = (Inr (), u) \<and> tracker_view u = fold store_put os (tracker_view t)
     else \<exists>e. add_objects os t = (Inl (Failed e), u))"
  using assms
proof (induction os arbitrary: t)
  case Nil
  then show ?case by (auto simp: io_run)
next
  case (Cons x os)
  from tracker_add_unwatched [OF Cons.prems, of x] obtain u where u: "unwatched u" "tracker_good n u"
    "tracker_add snapshotmetadataservicesResource x (fs_Namespace x) False t =
      (if st_objects (tracker_view t) (obj_key x) = None then (Inr (), u)
       else (Inl (Failed (api_AlreadyExists snapshotmetadataservicesResource (sms_name x))), u))"
    "st_objects (tracker_view t) (obj_key x) = None \<longrightarrow> tracker_view u = store_put x (tracker_view t)"
    by (elim exE conjE) (rule that)
  show ?case
  proof (cases "st_objects (tracker_view t) (obj_key x) = None")
    case False
    with u show ?thesis by (auto simp: guessed_resource io_run)
  next
    case True
    with u have view: "tracker_view u = store_put x (tracker_view t)" by simp
    have "st_objects (tracker_view u) k = None \<longleftrightarrow> k \<noteq> obj_key x \<and> st_objects (tracker_view t) k = None" for k
      by (simp add: view store_put_def)
    then have same: "(distinct (map obj_key os) \<and> (\<forall>y \<in> set os. st_objects (tracker_view u) (obj_key y) = None)) \<longleftrightarrow>
        distinct (map obj_key (x # os)) \<and> (\<forall>y \<in> set (x # os). st_objects (tracker_view t) (obj_key y) = None)"
      using True by (simp add: image_iff) metis
    have run: "add_objects (x # os) t = add_objects os u"
      using True u(3) by (simp add: guessed_resource io_run)
    have "fold store_put (x # os) (tracker_view t) = fold store_put os (tracker_view u)"
      by (simp add: view)
    with Cons.IH [OF u(1,2)] show ?thesis
      unfolding same run by (simp only:)
  qed
qed

lemma add_objects_append:
  "add_objects (xs @ ys) = io_then (add_objects xs) (add_objects ys)"
proof (induction xs)
  case Nil
  show ?case by (simp add: fun_eq_iff io_run)
next
  case (Cons x xs)
  then show ?case by (simp add: io_bind_assoc)
qed

lemma add_all_objects:
  "add_all args = io_catch (add_objects (concat (map arg_objects args))) (\<lambda>err. io_panic (error_text err))"
proof (induction args)
  case Nil
  then show ?case by (simp add: fun_eq_iff io_run)
next
  case (Cons a args)
  then show ?case
    by (auto simp: fun_eq_iff io_run tracker_Add_def add_objects_append split: io_splits)
qed

lemma fold_store_put:
  assumes "distinct (map obj_key os)"
  shows "fold store_put os s = s\<lparr>st_objects := st_objects s ++ map_of (map (\<lambda>x. (obj_key x, x)) os),
    st_version := st_version s + of_nat (length os)\<rparr>"
  using assms
proof (induction os arbitrary: s)
  case Nil
  then show ?case by simp
next
  case (Cons x os)
  then have "map_of (map (\<lambda>y. (obj_key y, y)) os) (obj_key x) = None"
    by (auto simp: map_of_eq_None_iff image_iff)
  then have upd: "(st_objects s)(obj_key x \<mapsto> x) ++ map_of (map (\<lambda>y. (obj_key y, y)) os) =
      st_objects s ++ map_of (map (\<lambda>y. (obj_key y, y)) (x # os))"
    by (auto simp: fun_eq_iff map_add_def split: option.split)
  have "distinct (map obj_key os)" using Cons.prems by simp
  from Cons.IH [OF this, of "store_put x s"]
  show ?case unfolding upd [symmetric] by (simp add: store_put_def add.assoc fun_upd_def)
qed

theorem NewSimpleClientset_spec:
  "case NewSimpleClientset env args of
     Inl e \<Rightarrow> \<not> distinct (map obj_key (concat (map arg_objects args)))
   | Inr fk \<Rightarrow> distinct (map obj_key (concat (map arg_objects args))) \<and> fake_good env DefaultChanSize fk \<and>
       fake_view fk = initial_store (concat (map arg_objects args)) \<and> fk_actions fk = []"
proof -
  let ?os = "concat (map arg_objects args)"
  have t: "unwatched NewObjectTracker" "tracker_good DefaultChanSize NewObjectTracker"
    by (simp_all add: unwatched_def NewObjectTracker_def tracker_good_def tracker_entries_def getWatches_def)
  have view: "tracker_view NewObjectTracker = \<lparr>st_objects = Map.empty, st_version = 1, st_queues = []\<rparr>"
    by (simp add: tracker_view_def NewObjectTracker_def tracker_entries_def tracker_version_def)
  from add_objects_view [OF t, of ?os] obtain u where u: "tracker_good DefaultChanSize u"
    "if distinct (map obj_key ?os) then add_objects ?os NewObjectTracker = (Inr (), u) \<and>
       tracker_view u = fold store_put ?os (tracker_view NewObjectTracker)
     else \<exists>e. add_objects ?os NewObjectTracker = (Inl (Failed e), u)"
    by (auto simp: view)
  show ?thesis
  proof (cases "distinct (map obj_key ?os)")
    case True
    with u have "add_objects ?os NewObjectTracker = (Inr (), u)" "tracker_view u = initial_store ?os"
      using fold_store_put [OF True, of "tracker_view NewObjectTracker"] by (simp_all add: view initial_store_def)
    with u(1) True show ?thesis
      by (simp add: NewSimpleClientset_def add_all_objects io_run fake_good_def fake_view_def AddReactor_def
          AddWatchReactor_def std_reactor_def std_watch_reactor_def)
  next
    case False
    with u obtain e where "add_objects ?os NewObjectTracker = (Inl (Failed e), u)" by auto
    with False show ?thesis
      by (simp add: NewSimpleClientset_def add_all_objects io_run)
  qed
qed

subsection \<open>The clientset refines the store\<close>

text \<open>
  C24. Refinement of the fake clientset. Made from objects with different keys (it panics exactly when two share one), and
  whatever at most 100 calls follow, every call has the result that it has on the store of objects; the watchers
  have the events of the store since they were made; every call whose selectors parse is recorded, in order.
\<close>

theorem fake_clientset_refines_store:
  assumes "length ops \<le> DefaultChanSize"
  shows "case NewSimpleClientset env args of
     Inl e \<Rightarrow> \<not> distinct (map obj_key (concat (map arg_objects args)))
   | Inr fk \<Rightarrow> distinct (map obj_key (concat (map arg_objects args))) \<and>
       (let (rs, fk') = run_calls (fake_op_run env) ops fk
        in run_calls (store_run env) ops (initial_store (concat (map arg_objects args))) = (rs, fake_view fk') \<and>
           fk_actions fk' = concat (map (op_actions env) ops))"
proof (cases "NewSimpleClientset env args")
  case (Inl e)
  with NewSimpleClientset_spec [of args env] show ?thesis by simp
next
  case (Inr fk)
  with NewSimpleClientset_spec [of args env] have fk: "distinct (map obj_key (concat (map arg_objects args)))"
    "fake_good env DefaultChanSize fk" "fake_view fk = initial_store (concat (map arg_objects args))" "fk_actions fk = []"
    by simp_all
  obtain rs fk' where run: "run_calls (fake_op_run env) ops fk = (rs, fk')" by fastforce
  from fake_sim.runs [OF fk(2) assms run] have
    "run_calls (store_run env) ops (initial_store (concat (map arg_objects args))) = (rs, fake_view fk')"
    "fk_actions fk' = concat (map (op_actions env) ops)"
    by (auto simp: run_calls_logged fk prod_eq_iff)
  with Inr run fk(1) show ?thesis by simp
qed

definition fake_env_example :: fake_env where
  "fake_env_example =
     \<lparr>parse_labels = (\<lambda>s. Inr \<lparr>fsel_String = s, fsel_Matches = (\<lambda>_. True)\<rparr>), parse_fields = Inr,
      decode_apply = (\<lambda>_. None), patch_object = (\<lambda>pt patch x. Inr x),
      not_registered = (\<lambda>_. Plain ''not registered''), unhandled_watch = (\<lambda>_. Plain ''unhandled watch'')\<rparr>"

definition fake_sms_example :: "string \<Rightarrow> fake_sms" where
  "fake_sms_example name = zero_fake_sms\<lparr>sms_name := name\<rparr>"

definition any_list :: list_options where
  "any_list = \<lparr>lo_LabelSelector = [], lo_FieldSelector = [], lo_Watch = False, lo_AllowWatchBookmarks = False,
     lo_ResourceVersion = [], lo_ResourceVersionMatch = [], lo_TimeoutSeconds = None, lo_Limit = 0,
     lo_Continue = [], lo_SendInitialEvents = None\<rparr>"

definition fake_ops_example :: "fake_op list" where
  "fake_ops_example =
     [FWatch any_list, FCreate (Some (fake_sms_example ''b'')) zero_write_options,
      FCreate (Some (fake_sms_example ''a'')) zero_write_options, FDelete ''a'' zero_delete_options,
      FDeleteCollection zero_delete_options any_list, FGet ''b'' \<lparr>go_ResourceVersion = []\<rparr>]"

lemma fake_clientset_refines_store_witness:
  "case NewSimpleClientset fake_env_example [ObjArg (fake_sms_example ''a'')] of
     Inl e \<Rightarrow> False
   | Inr fk \<Rightarrow>
       (let (rs, fk') = run_calls (fake_op_run fake_env_example) fake_ops_example fk
        in rs = [GotWatch (Some 0) None, GotObject (Some (fake_sms_example ''b'')) None,
                 GotObject None (Some (api_AlreadyExists snapshotmetadataservicesResource ''a'')), GotError None,
                 GotError None, GotObject (Some (fake_sms_example ''b'')) None] \<and>
           st_queues (fake_view fk') = [[Added (fake_sms_example ''b''), Deleted (fake_sms_example ''a'')]])"
proof -
  have "length fake_ops_example \<le> DefaultChanSize"
    by (simp add: fake_ops_example_def DefaultChanSize_def)
  note claim = fake_clientset_refines_store [OF this, of "[ObjArg (fake_sms_example ''a'')]" fake_env_example]
  have key: "obj_key (fake_sms_example n) = ([], n)" for n
    by (simp add: fake_sms_example_def zero_fake_sms_def obj_key_def)
  have ns: "fs_Namespace (fake_sms_example n) = []" "sms_name (fake_sms_example n) = n" for n
    by (simp_all add: fake_sms_example_def zero_fake_sms_def)
  have "run_calls (store_run fake_env_example) fake_ops_example (initial_store [fake_sms_example ''a'']) =
     ([GotWatch (Some 0) None, GotObject (Some (fake_sms_example ''b'')) None,
       GotObject None (Some (api_AlreadyExists snapshotmetadataservicesResource ''a'')), GotError None,
       GotError None, GotObject (Some (fake_sms_example ''b'')) None],
      \<lparr>st_objects = [([], ''b'') \<mapsto> fake_sms_example ''b''], st_version = 3,
       st_queues = [[Added (fake_sms_example ''b''), Deleted (fake_sms_example ''a'')]]\<rparr>)"
    by (simp add: fake_ops_example_def store_run_def initial_store_def ExtractFromListOptions_def io_run
        fake_env_example_def store_changed_def store_add_def store_emit_def store_put_def store_delete_def
        store_get_def key ns fun_eq_iff)
  with claim show ?thesis
    by (auto split: sum.splits prod.splits) (metis fake_store.select_convs(3))
qed

subsection \<open>What the fake leaves out\<close>

text \<open>The calls that a comment says more of than they do.\<close>

theorem fake_DeleteCollection_deletes_nothing:
  "fake_good env (Suc n) fk \<Longrightarrow>
     fake_view (snd (fake_op_run env (FDeleteCollection o1 o2) fk)) = fake_view fk"
  using fake_op_simulated [of env n fk "FDeleteCollection o1 o2"]
  by (auto simp: simulated_def store_run_def split: sum.splits)

theorem fake_List_ignores_field_selector:
  assumes "fake_good env (Suc n) fk" "parse_fields env (lo_FieldSelector o1) = Inr f" "parse_fields env g = Inr f'"
  shows "fst (fake_op_run env (FList (o1\<lparr>lo_FieldSelector := g\<rparr>)) fk) = fst (fake_op_run env (FList o1) fk)"
  using fake_op_simulated [of env n fk "FList o1"] fake_op_simulated [of env n fk "FList (o1\<lparr>lo_FieldSelector := g\<rparr>)"] assms
  by (auto simp: simulated_def store_run_def ExtractFromListOptions_def io_run split: sum.splits)

text \<open>A reactor put before the tracker answers in its place; one of another type makes the typed client panic.\<close>

theorem prepended_reactor_answers:
  assumes "re_Reaction r (NewRootGetAction snapshotmetadataservicesResource name) = io_ret (True, obj, err)"
    "Handles r (NewRootGetAction snapshotmetadataservicesResource name)"
  shows "FakeSnapshotMetadataServices_Get name o1
      (PrependReactor (re_Verb r) (re_Resource r) (re_Reaction r) fk) =
    (let fk' = PrependReactor (re_Verb r) (re_Resource r) (re_Reaction r) fk
                 \<lparr>fk_actions := fk_actions fk @ [NewRootGetAction snapshotmetadataservicesResource name]\<rparr>
     in case obj of
          NilObject \<Rightarrow> (Inr (None, err), fk')
        | SmsObject p \<Rightarrow> (Inr (p, err), fk')
        | _ \<Rightarrow> (Inl (Panicked ''interface conversion''), fk'))"
  using assms
  by (cases r) (auto simp: FakeSnapshotMetadataServices_Get_def Invokes_def recorded_def PrependReactor_def io_run
      react.simps sms_or_nil_def as_sms_def Let_def split: robj.splits)

end
