(* ===== verification/Spec2Isabelle.thy ===== *)
theory Spec2Isabelle
  imports Lifecycle Tools Rpc Informers DeepCopy JunitFilter FakeStore
begin

text \<open>
  Verification development of the external-snapshot-metadata repository: the CSI sidecar that
  serves the metadata of volume snapshots (which blocks are allocated, which blocks changed between two
  snapshots), the client library that reads them, and the two command line tools built on it.

  \<^bold>\<open>The program.\<close> A backup application calls the sidecar over gRPC with a token, a namespace and the
  name of a \<open>VolumeSnapshot\<close>. The sidecar looks up its own \<open>SnapshotMetadataService\<close> resource for
  the audience, has the token reviewed for it, asks whether the user may get \<open>VolumeSnapshots\<close> in the
  namespace, resolves the snapshot through its content to the handle that the CSI driver knows and
  to the secrets of its class, calls the driver and relays the stream of the driver message by
  message. The client library (\<open>pkg/iterator\<close>) finds the driver and the service of a
  snapshot, creates a token, calls the sidecar and hands every message to an emitter. The lister
  prints the messages as JSON or as a table; the verifier copies the blocks listed from one device to
  another and compares the devices. The package \<open>client\<close> gives Go programs access to the
  \<open>SnapshotMetadataService\<close> resource, through a clientset, informers and a fake for tests.

  \<^bold>\<open>Theories and sources.\<close>
  \<^item> \<open>Prelude\<close>, \<open>GoErrors\<close>: machine integers as words, decimal texts, lists; Go error values with
    wrapping, gRPC status errors, and the monad \<open>io\<close> (state, value, error or panic) of the effectful
    code with its Hoare triples \<open>io_hoare\<close>. The collection \<open>io_run\<close> runs the monad from a state.
  \<^item> \<open>TlsConfig\<close>: \<open>pkg/internal/tlsconfig\<close>. \<open>Api\<close>: the messages of \<open>pkg/api\<close> and of CSI, the custom
    resource of \<open>client/apis\<close>, the fields of the Kubernetes objects that are read.
  \<^item> \<open>Runtime\<close>: \<open>pkg/internal/runtime\<close> (arguments, construction, the wait for the driver, metrics).
    \<open>Health\<close>: the vendored gRPC health server.
  \<^item> \<open>Server\<close>, \<open>Auth\<close>, \<open>SecretRef\<close>, \<open>Snapshot\<close>, \<open>Streaming\<close>, \<open>Handlers\<close>: \<open>pkg/internal/server/grpc\<close>,
    \<open>pkg/internal/authn\<close>, \<open>pkg/internal/authz\<close> and the vendored secret templates of external-snapshotter.
    The record \<open>server\<close> is the Go struct \<open>Server\<close> with the list \<open>events\<close> of everything done so far.
  \<^item> \<open>Flags\<close>: package \<open>flag\<close> and the integers of \<open>strconv\<close>. \<open>Sidecar\<close>: \<open>pkg/sidecar/sidecar.go\<close>
    from the command line to the exit code, and what else can end the process. \<open>Lifecycle\<close>: the process as
    a step relation, with the requests in flight, from the start of the gRPC server to its end.
  \<^item> \<open>Clients\<close>, \<open>Iterator\<close>, \<open>Emitters\<close>, \<open>Verifier\<close>: \<open>pkg/iterator\<close>. \<open>Tools\<close>: both \<open>main.go\<close> of \<open>tools\<close>.
  \<^item> \<open>Rpc\<close>: the stubs of \<open>pkg/api/schema_grpc.pb.go\<close> and both ends composed: the handlers of the sidecar as
    the service that the iterator of a client calls, over a connection that keeps the order of messages.
  \<^item> \<open>RestClient\<close>, \<open>Clientset\<close>: \<open>client/clientset/versioned\<close> and the request builder of client-go that every operation
    of the typed client chains. \<open>FakeClientset\<close>, \<open>FakeStore\<close>: \<open>client/clientset/versioned/fake\<close> on the reaction chain and the
    object tracker of \<open>client-go/testing\<close>, and the store it stands for.
  \<^item> \<open>Informers\<close>: \<open>client/informers\<close> and \<open>client/listers\<close>, the shared factory as a step relation of its goroutines
    and of the stop channels they wait for.
  \<^item> \<open>DeepCopy\<close>: the generated deep copies of \<open>client/apis\<close> over a store of addresses.
  \<^item> \<open>JunitFilter\<close>: \<open>release-tools/filter-junit.go\<close>.

  Definitions carry the names of the Go functions, types and constants.

  \<^bold>\<open>The environment.\<close> What is not under \<open>src\<close> is an argument of the definitions: the record \<open>cluster\<close>
  for the API server and the CSI driver as the sidecar sees them, \<open>runtime_env\<close>, \<open>sidecar_env\<close>,
  \<open>iter_env\<close>, \<open>file_env\<close>, \<open>tool_env\<close>, \<open>rpc_link\<close>, \<open>sms_rest_env\<close>, \<open>fake_env\<close> and \<open>junit_env\<close> for the others. Their answers are functions of the history (the
  events so far, the number of operations done), so nothing is assumed of two answers to
  one request, and every interleaving of failures is one environment. A client that is sent a message
  may take it, fail, or block the sidecar; of the text that a tool writes any part may be lost. The functions of the
  standard library on floating point numbers and durations are the record \<open>go_std\<close>.

  \<^bold>\<open>Interfaces.\<close> \<open>readiness_flag\<close> (interpreted by the health server), \<open>stream_relay\<close> and its
  extension \<open>metadata_rpc\<close> (by the loops and handlers of both calls), \<open>iterator_emitter\<close> (by the three
  emitters), \<open>csv_parser\<close> (by cipher suites and curves), \<open>flag_codec\<close> (by the flag types), \<open>deep_copy\<close> (by the copies of the
  three types and of pointers to them), \<open>op_simulation\<close> (by the fake clientset and its store).

  \<^bold>\<open>What the lemmas show.\<close>
  \<^item> Safety of the sidecar: the driver is called and data is sent only for a request whose token was
    authenticated for the audience of the service and whose user is authorized in the namespace,
    with the handles and secrets that the snapshot resolves to; every rejection has its
    status; a request succeeds exactly when the driver ended its stream and every message
    was relayed, in order.
  \<^item> The process: readiness only after validation of the driver, never again after shutdown, phases only
    advance, a request is served only if the sidecar was ready when the request looked, the exit codes of every
    command line and the reasons of every end, among them the loss of the connection to the driver.
  \<^item> The client: what the emitter is fed, which emitters end with which result, the JSON text reads
    back, the verifier accepts exactly when the devices agree and has copied every listed block.
  \<^item> Both ends: a session of the client against the handlers of the sidecar emits what the driver sent, all of it and nothing
    else, up to the text that the lister prints.
  \<^item> Access to the resource: every operation of the typed client stays in its collection, timeouts, the limiters and the
    errors of the construction; the informers run once each and never after a shutdown has returned; deep copies share
    nothing with the original; the fake refines a store of objects with watchers.
  \<^item> \<open>filter-junit\<close>: each matching test is reported once, as skipped only if every run of it was.
  \<^item> Parsing: flags to arguments and back, TLS lists, secret templates, bounds and wrap-around of the
    limits of streams and results.

  \<^bold>\<open>Bounds and loops.\<close> A loop that may run forever (\<open>ProbeForever\<close>, the relays, \<open>recv_loop\<close>) is a
  \<open>partial_function\<close>, with \<open>None\<close> for never returning; that it returns is a theorem for streams that
  end and clients that do not block. No definition uses fuel. Integers have their Go width; where a theorem needs
  that a counter does not wrap (fewer than \<open>2 ^ 63\<close> records, fewer than \<open>2 ^ 64\<close> operations) its hypothesis
  says so. The channel of a watcher of the fake holds 100 events and panics when it is full; the refinement of the
  fake is stated for at most 100 calls, each of which sends a watcher at most one event.

  \<^bold>\<open>Not modelled.\<close>
  \<^item> The protobuf plumbing and the registration of the service in \<open>pkg/api\<close>, the registration of types in a scheme apart from
    the kinds, the discovery client of the fake: calls into their libraries without a state of their own.
  \<^item> The gomock mocks (\<open>pkg/csiclientmocks\<close>, \<open>pkg/k8sclientmocks\<close>), each method of which hands its arguments to the
    controller of gomock, and the test harness. The shell scripts of \<open>release-tools\<close>.
  \<^item> Usage texts, the formatting of times and floats, retries inside the transport of the REST client.
  \<^item> Interleaving inside two concurrent handlers beyond what they share: in \<open>Lifecycle\<close> a request takes its
    operation number, reads the readiness and finishes in three steps, between which anything else may
    happen; its events are added when it finishes. That \<open>GracefulStop\<close> turns new requests away is not
    modelled: requests may begin as long as the process runs.
  \<^item> Which part of a text that was not written entirely arrives, and what goes to standard error apart from klog.
  \<^item> Watch subscriptions of the health service, the cancellation of contexts other than the
    deadline of a session, which arrives as an error of the stream.
\<close>

end
